(* ===== verification/Prelude.thy ===== *)
theory Prelude
  imports Complex_Main
begin

text \<open>
  What every component shares: the collections of rewrite rules the component theories
  fill and use (\<open>js_simps\<close> for JavaScript numbers, \<open>row_simps\<close> for table rows,
  \<open>step_simps\<close> for the operations of a component), the error type of a call that can
  throw, and the generic facts on lists, sums and tables that more than one component needs.
\<close>

named_theorems js_simps "evaluation of JavaScript number operations on finite values"
named_theorems row_simps "effect of an operation on the rows of a table"
named_theorems step_simps "unfolding of the operations of a component"

section \<open>Calls that can throw\<close>

text \<open>
  A call that can throw returns a sum: \<open>Inl\<close> what was thrown, \<open>Inr\<close> the value. The
  thrown objects the source inspects are JSON-RPC error objects (\<open>code\<close>, \<open>message\<close>) and
  plain \<open>Error\<close>s (a message only).
\<close>

record js_error =
  err_code :: "int option"
  err_message :: "string option"

type_synonym 'a fallible = "js_error + 'a"

definition mk_error :: "string \<Rightarrow> js_error" where
  "mk_error m = \<lparr>err_code = None, err_message = Some m\<rparr>"

text \<open>Sequencing: the rest of a function runs only when the call before it returned.\<close>

definition fbind :: "'a fallible \<Rightarrow> ('a \<Rightarrow> 'b fallible) \<Rightarrow> 'b fallible" where
  "fbind m f = (case m of Inl e \<Rightarrow> Inl e | Inr x \<Rightarrow> f x)"

lemma fbind_simps [simp]: "fbind (Inl e) f = Inl e" "fbind (Inr x) f = f x"
  by (simp_all add: fbind_def)

lemma fbind_Inr: "fbind m f = Inr y \<longleftrightarrow> (\<exists>x. m = Inr x \<and> f x = Inr y)"
  by (cases m) simp_all

section \<open>Tables\<close>

text \<open>
  A table is the list of its rows in insertion order. \<open>update_where\<close> is the SQL
  \<open>UPDATE ... WHERE\<close>, \<open>filter\<close> the \<open>WHERE\<close> of a \<open>SELECT\<close>.
\<close>

definition update_where :: "('r \<Rightarrow> bool) \<Rightarrow> ('r \<Rightarrow> 'r) \<Rightarrow> 'r list \<Rightarrow> 'r list" where
  "update_where p f rs = map (\<lambda>r. if p r then f r else r) rs"

lemma length_update_where [simp, row_simps]: "length (update_where p f rs) = length rs"
  by (simp add: update_where_def)

lemma update_where_Nil [simp, row_simps]: "update_where p f [] = []"
  by (simp add: update_where_def)

lemma update_where_Cons [simp, row_simps]:
  "update_where p f (r # rs) = (if p r then f r else r) # update_where p f rs"
  by (simp add: update_where_def)

lemma update_where_append [row_simps]:
  "update_where p f (xs @ ys) = update_where p f xs @ update_where p f ys"
  by (simp add: update_where_def)

lemma set_update_where:
  "set (update_where p f rs) = {r \<in> set rs. \<not> p r} \<union> f ` {r \<in> set rs. p r}"
  by (auto simp: update_where_def)

lemma map_update_where_same:
  assumes "\<And>r. p r \<Longrightarrow> g (f r) = g r"
  shows "map g (update_where p f rs) = map g rs"
  using assms by (simp add: update_where_def)

lemma update_where_none: "(\<And>r. r \<in> set rs \<Longrightarrow> \<not> p r) \<Longrightarrow> update_where p f rs = rs"
  by (induction rs) auto

lemma filter_update_where_disjoint:
  assumes "\<And>r. p r \<Longrightarrow> \<not> q (f r)" and "\<And>r. p r \<Longrightarrow> q r"
  shows "filter q (update_where p f rs) = filter (\<lambda>r. q r \<and> \<not> p r) rs"
  using assms by (induction rs) auto

section \<open>Sums over lists and over groups\<close>

lemma sum_list_filter_split:
  "sum_list (map f xs) =
     sum_list (map f (filter p xs)) + sum_list (map f (filter (\<lambda>x. \<not> p x) xs))"
  for f :: "'a \<Rightarrow> 'b::comm_monoid_add"
  by (induction xs) (auto simp: algebra_simps)

lemma sum_list_map_nonneg:
  "(\<And>x. x \<in> set xs \<Longrightarrow> 0 \<le> f x) \<Longrightarrow> 0 \<le> sum_list (map f xs)"
  for f :: "'a \<Rightarrow> 'b::ordered_comm_monoid_add"
  by (induction xs) (auto intro: add_nonneg_nonneg)

lemma sum_list_map_mono_on:
  "(\<And>x. x \<in> set xs \<Longrightarrow> f x \<le> g x) \<Longrightarrow> sum_list (map f xs) \<le> sum_list (map g xs)"
  for f :: "'a \<Rightarrow> 'b::ordered_comm_monoid_add"
  by (induction xs) (auto intro: add_mono)

lemma sum_list_filter_le:
  "(\<And>x. x \<in> set xs \<Longrightarrow> 0 \<le> f x) \<Longrightarrow>
     sum_list (map f (filter p xs)) \<le> sum_list (map f xs)"
  for f :: "'a \<Rightarrow> 'b::ordered_ab_group_add"
  by (subst (2) sum_list_filter_split[where p = p])
     (auto intro: sum_list_map_nonneg)

lemma member_le_sum_list_map:
  "x \<in> set xs \<Longrightarrow> (\<And>y. y \<in> set xs \<Longrightarrow> 0 \<le> f y) \<Longrightarrow> f x \<le> sum_list (map f xs)"
  for f :: "'a \<Rightarrow> int"
proof (induction xs)
  case (Cons a xs)
  have "0 \<le> f a" and "0 \<le> sum_list (map f xs)"
    using Cons.prems(2) by (auto intro: sum_list_map_nonneg)
  then show ?case
    using Cons.IH[OF _ Cons.prems(2)] Cons.prems by (auto intro: add_increasing)
qed simp

lemma sum_list_filter_mem_disjoint:
  "a \<notin> set ks \<Longrightarrow>
     sum_list (map f (filter (\<lambda>x. g x = a \<or> g x \<in> set ks) xs)) =
     sum_list (map f (filter (\<lambda>x. g x = a) xs)) +
     sum_list (map f (filter (\<lambda>x. g x \<in> set ks) xs))"
  for f :: "'a \<Rightarrow> 'b::comm_monoid_add"
  by (induction xs) (auto simp: algebra_simps)

text \<open>\<open>GROUP BY\<close>: the sum of the group sums is the sum over all rows of the groups.\<close>

lemma sum_list_groups:
  "distinct ks \<Longrightarrow>
     (\<Sum>k\<leftarrow>ks. sum_list (map f (filter (\<lambda>x. g x = k) xs))) =
     sum_list (map f (filter (\<lambda>x. g x \<in> set ks) xs))"
  for f :: "'a \<Rightarrow> 'b::comm_monoid_add"
proof (induction ks)
  case (Cons k ks)
  then show ?case
    using sum_list_filter_mem_disjoint[of k ks f g xs] by simp
qed simp

lemma sum_list_remdups_groups:
  "(\<Sum>k\<leftarrow>remdups (map g xs). sum_list (map f (filter (\<lambda>x. g x = k) xs))) = sum_list (map f xs)"
  for f :: "'a \<Rightarrow> 'b::comm_monoid_add"
  by (subst sum_list_groups) (auto intro!: arg_cong[where f = "\<lambda>ys. sum_list (map f ys)"] filter_True)

section \<open>Tables with one row per key\<close>

text \<open>
  The contract of "insert unless it is there, then update": a row of the written key is created
  from its default on the first write, and reads of other keys do not see the write.
\<close>

locale upsert_table =
  fixes legal :: "'c \<Rightarrow> bool"
    and lookup :: "'k \<Rightarrow> 't \<Rightarrow> 'r option"
    and upsert :: "'k \<Rightarrow> 'c \<Rightarrow> 't \<Rightarrow> 't"
    and fresh :: "'k \<Rightarrow> 'r"
    and change :: "'c \<Rightarrow> 'r \<Rightarrow> 'r"
  assumes lookup_upsert: "legal c \<Longrightarrow> lookup a (upsert b c t) =
    (if a = b then Some (change c (case lookup a t of None \<Rightarrow> fresh a | Some r \<Rightarrow> r)) else lookup a t)"
begin

definition current :: "'k \<Rightarrow> 't \<Rightarrow> 'r" where
  "current a t = (case lookup a t of None \<Rightarrow> fresh a | Some r \<Rightarrow> r)"

lemma current_upsert: "legal c \<Longrightarrow> current a (upsert b c t) = (if a = b then change c (current a t) else current a t)"
  by (cases "a = b") (simp_all add: current_def lookup_upsert)

lemma upsert_other: "legal c \<Longrightarrow> a \<noteq> b \<Longrightarrow> lookup a (upsert b c t) = lookup a t"
  by (simp add: lookup_upsert)

lemma upsert_commute:
  "legal c \<Longrightarrow> legal d \<Longrightarrow> a \<noteq> b \<Longrightarrow> lookup k (upsert a c (upsert b d t)) = lookup k (upsert b d (upsert a c t))"
  by (auto simp: lookup_upsert)

lemma current_fold:
  "(\<And>c. c \<in> set cs \<Longrightarrow> legal c) \<Longrightarrow> current a (fold (upsert a) cs t) = fold change cs (current a t)"
  by (induction cs arbitrary: t) (simp_all add: current_upsert)

end

end
