(* ===== verification/JsNumber.thy ===== *)
theory JsNumber
  imports Prelude "HOL-Library.Log_Nat" "HOL-Library.Word"
begin

unbundle bit_operations_syntax

text \<open>
  JavaScript's Number type: IEEE-754 binary64. A finite value is the rational it stands for
  (\<open>Num x\<close>); every arithmetic result is the exact rational rounded to the nearest double, ties
  to even (\<open>rnd\<close>), with overflow to the infinities (\<open>fl\<close>). The sign of zero is not kept: no
  operation of the program observes it (a zero divisor of the program is always \<open>+0\<close>: a
  difference of equal times, or a sum of magnitudes). The 32-bit operations (\<open>|\<close>, \<open>&\<close>, \<open>^\<close>,
  \<open>~\<close>, \<open><<\<close>, \<open>>>\<close>, \<open>>>>\<close>) go through \<open>ToInt32\<close>, as the language defines them.

  The lemmas give what the components use: rounding is the identity on doubles (in particular on
  integers up to \<open>2 ^ 53\<close>), monotone, odd, and off by at most half a unit in the last place.
\<close>

section \<open>Rounding to the nearest double\<close>

definition flog2 :: "rat \<Rightarrow> int" where
  "flog2 x = (let (p, q) = quotient_of x; e = bitlen p - bitlen q
              in if 2 powi e \<le> x then e else e - 1)"

definition round_half_even :: "rat \<Rightarrow> int" where
  "round_half_even x =
     (let f = \<lfloor>x\<rfloor>; d = x - of_int f
      in if d < 1 / 2 then f else if 1 / 2 < d then f + 1 else if even f then f else f + 1)"

text \<open>The exponent of the unit in the last place: 52 below the leading bit, or the subnormals'.\<close>

definition ulp_exp :: "rat \<Rightarrow> int" where
  "ulp_exp x = max (flog2 \<bar>x\<bar> - 52) (-1074)"

definition rnd :: "rat \<Rightarrow> rat" where
  "rnd x = (if x = 0 then 0
            else let u = 2 powi ulp_exp x in of_int (round_half_even (x / u)) * u)"

text \<open>A rational that is a double: at most 53 significant bits above the least exponent.\<close>

definition is_double :: "rat \<Rightarrow> bool" where
  "is_double x \<longleftrightarrow> (\<exists>m k. x = of_int m * 2 powi k \<and> \<bar>m\<bar> \<le> 2 ^ 53 \<and> -1074 \<le> k)"

subsection \<open>Powers of two\<close>

lemma pow2_pos [simp]: "0 < (2::rat) powi e"
  by simp

lemma pow2_mono: "a \<le> b \<Longrightarrow> (2::rat) powi a \<le> 2 powi b"
  by (rule power_int_increasing) auto

lemma pow2_strict_mono: "a < b \<Longrightarrow> (2::rat) powi a < 2 powi b"
  by (rule power_int_strict_increasing) auto

lemma pow2_add: "(2::rat) powi (a + b) = 2 powi a * 2 powi b"
  by (rule power_int_add) auto

lemma pow2_diff: "(2::rat) powi (a - b) = 2 powi a / 2 powi b"
  by (rule power_int_diff) auto

lemma pow2_nat: "0 \<le> e \<Longrightarrow> (2::rat) powi e = of_int (2 ^ nat e)"
  by (simp add: power_int_def)

lemma pow2_less_imp: "(2::rat) powi a < 2 powi b \<Longrightarrow> a < b"
  using pow2_mono[of b a] by force

subsection \<open>The binary exponent\<close>

lemma flog2_bounds:
  assumes "0 < x"
  shows "2 powi flog2 x \<le> x" and "x < 2 powi (flog2 x + 1)"
proof -
  obtain p q where pq: "quotient_of x = (p, q)" by fastforce
  have q: "0 < q" and x: "x = of_int p / of_int q"
    using pq by (auto dest: quotient_of_denom_pos quotient_of_div)
  have p: "0 < p" using assms q x by (simp add: zero_less_divide_iff)
  let ?e = "bitlen p - bitlen q"
  have bp: "1 \<le> bitlen p" and bq: "1 \<le> bitlen q"
    using p q bitlen_nonneg[of p] bitlen_nonneg[of q] bitlen_eq_zero_iff[of p] bitlen_eq_zero_iff[of q]
    by linarith+
  have P: "2 powi (bitlen p - 1) \<le> (of_int p :: rat)" "(of_int p :: rat) < 2 powi bitlen p"
    using bitlen_bounds[OF p] bp by (auto simp: pow2_nat simp del: of_int_power)
  have Q: "2 powi (bitlen q - 1) \<le> (of_int q :: rat)" "(of_int q :: rat) < 2 powi bitlen q"
    using bitlen_bounds[OF q] bq by (auto simp: pow2_nat simp del: of_int_power)
  have up: "x < 2 powi (?e + 1)"
  proof -
    have "x < 2 powi bitlen p / of_int q"
      using P(2) q by (simp add: x divide_strict_right_mono)
    also have "\<dots> \<le> 2 powi bitlen p / 2 powi (bitlen q - 1)"
      using Q(1) q by (intro divide_left_mono) auto
    also have "\<dots> = 2 powi (?e + 1)"
      by (simp flip: pow2_diff add: algebra_simps)
    finally show ?thesis .
  qed
  have lo: "2 powi (?e - 1) \<le> x"
  proof -
    have "2 powi (?e - 1) = (2::rat) powi (bitlen p - 1) / 2 powi bitlen q"
      by (simp flip: pow2_diff add: algebra_simps)
    also have "\<dots> \<le> of_int p / 2 powi bitlen q"
      using P(1) by (simp add: divide_right_mono)
    also have "\<dots> \<le> x"
      unfolding x using Q(2) p q by (intro divide_left_mono) auto
    finally show ?thesis .
  qed
  show "2 powi flog2 x \<le> x" and "x < 2 powi (flog2 x + 1)"
    using up lo by (auto simp: flog2_def pq Let_def)
qed

lemma flog2_le_iff: "0 < x \<Longrightarrow> e \<le> flog2 x \<longleftrightarrow> 2 powi e \<le> x"
  using flog2_bounds[of x] pow2_mono[of e "flog2 x"] pow2_less_imp[of e "flog2 x + 1"]
  by linarith

lemma flog2_eqI:
  assumes "2 powi e \<le> x" and "x < 2 powi (e + 1)"
  shows "flog2 x = e"
proof -
  have x: "0 < x" using assms(1) pow2_pos[of e] by linarith
  have "e \<le> flog2 x" using assms(1) x by (simp add: flog2_le_iff)
  moreover have "\<not> e + 1 \<le> flog2 x" using assms(2) x by (simp add: flog2_le_iff)
  ultimately show ?thesis by linarith
qed

lemma flog2_mono: "0 < x \<Longrightarrow> x \<le> y \<Longrightarrow> flog2 x \<le> flog2 y"
  using flog2_bounds(1)[of x] by (subst flog2_le_iff) auto

subsection \<open>Rounding to the nearest integer\<close>

lemma round_half_even_error: "\<bar>of_int (round_half_even x) - x\<bar> \<le> 1 / 2"
  using floor_correct[of x] by (auto simp: round_half_even_def Let_def abs_le_iff)

lemma round_half_even_of_int [simp]: "round_half_even (of_int n) = n"
  by (simp add: round_half_even_def)

lemma round_half_even_near: "\<bar>x - of_int n\<bar> < 1 / 2 \<Longrightarrow> round_half_even x = n"
  using round_half_even_error[of x] by linarith

lemma round_half_even_mono:
  assumes "x \<le> y"
  shows "round_half_even x \<le> round_half_even y"
proof (cases "\<lfloor>x\<rfloor> = \<lfloor>y\<rfloor>")
  case True
  then show ?thesis using assms by (auto simp: round_half_even_def Let_def)
next
  case False
  then have "\<lfloor>x\<rfloor> + 1 \<le> \<lfloor>y\<rfloor>" using assms floor_mono[of x y] by linarith
  moreover have "round_half_even x \<le> \<lfloor>x\<rfloor> + 1" and "\<lfloor>y\<rfloor> \<le> round_half_even y"
    by (auto simp: round_half_even_def Let_def)
  ultimately show ?thesis by linarith
qed

lemma round_half_even_minus: "round_half_even (- x) = - round_half_even x"
proof (cases "x = of_int \<lfloor>x\<rfloor>")
  case True
  then obtain n where "x = of_int n" by blast
  then show ?thesis by (metis of_int_minus round_half_even_of_int)
next
  case False
  then have f: "\<lfloor>- x\<rfloor> = - \<lfloor>x\<rfloor> - 1" by linarith
  show ?thesis
    by (auto simp: round_half_even_def Let_def f)
qed

lemma round_half_even_le_int: "x \<le> of_int n \<Longrightarrow> round_half_even x \<le> n"
  using round_half_even_mono[of x "of_int n"] by simp

lemma int_le_round_half_even: "of_int n \<le> x \<Longrightarrow> n \<le> round_half_even x"
  using round_half_even_mono[of "of_int n" x] by simp

subsection \<open>Rounding to the nearest double\<close>

lemma ulp_exp_minus [simp]: "ulp_exp (- x) = ulp_exp x"
  by (simp add: ulp_exp_def)

lemma rnd_0 [simp]: "rnd 0 = 0"
  by (simp add: rnd_def)

lemma rnd_minus: "rnd (- x) = - rnd x"
  by (simp add: rnd_def Let_def round_half_even_minus flip: minus_divide_left)

lemma rnd_nonneg: "0 \<le> x \<Longrightarrow> 0 \<le> rnd x"
  by (auto simp: rnd_def Let_def intro!: mult_nonneg_nonneg int_le_round_half_even)

lemma rnd_nonpos: "x \<le> 0 \<Longrightarrow> rnd x \<le> 0"
  using rnd_nonneg[of "- x"] by (simp add: rnd_minus)

lemma rnd_le_grid:
  assumes "x \<noteq> 0" and "x \<le> of_int n * 2 powi ulp_exp x"
  shows "rnd x \<le> of_int n * 2 powi ulp_exp x"
proof -
  have "x / 2 powi ulp_exp x \<le> of_int n"
    using assms(2) by (simp add: pos_divide_le_eq)
  then have "round_half_even (x / 2 powi ulp_exp x) \<le> n"
    by (rule round_half_even_le_int)
  then show ?thesis
    using assms(1) by (simp add: rnd_def Let_def)
qed

lemma grid_le_rnd:
  assumes "x \<noteq> 0" and "of_int n * 2 powi ulp_exp x \<le> x"
  shows "of_int n * 2 powi ulp_exp x \<le> rnd x"
proof -
  have "of_int n \<le> x / 2 powi ulp_exp x"
    using assms(2) by (simp add: pos_le_divide_eq)
  then have "n \<le> round_half_even (x / 2 powi ulp_exp x)"
    by (rule int_le_round_half_even)
  then show ?thesis
    using assms(1) by (simp add: rnd_def Let_def)
qed

lemma pow2_on_grid: "g \<le> e \<Longrightarrow> (2::rat) powi e = of_int (2 ^ nat (e - g)) * 2 powi g"
proof -
  assume "g \<le> e"
  then have "(2::rat) powi e = 2 powi (e - g) * 2 powi g"
    by (simp flip: pow2_add)
  also have "(2::rat) powi (e - g) = of_int (2 ^ nat (e - g))"
    using \<open>g \<le> e\<close> by (intro pow2_nat) simp
  finally show ?thesis .
qed

lemma ulp_exp_mono: "x \<noteq> 0 \<Longrightarrow> \<bar>x\<bar> \<le> \<bar>y\<bar> \<Longrightarrow> ulp_exp x \<le> ulp_exp y"
  using flog2_mono[of "\<bar>x\<bar>" "\<bar>y\<bar>"] by (auto simp: ulp_exp_def)

lemma rnd_mono_pos:
  assumes x: "0 < x" and xy: "x \<le> y"
  shows "rnd x \<le> rnd y"
proof (cases "ulp_exp x = ulp_exp y")
  case True
  have "x / 2 powi ulp_exp y \<le> y / 2 powi ulp_exp y"
    using xy by (simp add: divide_right_mono)
  then have "round_half_even (x / 2 powi ulp_exp y) \<le> round_half_even (y / 2 powi ulp_exp y)"
    by (rule round_half_even_mono)
  then show ?thesis
    using x xy True by (simp add: rnd_def Let_def)
next
  case False
  then have lt: "ulp_exp x < ulp_exp y"
    using ulp_exp_mono[of x y] x xy by fastforce
  let ?P = "2 powi flog2 y :: rat"
  have uy: "ulp_exp y = flog2 y - 52"
    using lt x xy by (auto simp: ulp_exp_def)
  have "flog2 x < flog2 y"
    using lt x xy by (auto simp: ulp_exp_def)
  then have xP: "x \<le> ?P"
    using flog2_bounds(2)[OF x] pow2_mono[of "flog2 x + 1" "flog2 y"] by linarith
  have Py: "?P \<le> y"
    using flog2_bounds(1)[of y] x xy by simp
  have gx: "?P = of_int (2 ^ nat (flog2 y - ulp_exp x)) * 2 powi ulp_exp x"
    using lt uy by (intro pow2_on_grid) simp
  have gy: "?P = of_int (2 ^ nat (flog2 y - ulp_exp y)) * 2 powi ulp_exp y"
    using uy by (intro pow2_on_grid) simp
  have "rnd x \<le> ?P"
    using xP x unfolding gx by (intro rnd_le_grid) auto
  also have "?P \<le> rnd y"
    using Py x xy unfolding gy by (intro grid_le_rnd) auto
  finally show ?thesis .
qed

theorem rnd_mono:
  assumes "x \<le> y"
  shows "rnd x \<le> rnd y"
proof -
  consider "0 < x" | "x \<le> 0" "0 \<le> y" | "y < 0"
    using assms by linarith
  then show ?thesis
  proof cases
    case 1
    then show ?thesis using assms by (rule rnd_mono_pos)
  next
    case 2
    then show ?thesis using rnd_nonpos[of x] rnd_nonneg[of y] by linarith
  next
    case 3
    then have "rnd (- y) \<le> rnd (- x)"
      using assms by (intro rnd_mono_pos) auto
    then show ?thesis by (simp add: rnd_minus)
  qed
qed

subsection \<open>Doubles are fixed points\<close>

lemma is_double_strict:
  assumes "is_double x"
  obtains m k where "x = of_int m * 2 powi k" "\<bar>m\<bar> < 2 ^ 53" "-1074 \<le> k"
proof -
  obtain m k where mk: "x = of_int m * 2 powi k" "\<bar>m\<bar> \<le> 2 ^ 53" "-1074 \<le> k"
    using assms by (auto simp: is_double_def)
  show thesis
  proof (cases "\<bar>m\<bar> = 2 ^ 53")
    case False
    then show thesis using mk that[of m k] by simp
  next
    case True
    have "x = of_int (sgn m * 2 ^ 52) * 2 powi (k + 1)"
      using True by (auto simp: mk(1) pow2_add abs_if sgn_if split: if_splits)
    then show thesis
      using mk(3) True that[of "sgn m * 2 ^ 52" "k + 1"] by (auto simp: abs_mult sgn_if)
  qed
qed

lemma rnd_exact:
  assumes "is_double x"
  shows "rnd x = x"
proof (cases "x = 0")
  case False
  obtain m k where mk: "x = of_int m * 2 powi k" "\<bar>m\<bar> < 2 ^ 53" "-1074 \<le> k"
    using assms by (rule is_double_strict)
  have "\<bar>x\<bar> = of_int \<bar>m\<bar> * 2 powi k"
    by (simp add: mk(1) abs_mult)
  also have "\<dots> < of_int (2 ^ 53) * 2 powi k"
    using mk(2) by (intro mult_strict_right_mono) (auto simp only: of_int_less_iff pow2_pos)
  also have "\<dots> = 2 powi (k + 53)"
    by (subst pow2_add) (simp add: power_int_def)
  finally have "flog2 \<bar>x\<bar> < k + 53"
    using flog2_le_iff[of "\<bar>x\<bar>" "k + 53"] False by auto
  then have le: "ulp_exp x \<le> k"
    using mk(3) by (simp add: ulp_exp_def)
  have grid: "x = of_int (m * 2 ^ nat (k - ulp_exp x)) * 2 powi ulp_exp x"
    unfolding mk(1) using pow2_on_grid[OF le, unfolded mk(1)] by simp
  then have "x / 2 powi ulp_exp x = of_int (m * 2 ^ nat (k - ulp_exp x))"
    by (metis nonzero_mult_div_cancel_right pow2_pos less_irrefl)
  then have "rnd x = of_int (m * 2 ^ nat (k - ulp_exp x)) * 2 powi ulp_exp x"
    using False by (simp only: rnd_def Let_def round_half_even_of_int if_False)
  then show ?thesis
    using grid by simp
qed simp

lemma rnd_is_double: "is_double (rnd x)"
proof (cases "x = 0")
  case True
  show ?thesis
    unfolding is_double_def using True by (intro exI[of _ 0] exI[of _ "0"]) simp
next
  case False
  let ?u = "2 powi ulp_exp x :: rat" and ?m = "round_half_even (x / 2 powi ulp_exp x)"
  have "\<bar>x\<bar> \<le> 2 powi (flog2 \<bar>x\<bar> + 1)"
    using flog2_bounds(2)[of "\<bar>x\<bar>"] False by simp
  also have "\<dots> \<le> 2 powi (53 + ulp_exp x)"
    by (rule pow2_mono) (simp add: ulp_exp_def)
  also have "\<dots> = of_int (2 ^ 53) * ?u"
    by (subst pow2_add) (simp add: power_int_def)
  finally have "\<bar>x / ?u\<bar> \<le> of_int (2 ^ 53)"
    by (simp add: pos_divide_le_eq)
  then have "x / ?u \<le> of_int (2 ^ 53)" and "of_int (- (2 ^ 53)) \<le> x / ?u"
    unfolding of_int_minus by linarith+
  then have "?m \<le> 2 ^ 53" and "- (2 ^ 53) \<le> ?m"
    using round_half_even_le_int int_le_round_half_even by blast+
  then have "\<bar>?m\<bar> \<le> 2 ^ 53" by (simp add: abs_le_iff)
  moreover have "rnd x = of_int ?m * ?u"
    using False by (simp add: rnd_def Let_def)
  moreover have "-1074 \<le> ulp_exp x"
    by (simp add: ulp_exp_def)
  ultimately show ?thesis
    unfolding is_double_def by blast
qed

lemma rnd_rnd [simp]: "rnd (rnd x) = rnd x"
  by (rule rnd_exact) (rule rnd_is_double)

lemma is_double_of_int: "\<bar>n\<bar> \<le> 2 ^ 53 \<Longrightarrow> is_double (of_int n)"
  unfolding is_double_def by (rule exI[of _ n], rule exI[of _ 0]) auto

lemma is_double_minus:
  assumes "is_double x"
  shows "is_double (- x)"
proof -
  obtain m k where "x = of_int m * 2 powi k" "\<bar>m\<bar> \<le> 2 ^ 53" "-1074 \<le> k"
    using assms unfolding is_double_def by blast
  then have "- x = of_int (- m) * 2 powi k \<and> \<bar>- m\<bar> \<le> 2 ^ 53 \<and> -1074 \<le> k"
    by simp
  then show ?thesis unfolding is_double_def by blast
qed

lemma is_double_pow2: "-1074 \<le> e \<Longrightarrow> is_double (2 powi e)"
  unfolding is_double_def by (rule exI[of _ 1], rule exI[of _ e]) auto

lemma rnd_of_int: "\<bar>n\<bar> \<le> 2 ^ 53 \<Longrightarrow> rnd (of_int n) = of_int n"
  by (rule rnd_exact) (rule is_double_of_int)

text \<open>Rounding an integer gives an integer: above \<open>2 ^ 53\<close> the grid is coarser than the units.\<close>

lemma rnd_of_int_Ints: "\<exists>m. rnd (of_int n) = of_int m"
proof (cases "\<bar>n\<bar> \<le> 2 ^ 53")
  case True
  then show ?thesis using rnd_of_int by blast
next
  case False
  then have n: "2 ^ 53 \<le> \<bar>n\<bar>" "n \<noteq> 0" by auto
  have "(2::rat) powi 53 = of_int (2 ^ 53)"
    by (simp add: power_int_numeral)
  also have "\<dots> \<le> of_int \<bar>n\<bar>"
    using n(1) unfolding of_int_le_iff .
  finally have "53 \<le> flog2 \<bar>of_int n\<bar>"
    using n(2) by (subst flog2_le_iff) auto
  then have "0 \<le> ulp_exp (of_int n)"
    by (simp add: ulp_exp_def)
  then have "(2::rat) powi ulp_exp (of_int n) = of_int (2 ^ nat (ulp_exp (of_int n)))"
    by (rule pow2_nat)
  then show ?thesis
    using n(2) unfolding rnd_def Let_def by (simp flip: of_int_mult del: of_int_power)
qed

lemma rnd_le_double: "x \<le> y \<Longrightarrow> is_double y \<Longrightarrow> rnd x \<le> y"
  using rnd_mono[of x y] by (simp add: rnd_exact)

lemma double_le_rnd: "x \<le> y \<Longrightarrow> is_double x \<Longrightarrow> x \<le> rnd y"
  using rnd_mono[of x y] by (simp add: rnd_exact)

subsection \<open>The rounding error\<close>

lemma rnd_error_ulp: "x \<noteq> 0 \<Longrightarrow> \<bar>rnd x - x\<bar> \<le> 2 powi ulp_exp x / 2"
proof -
  assume x: "x \<noteq> 0"
  let ?u = "2 powi ulp_exp x :: rat"
  have "\<bar>rnd x - x\<bar> = \<bar>of_int (round_half_even (x / ?u)) - x / ?u\<bar> * ?u"
    using x by (simp add: rnd_def Let_def abs_mult field_simps flip: abs_mult_pos)
  also have "\<dots> \<le> 1 / 2 * ?u"
    by (intro mult_right_mono round_half_even_error) simp
  finally show ?thesis by simp
qed

lemma rnd_rel_error:
  assumes "2 powi (-1022) \<le> \<bar>x\<bar>"
  shows "\<bar>rnd x - x\<bar> \<le> \<bar>x\<bar> / 2 ^ 53"
proof -
  have x: "x \<noteq> 0" and pos: "0 < \<bar>x\<bar>" using assms by auto
  have "-1022 \<le> flog2 \<bar>x\<bar>"
    using assms pos by (simp add: flog2_le_iff)
  then have "ulp_exp x = flog2 \<bar>x\<bar> - 52"
    by (simp add: ulp_exp_def)
  then have "2 powi ulp_exp x / 2 = (2::rat) powi flog2 \<bar>x\<bar> / 2 ^ 53"
    by (simp only: pow2_diff) (simp add: power_int_numeral)
  also have "\<dots> \<le> \<bar>x\<bar> / 2 ^ 53"
    using flog2_bounds(1)[OF pos] by (rule divide_right_mono) simp
  finally show ?thesis
    using rnd_error_ulp[OF x] by linarith
qed

section \<open>Numbers and their operations\<close>

datatype jsnum = NaN | PosInf | NegInf | Num rat

definition fl :: "rat \<Rightarrow> jsnum" where
  "fl x = (let y = rnd x in if 2 ^ 1024 \<le> y then PosInf else if y \<le> - (2 ^ 1024) then NegInf else Num y)"

lemma fl_code [code]:
  "fl x =
     (let y = rnd x;
          b = 179769313486231590772930519078902473361797697894230657273430081157732675805500963132708477322407536021120113879871393357658789768814416622492847430639474124377767893424865485276302219601246094119453082952085005768838150682342462881473913110540827237163350510684586298239947245938479716304835356329624224137216
      in if b \<le> y then PosInf else if y \<le> - b then NegInf else Num y)"
  by (simp add: fl_def Let_def)

text \<open>A Number converted from an integer (a column value, a count, a parsed integer).\<close>

definition js_of_int :: "int \<Rightarrow> jsnum" where
  "js_of_int n = fl (of_int n)"

fun js_neg :: "jsnum \<Rightarrow> jsnum" where
  "js_neg NaN = NaN"
| "js_neg PosInf = NegInf"
| "js_neg NegInf = PosInf"
| "js_neg (Num a) = Num (- a)"

fun js_add :: "jsnum \<Rightarrow> jsnum \<Rightarrow> jsnum" where
  "js_add (Num a) (Num b) = fl (a + b)"
| "js_add NaN _ = NaN"
| "js_add _ NaN = NaN"
| "js_add PosInf NegInf = NaN"
| "js_add NegInf PosInf = NaN"
| "js_add PosInf _ = PosInf"
| "js_add _ PosInf = PosInf"
| "js_add NegInf _ = NegInf"
| "js_add _ NegInf = NegInf"

definition js_sub :: "jsnum \<Rightarrow> jsnum \<Rightarrow> jsnum" where
  "js_sub a b = js_add a (js_neg b)"

fun js_sgn :: "jsnum \<Rightarrow> int" where
  "js_sgn NaN = 0"
| "js_sgn PosInf = 1"
| "js_sgn NegInf = -1"
| "js_sgn (Num a) = (if a = 0 then 0 else if 0 < a then 1 else -1)"

definition js_signed_inf :: "int \<Rightarrow> jsnum" where
  "js_signed_inf s = (if s = 0 then NaN else if 0 < s then PosInf else NegInf)"

fun js_mul :: "jsnum \<Rightarrow> jsnum \<Rightarrow> jsnum" where
  "js_mul (Num a) (Num b) = fl (a * b)"
| "js_mul NaN _ = NaN"
| "js_mul _ NaN = NaN"
| "js_mul a b = js_signed_inf (js_sgn a * js_sgn b)"

fun js_div :: "jsnum \<Rightarrow> jsnum \<Rightarrow> jsnum" where
  "js_div (Num a) (Num b) = (if b = 0 then js_signed_inf (js_sgn (Num a)) else fl (a / b))"
| "js_div NaN _ = NaN"
| "js_div _ NaN = NaN"
| "js_div (Num a) _ = Num 0"
| "js_div a (Num b) = js_signed_inf (js_sgn a * (if 0 \<le> b then 1 else -1))"
| "js_div _ _ = NaN"

text \<open>\<open><\<close>, \<open><=\<close>, \<open>===\<close>: false as soon as one side is \<open>NaN\<close>.\<close>

fun js_lt :: "jsnum \<Rightarrow> jsnum \<Rightarrow> bool" where
  "js_lt (Num a) (Num b) = (a < b)"
| "js_lt NaN _ = False"
| "js_lt _ NaN = False"
| "js_lt a b = (a \<noteq> b \<and> (a = NegInf \<or> b = PosInf))"

fun js_le :: "jsnum \<Rightarrow> jsnum \<Rightarrow> bool" where
  "js_le (Num a) (Num b) = (a \<le> b)"
| "js_le NaN _ = False"
| "js_le _ NaN = False"
| "js_le a b = (a = NegInf \<or> b = PosInf)"

abbreviation js_gt :: "jsnum \<Rightarrow> jsnum \<Rightarrow> bool" where
  "js_gt a b \<equiv> js_lt b a"

abbreviation js_ge :: "jsnum \<Rightarrow> jsnum \<Rightarrow> bool" where
  "js_ge a b \<equiv> js_le b a"

definition js_eq :: "jsnum \<Rightarrow> jsnum \<Rightarrow> bool" where
  "js_eq a b \<longleftrightarrow> a = b \<and> a \<noteq> NaN"

fun js_is_finite :: "jsnum \<Rightarrow> bool" where
  "js_is_finite (Num _) = True"
| "js_is_finite _ = False"

text \<open>\<open>Math.floor\<close> and \<open>Math.round\<close> (the nearest integer, ties upwards), \<open>Math.max\<close>.\<close>

fun js_floor :: "jsnum \<Rightarrow> jsnum" where
  "js_floor (Num a) = Num (of_int \<lfloor>a\<rfloor>)"
| "js_floor a = a"

fun js_round :: "jsnum \<Rightarrow> jsnum" where
  "js_round (Num a) = Num (of_int \<lfloor>a + 1 / 2\<rfloor>)"
| "js_round a = a"

definition js_max :: "jsnum \<Rightarrow> jsnum \<Rightarrow> jsnum" where
  "js_max a b = (if a = NaN \<or> b = NaN then NaN else if js_lt a b then b else a)"

section \<open>The 32-bit operations\<close>

fun js_trunc :: "rat \<Rightarrow> int" where
  "js_trunc a = (if 0 \<le> a then \<lfloor>a\<rfloor> else - \<lfloor>- a\<rfloor>)"

fun to_int32 :: "jsnum \<Rightarrow> 32 word" where
  "to_int32 (Num a) = word_of_int (js_trunc a)"
| "to_int32 _ = 0"

text \<open>The result of \<open>|\<close>, \<open>&\<close>, \<open>^\<close>, \<open>~\<close>, \<open><<\<close>, \<open>>>\<close> is read as signed, that of \<open>>>>\<close> as unsigned.\<close>

definition of_int32 :: "32 word \<Rightarrow> jsnum" where
  "of_int32 w = Num (of_int (sint w))"

definition of_uint32 :: "32 word \<Rightarrow> jsnum" where
  "of_uint32 w = Num (of_int (uint w))"

definition js_bitor :: "jsnum \<Rightarrow> jsnum \<Rightarrow> jsnum" where
  "js_bitor a b = of_int32 (to_int32 a OR to_int32 b)"

definition js_bitand :: "jsnum \<Rightarrow> jsnum \<Rightarrow> jsnum" where
  "js_bitand a b = of_int32 (to_int32 a AND to_int32 b)"

definition js_bitxor :: "jsnum \<Rightarrow> jsnum \<Rightarrow> jsnum" where
  "js_bitxor a b = of_int32 (to_int32 a XOR to_int32 b)"

definition js_bitnot :: "jsnum \<Rightarrow> jsnum" where
  "js_bitnot a = of_int32 (NOT (to_int32 a))"

text \<open>Shift counts are taken modulo 32: \<open>x >> 32\<close> is \<open>x >> 0\<close>.\<close>

definition js_shl :: "jsnum \<Rightarrow> nat \<Rightarrow> jsnum" where
  "js_shl a k = of_int32 (push_bit (k mod 32) (to_int32 a))"

definition js_sar :: "jsnum \<Rightarrow> nat \<Rightarrow> jsnum" where
  "js_sar a k = of_int32 (signed_drop_bit (k mod 32) (to_int32 a))"

definition js_ushr :: "jsnum \<Rightarrow> nat \<Rightarrow> jsnum" where
  "js_ushr a k = of_uint32 (drop_bit (k mod 32) (to_int32 a))"

section \<open>Finite arithmetic\<close>

abbreviation IntN :: "int \<Rightarrow> jsnum" where
  "IntN n \<equiv> Num (of_int n)"

lemma js_trunc_int: "js_trunc (of_int n) = n"
  by (simp del: of_int_minus flip: of_int_minus)

lemma to_of_int32: "to_int32 (of_int32 w) = w"
  by (simp only: of_int32_def to_int32.simps js_trunc_int) simp

lemma to_int32_int: "to_int32 (IntN n) = word_of_int n"
  by (simp only: to_int32.simps js_trunc_int)

text \<open>An integer every double operation below keeps exact (\<open>Number.isSafeInteger\<close>, and \<open>2 ^ 53\<close>).\<close>

definition safe_int :: "int \<Rightarrow> bool" where
  "safe_int n \<longleftrightarrow> \<bar>n\<bar> \<le> 2 ^ 53"

lemma safe_int_le: "safe_int n \<Longrightarrow> \<bar>m\<bar> \<le> \<bar>n\<bar> \<Longrightarrow> safe_int m"
  by (simp add: safe_int_def)

lemma safe_int_between: "0 \<le> m \<Longrightarrow> m \<le> n \<Longrightarrow> safe_int n \<Longrightarrow> safe_int m"
  by (simp add: safe_int_def)

lemma fl_small: "\<bar>x\<bar> \<le> 2 powi 1000 \<Longrightarrow> fl x = Num (rnd x)"
proof -
  assume "\<bar>x\<bar> \<le> 2 powi 1000"
  then have "x \<le> 2 powi 1000" and "- (2 powi 1000) \<le> x"
    by linarith+
  moreover have "is_double (2 powi 1000)" and "is_double (- (2 powi 1000))"
    using is_double_pow2[of 1000] is_double_minus by simp_all
  ultimately have "rnd x \<le> 2 powi 1000" and "- (2 powi 1000) \<le> rnd x"
    using rnd_le_double double_le_rnd by blast+
  moreover have "(2::rat) powi 1000 < 2 ^ 1024"
    by (simp add: power_int_numeral)
  ultimately show ?thesis
    by (simp add: fl_def Let_def)
qed

lemma fl_double: "is_double x \<Longrightarrow> \<bar>x\<bar> \<le> 2 powi 1000 \<Longrightarrow> fl x = Num x"
  by (simp add: fl_small rnd_exact)

lemma safe_int_abs_le:
  assumes "safe_int n"
  shows "\<bar>of_int n :: rat\<bar> \<le> 2 powi 1000"
proof -
  have "\<bar>of_int n :: rat\<bar> \<le> of_int (2 ^ 53)"
    using assms unfolding safe_int_def by (simp only: of_int_le_iff flip: of_int_abs)
  also have "\<dots> \<le> 2 powi 1000"
    by (simp add: power_int_numeral)
  finally show ?thesis .
qed

lemma fl_of_int [js_simps]: "safe_int n \<Longrightarrow> fl (of_int n) = IntN n"
  by (rule fl_double) (auto simp: safe_int_abs_le safe_int_def is_double_of_int)

lemma js_of_int_safe [js_simps]: "safe_int n \<Longrightarrow> js_of_int n = IntN n"
  by (simp add: js_of_int_def fl_of_int)

lemma js_of_int_finite: "js_is_finite (js_of_int n) \<Longrightarrow> \<exists>m. js_of_int n = IntN m"
  using rnd_of_int_Ints[of n] by (auto simp: js_of_int_def fl_def Let_def split: if_splits)

lemma js_add_int [js_simps]: "safe_int (a + b) \<Longrightarrow> js_add (IntN a) (IntN b) = IntN (a + b)"
  using fl_of_int[of "a + b"] by simp

lemma js_sub_int [js_simps]: "safe_int (a - b) \<Longrightarrow> js_sub (IntN a) (IntN b) = IntN (a - b)"
  using fl_of_int[of "a - b"] by (simp add: js_sub_def)

lemma js_mul_int [js_simps]: "safe_int (a * b) \<Longrightarrow> js_mul (IntN a) (IntN b) = IntN (a * b)"
  using fl_of_int[of "a * b"] by simp

lemma js_lt_int [simp, js_simps]: "js_lt (IntN a) (IntN b) \<longleftrightarrow> a < b"
  by simp

lemma js_le_int [simp, js_simps]: "js_le (IntN a) (IntN b) \<longleftrightarrow> a \<le> b"
  by simp

lemma js_lt_NaN [simp]: "\<not> js_lt a NaN"
  by (cases a) auto

lemma js_le_NaN [simp]: "\<not> js_le a NaN"
  by (cases a) auto

lemma js_not_lt_le: "\<not> js_lt a b \<Longrightarrow> a \<noteq> NaN \<Longrightarrow> b \<noteq> NaN \<Longrightarrow> js_le b a"
  by (cases a; cases b) auto

lemma js_lt_imp_le: "js_lt a b \<Longrightarrow> js_le a b"
  by (cases a; cases b) auto

lemma js_le_trans: "js_le a b \<Longrightarrow> js_le b c \<Longrightarrow> js_le a c"
  by (cases a; cases b; cases c) auto

lemma js_lt_le_trans: "js_lt a b \<Longrightarrow> js_le b c \<Longrightarrow> js_lt a c"
  by (cases a; cases b; cases c) auto

lemma js_le_lt_trans: "js_le a b \<Longrightarrow> js_lt b c \<Longrightarrow> js_lt a c"
  by (cases a; cases b; cases c) auto

lemma js_lt_irrefl [simp]: "\<not> js_lt a a"
  by (cases a) auto

lemma js_finite_cases: "js_is_finite a \<longleftrightarrow> (\<exists>x. a = Num x)"
  by (cases a) auto

subsection \<open>Monotonicity of addition\<close>

lemma fl_not_NaN [simp]: "fl x \<noteq> NaN" "NaN \<noteq> fl x"
  by (simp_all add: fl_def Let_def)

lemma fl_mono: "a \<le> b \<Longrightarrow> js_le (fl a) (fl b)"
  using rnd_mono[of a b] by (auto simp: fl_def Let_def)

lemma js_le_refl [simp]: "js_le a a \<longleftrightarrow> a \<noteq> NaN"
  by (cases a) auto

lemma js_add_mono_left: "a \<le> b \<Longrightarrow> c \<noteq> NaN \<Longrightarrow> js_le (js_add (Num a) c) (js_add (Num b) c)"
  by (cases c) (auto intro: fl_mono)

lemma js_neg_NaN [simp]: "js_neg c = NaN \<longleftrightarrow> c = NaN"
  by (cases c) auto

lemma js_sub_mono_left: "a \<le> b \<Longrightarrow> c \<noteq> NaN \<Longrightarrow> js_le (js_sub (Num a) c) (js_sub (Num b) c)"
  by (simp add: js_sub_def js_add_mono_left)

text \<open>The Numbers: a finite one is a double of the finite range. Every operation returns one.\<close>

fun js_wf :: "jsnum \<Rightarrow> bool" where
  "js_wf (Num x) = (fl x = Num x)"
| "js_wf _ = True"

lemma js_wf_fl [simp]: "js_wf (fl x)"
  by (simp add: fl_def Let_def)

lemma js_wf_int: "safe_int n \<Longrightarrow> js_wf (IntN n)"
  by (simp add: fl_of_int)

lemma fl_0 [simp]: "fl 0 = Num 0"
  using fl_of_int[of 0] by (simp add: safe_int_def)

lemma js_wf_signed_inf [simp]: "js_wf (js_signed_inf s)"
  by (simp add: js_signed_inf_def)

lemma js_wf_add [simp]: "js_wf (js_add a b)"
  by (cases "(a, b)" rule: js_add.cases) auto

lemma js_wf_sub [simp]: "js_wf (js_sub a b)"
  by (simp add: js_sub_def)

lemma js_wf_mul [simp]: "js_wf (js_mul a b)"
  by (cases "(a, b)" rule: js_mul.cases) auto

lemma js_wf_div [simp]: "js_wf (js_div a b)"
  by (cases "(a, b)" rule: js_div.cases) auto

lemma js_sub_decreases:
  assumes "js_wf a" and "a \<noteq> NaN" and "0 \<le> d"
  shows "js_le (js_sub a (Num d)) a"
proof (cases a)
  case (Num x)
  then have "js_le (fl (x - d)) (fl x)"
    using assms(3) by (intro fl_mono) simp
  with Num assms(1) show ?thesis
    by (simp add: js_sub_def)
qed (use assms in \<open>auto simp: js_sub_def\<close>)

end
