(* ===== verification/JsString.thy ===== *)
theory JsString
  imports JsNumber "HOL-Library.Char_ord" "HOL-Library.Sublist"
begin

text \<open>
  The string functions of JavaScript the program uses. A string is a list of code units; the
  model's \<open>char\<close> covers the code units below 256, where the case mapping and the white space of
  the language are written out. Conversions between strings and numbers round as the language
  does (\<open>fl\<close> of the exact value of the digits).
\<close>

section \<open>Characters, trimming, splitting, searching\<close>

definition code_unit :: "char \<Rightarrow> int" where
  "code_unit c = of_char c"

definition is_space :: "char \<Rightarrow> bool" where
  "is_space c \<longleftrightarrow> code_unit c \<in> {9, 10, 11, 12, 13, 32, 160}"

definition lower :: "char \<Rightarrow> char" where
  "lower c = (let n = code_unit c
              in if 65 \<le> n \<and> n \<le> 90 \<or> 192 \<le> n \<and> n \<le> 222 \<and> n \<noteq> 215 then char_of (n + 32) else c)"

definition to_lower :: "string \<Rightarrow> string" where
  "to_lower s = map lower s"

definition trim_start :: "string \<Rightarrow> string" where
  "trim_start s = dropWhile is_space s"

definition trim :: "string \<Rightarrow> string" where
  "trim s = rev (dropWhile is_space (rev (trim_start s)))"

fun split_on :: "char \<Rightarrow> string \<Rightarrow> string list" where
  "split_on c [] = [[]]"
| "split_on c (x # xs) =
     (if x = c then [] # split_on c xs
      else case split_on c xs of [] \<Rightarrow> [[x]] | w # ws \<Rightarrow> (x # w) # ws)"

definition starts_with :: "string \<Rightarrow> string \<Rightarrow> bool" where
  "starts_with p s \<longleftrightarrow> take (length p) s = p"

fun str_includes :: "string \<Rightarrow> string \<Rightarrow> bool" where
  "str_includes p [] = (p = [])"
| "str_includes p (x # xs) = (starts_with p (x # xs) \<or> str_includes p xs)"

fun join_with :: "string \<Rightarrow> string list \<Rightarrow> string" where
  "join_with sep [] = []"
| "join_with sep [w] = w"
| "join_with sep (w # ws) = w @ sep @ join_with sep ws"

text \<open>Truthiness of a possibly undefined string, and the \<open>||\<close> of two of them.\<close>

definition truthy :: "string option \<Rightarrow> bool" where
  "truthy s \<longleftrightarrow> (case s of None \<Rightarrow> False | Some t \<Rightarrow> t \<noteq> [])"

definition or_else :: "string option \<Rightarrow> string option \<Rightarrow> string option" where
  "or_else a b = (if truthy a then a else b)"

lemma split_on_ne [simp]: "split_on c s \<noteq> []"
  by (cases s) (auto split: list.splits)

lemma split_on_parts: "w \<in> set (split_on c s) \<Longrightarrow> c \<notin> set w"
  by (induction c s arbitrary: w rule: split_on.induct) (fastforce split: if_splits list.splits)+

lemma hd_split_on: "hd (split_on c s) = takeWhile (\<lambda>x. x \<noteq> c) s"
  by (induction c s rule: split_on.induct) (auto split: list.splits)

lemma split_on_join: "join_with [c] (split_on c s) = s"
proof (induction c s rule: split_on.induct)
  case (2 c x xs)
  then show ?case by (cases "split_on c xs"; cases "tl (split_on c xs)") auto
qed simp

lemma includes_iff: "str_includes p s \<longleftrightarrow> sublist p s"
proof (induction p s rule: str_includes.induct)
  case (2 p x xs)
  have "starts_with p (x # xs) \<longleftrightarrow> prefix p (x # xs)"
    unfolding starts_with_def by (metis append_eq_conv_conj prefix_def)
  then show ?case using 2 by (simp add: sublist_Cons_right)
qed simp

section \<open>Digits\<close>

text \<open>The value of a digit in the largest radix, 36; 36 when the character is no digit.\<close>

definition digit_val :: "char \<Rightarrow> int" where
  "digit_val c = (let n = code_unit c
                  in if 48 \<le> n \<and> n \<le> 57 then n - 48
                     else if 97 \<le> n \<and> n \<le> 122 then n - 87
                     else if 65 \<le> n \<and> n \<le> 90 then n - 55 else 36)"

definition digit_char :: "int \<Rightarrow> char" where
  "digit_char d = char_of (if d < 10 then 48 + d else 87 + d)"

definition digits_value :: "int \<Rightarrow> int list \<Rightarrow> int" where
  "digits_value r ds = foldl (\<lambda>a d. a * r + d) 0 ds"

definition scan_digits :: "int \<Rightarrow> string \<Rightarrow> int list" where
  "scan_digits r s = map digit_val (takeWhile (\<lambda>c. digit_val c < r) s)"

text \<open>\<open>Number.prototype.toString(radix)\<close> of a non-negative integer.\<close>

function radix_string :: "int \<Rightarrow> int \<Rightarrow> string" where
  "radix_string r n =
     (if r < 2 then [] else if n < r then [digit_char n]
      else radix_string r (n div r) @ [digit_char (n mod r)])"
  by pat_completeness auto
termination
  by (relation "measure (\<lambda>(r, n). nat n)") (auto simp: int_div_less_self)

declare radix_string.simps [simp del]

definition hex_string :: "int \<Rightarrow> string" where
  "hex_string n = radix_string 16 n"

definition dec_string :: "int \<Rightarrow> string" where
  "dec_string n = radix_string 10 n"

lemma digit_val_char [simp]: "0 \<le> d \<Longrightarrow> d < 36 \<Longrightarrow> digit_val (digit_char d) = d"
  by (auto simp: digit_val_def digit_char_def code_unit_def Let_def)

lemma digit_val_char_mod [simp]: "2 \<le> r \<Longrightarrow> r \<le> 36 \<Longrightarrow> digit_val (digit_char (n mod r)) = n mod r"
  using pos_mod_bound[of r n] pos_mod_sign[of r n] by (intro digit_val_char) linarith+

lemma digits_value_snoc: "digits_value r (ds @ [d]) = digits_value r ds * r + d"
  by (simp add: digits_value_def)

lemma radix_string_digit: "2 \<le> r \<Longrightarrow> n < r \<Longrightarrow> radix_string r n = [digit_char n]"
  by (subst radix_string.simps) simp

lemma radix_string_step:
  "2 \<le> r \<Longrightarrow> r \<le> n \<Longrightarrow> radix_string r n = radix_string r (n div r) @ [digit_char (n mod r)]"
  by (subst radix_string.simps) simp

lemma radix_string_chars:
  "0 \<le> n \<Longrightarrow> 2 \<le> r \<Longrightarrow> r \<le> 36 \<Longrightarrow> c \<in> set (radix_string r n) \<Longrightarrow> digit_val c < r"
proof (induction r n rule: radix_string.induct)
  case (1 r n)
  then show ?case
    by (cases "n < r") (auto simp: radix_string_digit radix_string_step pos_imp_zdiv_nonneg_iff)
qed

lemma radix_string_ne [simp]: "2 \<le> r \<Longrightarrow> radix_string r n \<noteq> []"
  by (subst radix_string.simps) simp

lemma radix_string_value:
  "0 \<le> n \<Longrightarrow> 2 \<le> r \<Longrightarrow> r \<le> 36 \<Longrightarrow> digits_value r (map digit_val (radix_string r n)) = n"
proof (induction r n rule: radix_string.induct)
  case (1 r n)
  then show ?case
    by (cases "n < r")
       (auto simp: radix_string_digit radix_string_step digits_value_snoc pos_imp_zdiv_nonneg_iff,
        simp add: digits_value_def)
qed

lemma radix_string_inject:
  "0 \<le> m \<Longrightarrow> 0 \<le> n \<Longrightarrow> 2 \<le> r \<Longrightarrow> r \<le> 36 \<Longrightarrow> radix_string r m = radix_string r n \<longleftrightarrow> m = n"
  by (metis radix_string_value)

lemma hex_string_inject: "0 \<le> m \<Longrightarrow> 0 \<le> n \<Longrightarrow> hex_string m = hex_string n \<longleftrightarrow> m = n"
  by (simp add: hex_string_def radix_string_inject)

lemma dec_string_inject: "0 \<le> m \<Longrightarrow> 0 \<le> n \<Longrightarrow> dec_string m = dec_string n \<longleftrightarrow> m = n"
  by (simp add: dec_string_def radix_string_inject)

lemma scan_radix_string:
  assumes "0 \<le> n" and "2 \<le> r" and "r \<le> 36"
  shows "digits_value r (scan_digits r (radix_string r n)) = n"
proof -
  have "takeWhile (\<lambda>c. digit_val c < r) (radix_string r n) = radix_string r n"
    using radix_string_chars[OF assms] by (simp add: takeWhile_eq_all_conv)
  then show ?thesis
    using assms by (simp only: scan_digits_def radix_string_value)
qed

section \<open>Reading numbers\<close>

definition scan_sign :: "string \<Rightarrow> int \<times> string" where
  "scan_sign s = (case s of [] \<Rightarrow> (1, [])
                  | c # t \<Rightarrow> if c = CHR ''-'' then (-1, t) else if c = CHR ''+'' then (1, t) else (1, s))"

definition strip_0x :: "string \<Rightarrow> string" where
  "strip_0x s = (if to_lower (take 2 s) = ''0x'' then drop 2 s else s)"

text \<open>
  \<open>parseInt(s, radix)\<close>; radix 16 skips a \<open>0x\<close>. The radix is omitted in a few calls, which
  then read decimal or, after \<open>0x\<close>, hexadecimal digits (\<open>parse_int_auto\<close>).
\<close>

definition parse_digits :: "int \<Rightarrow> int \<Rightarrow> string \<Rightarrow> jsnum" where
  "parse_digits r sg s =
     (let ds = scan_digits r s
      in if ds = [] then NaN else js_of_int (sg * digits_value r ds))"

definition parse_int :: "int \<Rightarrow> string \<Rightarrow> jsnum" where
  "parse_int r s =
     (let (sg, t) = scan_sign (trim_start s)
      in parse_digits r sg (if r = 16 then strip_0x t else t))"

definition parse_int_auto :: "string \<Rightarrow> jsnum" where
  "parse_int_auto s =
     (let (sg, t) = scan_sign (trim_start s)
      in if to_lower (take 2 t) = ''0x'' then parse_digits 16 sg (drop 2 t) else parse_digits 10 sg t)"

text \<open>\<open>parseInt(undefined, ...)\<close> reads the letters of \<open>undefined\<close>: \<open>NaN\<close> in every radix used.\<close>

definition parse_int_opt :: "int \<Rightarrow> string option \<Rightarrow> jsnum" where
  "parse_int_opt r s = (case s of None \<Rightarrow> NaN | Some t \<Rightarrow> parse_int r t)"

text \<open>
  The decimal literal at the start of a string: sign, digits, fraction, exponent, or
  \<open>Infinity\<close>; its value and what follows it.
\<close>

definition scan_exponent :: "string \<Rightarrow> int \<times> string" where
  "scan_exponent s =
     (case s of [] \<Rightarrow> (0, s)
      | c # t \<Rightarrow> if lower c \<noteq> CHR ''e'' then (0, s)
                else let (sg, u) = scan_sign t; ds = scan_digits 10 u
                     in if ds = [] then (0, s) else (sg * digits_value 10 ds, drop (length ds) u))"

definition scan_fraction :: "string \<Rightarrow> int list \<times> string" where
  "scan_fraction s =
     (case s of [] \<Rightarrow> ([], s)
      | c # t \<Rightarrow> if c \<noteq> CHR ''.'' then ([], s)
                else let ds = scan_digits 10 t in (ds, drop (length ds) t))"

definition scan_decimal :: "string \<Rightarrow> (jsnum \<times> string) option" where
  "scan_decimal s =
     (let (sg, t) = scan_sign s
      in if starts_with ''Infinity'' t then Some (js_signed_inf sg, drop 8 t)
         else let ip = scan_digits 10 t; (fp, u) = scan_fraction (drop (length ip) t)
              in if ip = [] \<and> fp = [] then None
                 else let (ex, rest) = scan_exponent u
                      in Some (fl (of_int (sg * digits_value 10 (ip @ fp))
                                   * 10 powi (ex - int (length fp))), rest))"

definition parse_float :: "string \<Rightarrow> jsnum" where
  "parse_float s = (case scan_decimal (trim_start s) of None \<Rightarrow> NaN | Some (v, _) \<Rightarrow> v)"

definition parse_float_opt :: "string option \<Rightarrow> jsnum" where
  "parse_float_opt s = (case s of None \<Rightarrow> NaN | Some t \<Rightarrow> parse_float t)"

text \<open>\<open>Number(s)\<close>: the whole trimmed string is a literal, or \<open>NaN\<close>; the empty string is 0.\<close>

definition radix_literal :: "int \<Rightarrow> string \<Rightarrow> jsnum" where
  "radix_literal r s =
     (if s \<noteq> [] \<and> (\<forall>c \<in> set s. digit_val c < r)
      then js_of_int (digits_value r (map digit_val s)) else NaN)"

definition to_number :: "string \<Rightarrow> jsnum" where
  "to_number s =
     (let t = trim s; p = to_lower (take 2 t)
      in if t = [] then Num 0
         else if p = ''0x'' then radix_literal 16 (drop 2 t)
         else if p = ''0o'' then radix_literal 8 (drop 2 t)
         else if p = ''0b'' then radix_literal 2 (drop 2 t)
         else case scan_decimal t of Some (v, []) \<Rightarrow> v | _ \<Rightarrow> NaN)"

definition to_number_opt :: "string option \<Rightarrow> jsnum" where
  "to_number_opt s = (case s of None \<Rightarrow> NaN | Some t \<Rightarrow> to_number t)"

section \<open>Fixed-point text\<close>

definition pad_left :: "nat \<Rightarrow> char \<Rightarrow> string \<Rightarrow> string" where
  "pad_left k c s = replicate (k - length s) c @ s"

text \<open>
  \<open>x.toFixed(f)\<close>: the integer nearest to \<open>x * 10^f\<close> (the larger one on a tie), printed with
  the decimal point \<open>f\<close> places from the right. From \<open>1e21\<close> on the language falls back to its
  general number-to-string conversion, which is the argument \<open>big\<close>.
\<close>

definition fixed_text :: "nat \<Rightarrow> int \<Rightarrow> string" where
  "fixed_text f n =
     (if f = 0 then dec_string n
      else dec_string (n div 10 ^ f) @ ''.'' @ pad_left f (CHR ''0'') (dec_string (n mod 10 ^ f)))"

definition to_fixed :: "(jsnum \<Rightarrow> string) \<Rightarrow> nat \<Rightarrow> jsnum \<Rightarrow> string" where
  "to_fixed big f x =
     (case x of NaN \<Rightarrow> ''NaN'' | PosInf \<Rightarrow> ''Infinity'' | NegInf \<Rightarrow> ''-Infinity''
      | Num a \<Rightarrow> if 10 ^ 21 \<le> \<bar>a\<bar> then big x
                else (if a < 0 then ''-'' else []) @ fixed_text f \<lfloor>\<bar>a\<bar> * 10 ^ f + 1 / 2\<rfloor>)"

text \<open>The integer a fixed-point text stands for, in units of its last place.\<close>

definition fixed_value :: "string \<Rightarrow> int" where
  "fixed_value s = digits_value 10 (map digit_val (filter (\<lambda>c. c \<noteq> CHR ''.'') s))"

lemma foldl_digits: "foldl (\<lambda>a d. a * r + d) v ds = v * r ^ length ds + digits_value r ds" for r :: int
proof (induction ds rule: rev_induct)
  case (snoc d ds)
  have "foldl (\<lambda>a d. a * r + d) v (ds @ [d]) = (v * r ^ length ds + digits_value r ds) * r + d"
    by (simp add: snoc.IH)
  also have "\<dots> = v * r ^ length (ds @ [d]) + digits_value r (ds @ [d])"
    by (simp add: digits_value_snoc distrib_right)
  finally show ?case .
qed (simp add: digits_value_def)

lemma digits_value_append:
  "digits_value r (xs @ ys) = digits_value r xs * r ^ length ys + digits_value r ys"
  using foldl_digits[of r "digits_value r xs" ys] by (simp add: digits_value_def)

lemma digits_value_zeros [simp]: "digits_value r (replicate k 0) = 0"
  by (induction k) (auto simp: digits_value_def)

lemma radix_string_length: "0 \<le> n \<Longrightarrow> n < r ^ k \<Longrightarrow> 2 \<le> r \<Longrightarrow> 0 < k \<Longrightarrow> length (radix_string r n) \<le> k"
proof (induction k arbitrary: n)
  case (Suc k)
  show ?case
  proof (cases "n < r")
    case False
    have "n div r * r \<le> n"
      using Suc.prems pos_mod_sign[of r n] div_mult_mod_eq[of n r] by linarith
    then have "n div r * r < r ^ k * r"
      using Suc.prems(2) by (simp add: mult.commute)
    then have "n div r < r ^ k"
      using Suc.prems(3) by (simp add: mult_less_cancel_right)
    moreover have "0 < k"
      using False Suc.prems by (cases k) auto
    ultimately show ?thesis
      using False Suc by (simp add: radix_string_step pos_imp_zdiv_nonneg_iff)
  qed (use Suc.prems in \<open>simp add: radix_string_digit\<close>)
qed simp

lemma dec_string_no_dot: "0 \<le> n \<Longrightarrow> CHR ''.'' \<notin> set (dec_string n)"
  using radix_string_chars[of n 10 "CHR ''.''"]
  by (auto simp: dec_string_def digit_val_def code_unit_def Let_def)

lemma fixed_value_text:
  assumes "0 \<le> n"
  shows "fixed_value (fixed_text f n) = n"
proof -
  have flt: "0 \<le> m \<Longrightarrow> filter (\<lambda>c. c \<noteq> CHR ''.'') (dec_string m) = dec_string m" for m
    using dec_string_no_dot[of m] by (auto simp: filter_id_conv)
  have val: "0 \<le> m \<Longrightarrow> digits_value 10 (map digit_val (dec_string m)) = m" for m
    by (simp add: dec_string_def radix_string_value)
  have zero: "digit_val (CHR ''0'') = 0"
    by (simp add: digit_val_def code_unit_def)
  show ?thesis
  proof (cases "f = 0")
    case True
    then show ?thesis using assms by (simp add: fixed_value_def fixed_text_def flt val)
  next
    case False
    let ?q = "n div 10 ^ f" and ?m = "n mod 10 ^ f"
    have q: "0 \<le> ?q" and m: "0 \<le> ?m" "?m < 10 ^ f"
      using assms by (simp_all add: pos_imp_zdiv_nonneg_iff)
    have len: "length (dec_string ?m) \<le> f"
      unfolding dec_string_def using m False by (intro radix_string_length) auto
    have "fixed_value (fixed_text f n) =
        digits_value 10 (map digit_val (dec_string ?q) @
          replicate (f - length (dec_string ?m)) 0 @ map digit_val (dec_string ?m))"
      using False q m by (simp add: fixed_value_def fixed_text_def pad_left_def flt zero map_replicate_const)
    also have "\<dots> = ?q * 10 ^ f + ?m"
      using q m len by (simp add: digits_value_append digits_value_zeros val)
    also have "\<dots> = n"
      by (rule div_mult_mod_eq)
    finally show ?thesis .
  qed
qed

lemma to_fixed_near:
  assumes "0 \<le> a" and "a < 10 ^ 21" and "\<bar>a * 10 ^ f - of_int n\<bar> < 1 / 2"
  shows "to_fixed big f (Num a) = fixed_text f n"
proof -
  have "a * 10 ^ f - of_int n < 1 / 2" and "- (1 / 2) < a * 10 ^ f - of_int n"
    using assms(3) by linarith+
  then have "\<lfloor>a * 10 ^ f + 1 / 2\<rfloor> = n"
    unfolding floor_eq_iff by linarith
  then have "\<lfloor>\<bar>a\<bar> * 10 ^ f + 1 / 2\<rfloor> = n"
    using assms(1) by simp
  then show ?thesis
    using assms by (simp add: to_fixed_def)
qed

end
