(* ===== verification/Config.thy ===== *)
theory Config
  imports JsString
begin

text \<open>
  The settings: \<open>ConfigService.get\<close> (and \<open>process.env\<close>) is a map from keys to strings, and every
  getter of the program that reads a number, a flag or a list from it. The getters fall back to
  a default on anything that does not parse; the lemmas show that their results are positive
  integers (or a percentage below 100) for every environment.
\<close>

type_synonym config = "string \<Rightarrow> string option"

section \<open>Numeric settings\<close>

text \<open>
  The idiom of all integer settings: \<open>parseInt(config.get(key), 10)\<close>, and the default unless
  the result is finite and positive.
\<close>

definition positive_setting :: "config \<Rightarrow> string \<Rightarrow> int \<Rightarrow> jsnum" where
  "positive_setting cfg key dflt =
     (let configured = parse_int_opt 10 (cfg key)
      in if js_is_finite configured \<and> js_gt configured (Num 0) then configured else IntN dflt)"

definition getWindowMinutes :: "config \<Rightarrow> jsnum" where
  "getWindowMinutes cfg = positive_setting cfg ''PPLNS_WINDOW_MINUTES'' 90"

definition getMinPayoutThresholdSats :: "config \<Rightarrow> jsnum" where
  "getMinPayoutThresholdSats cfg = positive_setting cfg ''MIN_PAYOUT_THRESHOLD_SATS'' 100000"

definition getPoolDefaultThresholdSats :: "config \<Rightarrow> jsnum" where
  "getPoolDefaultThresholdSats cfg = positive_setting cfg ''MIN_PAYOUT_THRESHOLD_SATS'' 100000"

definition getCoinbaseMaturity :: "config \<Rightarrow> jsnum" where
  "getCoinbaseMaturity cfg = positive_setting cfg ''COINBASE_MATURITY'' 100"

definition getIntervalMinutes :: "config \<Rightarrow> jsnum" where
  "getIntervalMinutes cfg = positive_setting cfg ''PAYOUT_INTERVAL_MINUTES'' 60"

definition getConfirmationsRequired :: "config \<Rightarrow> jsnum" where
  "getConfirmationsRequired cfg = positive_setting cfg ''PAYOUT_CONFIRMATIONS_REQUIRED'' 1"

definition getPositiveIntegerEnv :: "config \<Rightarrow> string \<Rightarrow> int \<Rightarrow> jsnum" where
  "getPositiveIntegerEnv env key fallback = positive_setting env key fallback"

text \<open>\<open>POOL_FEE_PERCENT\<close>: a percentage in \<open>[0, 100)\<close>, else 0.\<close>

definition getFeePercent :: "config \<Rightarrow> jsnum" where
  "getFeePercent cfg =
     (let configured = parse_float_opt (cfg ''POOL_FEE_PERCENT'')
      in if js_is_finite configured \<and> js_ge configured (Num 0) \<and> js_lt configured (Num 100)
         then configured else Num 0)"

definition getFallbackFeeRateSatsPerVb :: "config \<Rightarrow> jsnum" where
  "getFallbackFeeRateSatsPerVb cfg =
     (let configured = parse_float_opt (cfg ''PAYOUT_FALLBACK_FEE_RATE_SATS_PER_VB'')
      in if js_is_finite configured \<and> js_gt configured (Num 0) then configured else Num 1)"

text \<open>\<open>StratumV1Client.getTunedIntervalMs\<close>: a timer period, clamped from below.\<close>

definition getTunedIntervalMs :: "config \<Rightarrow> string \<Rightarrow> jsnum \<Rightarrow> jsnum \<Rightarrow> jsnum" where
  "getTunedIntervalMs cfg envKey defaultMs minMs =
     (case cfg envKey of
        None \<Rightarrow> defaultMs
      | Some raw \<Rightarrow>
          if trim raw = [] then defaultMs
          else let parsed = parse_int 10 raw
               in if \<not> js_is_finite parsed \<or> js_le parsed (Num 0) then defaultMs
                  else js_max parsed minMs)"

text \<open>What \<open>GET pool/fee-info\<close> reports: any finite value of the same three settings.\<close>

record fee_info =
  feePercent :: jsnum
  minPayoutThresholdSats :: jsnum
  payoutIntervalMinutes :: jsnum

definition getFeeInfo :: "config \<Rightarrow> fee_info" where
  "getFeeInfo cfg =
     (let f = parse_float_opt (cfg ''POOL_FEE_PERCENT'');
          t = parse_int_opt 10 (cfg ''MIN_PAYOUT_THRESHOLD_SATS'');
          i = parse_int_opt 10 (cfg ''PAYOUT_INTERVAL_MINUTES'')
      in \<lparr>feePercent = (if js_is_finite f then f else Num 0),
          minPayoutThresholdSats = (if js_is_finite t then t else Num 100000),
          payoutIntervalMinutes = (if js_is_finite i then i else Num 60)\<rparr>)"

section \<open>Flags, names and lists\<close>

definition isDryRun :: "config \<Rightarrow> bool" where
  "isDryRun cfg = (map_option to_lower (cfg ''PAYOUT_DRY_RUN'') = Some ''true'')"

definition is_backpressure_disabled :: "config \<Rightarrow> bool" where
  "is_backpressure_disabled env = (map_option to_lower (env ''STRATUM_BACKPRESSURE_ENABLED'') = Some ''false'')"

text \<open>The single-runner guard of the scheduled services (\<open>NODE_APP_INSTANCE\<close> unset or \<open>0\<close>).\<close>

definition is_primary_instance :: "config \<Rightarrow> bool" where
  "is_primary_instance env = (case env ''NODE_APP_INSTANCE'' of None \<Rightarrow> True | Some i \<Rightarrow> i = ''0'')"

definition getPoolWalletAddress :: "config \<Rightarrow> string fallible" where
  "getPoolWalletAddress cfg =
     (case cfg ''POOL_WALLET_ADDRESS'' of
        None \<Rightarrow> Inl (mk_error ''POOL_WALLET_ADDRESS is not configured'')
      | Some a \<Rightarrow> if a = [] then Inl (mk_error ''POOL_WALLET_ADDRESS is not configured'') else Inr a)"

definition getJwtSecret :: "config \<Rightarrow> string fallible" where
  "getJwtSecret cfg =
     (case cfg ''JWT_SECRET'' of
        None \<Rightarrow> Inl (mk_error ''JWT_SECRET is not configured (or too short)'')
      | Some s \<Rightarrow> if length s < 16 then Inl (mk_error ''JWT_SECRET is not configured (or too short)'')
                 else Inr s)"

datatype network = ElektronMainnet | ElektronRegtest | BitcoinMainnet | BitcoinTestnet | BitcoinRegtest

definition resolveConfiguredNetwork :: "config \<Rightarrow> network option" where
  "resolveConfiguredNetwork cfg =
     (case cfg ''NETWORK'' of
        None \<Rightarrow> None
      | Some n \<Rightarrow>
          if n = ''mainnet'' then Some ElektronMainnet
          else if n = ''regtest'' then Some ElektronRegtest
          else if n = ''bitcoin-mainnet'' then Some BitcoinMainnet
          else if n = ''bitcoin-testnet'' then Some BitcoinTestnet
          else if n = ''bitcoin-regtest'' then Some BitcoinRegtest
          else None)"

section \<open>What the getters return\<close>

definition positive_integer :: "jsnum \<Rightarrow> bool" where
  "positive_integer v \<longleftrightarrow> (case v of Num a \<Rightarrow> a = of_int \<lfloor>a\<rfloor> \<and> 0 < a | _ \<Rightarrow> False)"

lemma parse_int_integer: "js_is_finite (parse_int r s) \<Longrightarrow> \<exists>m. parse_int r s = IntN m"
  by (auto simp: parse_int_def parse_digits_def Let_def intro: js_of_int_finite
      split: prod.splits if_splits)

lemma parse_int_opt_integer: "js_is_finite (parse_int_opt r s) \<Longrightarrow> \<exists>m. parse_int_opt r s = IntN m"
  by (auto simp: parse_int_opt_def intro: parse_int_integer split: option.splits)

lemma positive_integer_int [simp]: "positive_integer (IntN m) \<longleftrightarrow> 0 < m"
  by (simp add: positive_integer_def)

lemma positive_integerE:
  assumes "positive_integer v"
  obtains m where "v = IntN m" and "0 < m"
  using assms by (cases v) (auto simp: positive_integer_def intro: that[of "\<lfloor>_\<rfloor>"])

lemma positive_setting_positive: "0 < dflt \<Longrightarrow> positive_integer (positive_setting cfg key dflt)"
  using parse_int_opt_integer[of 10 "cfg key"]
  by (auto simp: positive_setting_def Let_def)

lemma getFeePercent_range:
  obtains f where "getFeePercent cfg = Num f" and "0 \<le> f" and "f < 100"
proof (cases "parse_float_opt (cfg ''POOL_FEE_PERCENT'')")
  case (Num a)
  then show thesis
    by (cases "0 \<le> a \<and> a < 100") (auto simp: getFeePercent_def intro: that[of a] that[of 0])
qed (auto simp: getFeePercent_def intro: that[of 0])

lemma getTunedIntervalMs_min:
  assumes "js_le minMs defaultMs" and "minMs \<noteq> NaN"
  shows "js_le minMs (getTunedIntervalMs cfg key defaultMs minMs)"
  using assms js_not_lt_le
  by (auto simp: getTunedIntervalMs_def Let_def js_max_def js_lt_imp_le split: option.splits)

end
