(* ===== verification/ShareLog.thy ===== *)
theory ShareLog
  imports Config
begin

text \<open>
  The PPLNS share log (\<open>src/ORM/pplns-shares\<close>): one row per accepted share, read back over a
  time window when a block is found, and pruned every hour. The locale \<open>time_log\<close> is what a
  reader of the window relies on; the log of the program is its instance.
\<close>

record share =
  s_id :: int
  s_minerAddress :: string
  s_difficulty :: jsnum
  s_timestamp :: int
  s_blockHeightAtSubmission :: int

record share_log =
  sl_rows :: "share list"
  sl_next_id :: int

definition empty_share_log :: share_log where
  "empty_share_log = \<lparr>sl_rows = [], sl_next_id = 1\<rparr>"

section \<open>The operations of the service\<close>

text \<open>\<open>now\<close> is \<open>Date.now()\<close>, in milliseconds.\<close>

definition record_share :: "int \<Rightarrow> string \<Rightarrow> jsnum \<Rightarrow> int \<Rightarrow> share_log \<Rightarrow> share_log" where
  "record_share now addr difficulty blockHeight sl =
     \<lparr>sl_rows = sl_rows sl @
        [\<lparr>s_id = sl_next_id sl, s_minerAddress = addr, s_difficulty = difficulty,
          s_timestamp = now, s_blockHeightAtSubmission = blockHeight\<rparr>],
      sl_next_id = sl_next_id sl + 1\<rparr>"

definition getSharesInWindow :: "jsnum \<Rightarrow> share_log \<Rightarrow> share list" where
  "getSharesInWindow windowStartMs sl =
     filter (\<lambda>s. js_ge (IntN (s_timestamp s)) windowStartMs) (sl_rows sl)"

text \<open>\<open>sql_sum\<close> is SQLite's \<open>SUM\<close> over a real column, whose order of addition is the database's.\<close>

definition getWindowStats :: "(jsnum list \<Rightarrow> jsnum) \<Rightarrow> jsnum \<Rightarrow> share_log \<Rightarrow> jsnum \<times> nat" where
  "getWindowStats sql_sum windowStartMs sl =
     (let sel = filter (\<lambda>s. js_ge (IntN (s_timestamp s)) windowStartMs) (sl_rows sl)
      in (if sel = [] then Num 0 else sql_sum (map s_difficulty sel),
          length (remdups (map s_minerAddress sel))))"

definition pruneOlderThan :: "jsnum \<Rightarrow> share_log \<Rightarrow> share_log" where
  "pruneOlderThan cutoffMs sl =
     sl\<lparr>sl_rows := filter (\<lambda>s. \<not> js_lt (IntN (s_timestamp s)) cutoffMs) (sl_rows sl)\<rparr>"

text \<open>The cutoff of the hourly sweep: one hour before the start of the window.\<close>

definition window_ms :: "config \<Rightarrow> jsnum" where
  "window_ms cfg = js_mul (js_mul (getWindowMinutes cfg) (Num 60)) (Num 1000)"

definition prune_cutoff :: "config \<Rightarrow> int \<Rightarrow> jsnum" where
  "prune_cutoff cfg now = js_sub (js_sub (IntN now) (window_ms cfg)) (Num 3600000)"

definition prune_sweep :: "config \<Rightarrow> int \<Rightarrow> share_log \<Rightarrow> share_log" where
  "prune_sweep cfg now sl = pruneOlderThan (prune_cutoff cfg now) sl"

section \<open>Logs with a time window\<close>

text \<open>
  What a reader of a window relies on: entries carry a time stamp, appending adds one entry at
  the end, sweeping with a cutoff drops the entries before it and nothing else, and a window
  read returns the entries at or after its start.
\<close>

datatype 'v log_op = Append 'v | Sweep jsnum

fun appended :: "'v log_op list \<Rightarrow> 'v list" where
  "appended [] = []"
| "appended (Append v # xs) = v # appended xs"
| "appended (Sweep c # xs) = appended xs"

fun log_run :: "('v \<Rightarrow> 's \<Rightarrow> 's) \<Rightarrow> (jsnum \<Rightarrow> 's \<Rightarrow> 's) \<Rightarrow> 'v log_op list \<Rightarrow> 's \<Rightarrow> 's" where
  "log_run put sweep [] s = s"
| "log_run put sweep (Append v # xs) s = log_run put sweep xs (put v s)"
| "log_run put sweep (Sweep c # xs) s = log_run put sweep xs (sweep c s)"

lemma js_not_before: "js_le c from \<Longrightarrow> js_le from t \<Longrightarrow> \<not> js_lt t c"
  using js_le_trans[of c "from" t] js_lt_le_trans[of t c t] by auto

locale time_log =
  fixes entries :: "'s \<Rightarrow> 'e list"
    and view :: "'e \<Rightarrow> 'v"
    and stamp :: "'v \<Rightarrow> int"
    and put :: "'v \<Rightarrow> 's \<Rightarrow> 's"
    and sweep :: "jsnum \<Rightarrow> 's \<Rightarrow> 's"
    and window :: "jsnum \<Rightarrow> 's \<Rightarrow> 'e list"
  assumes entries_put: "map view (entries (put v s)) = map view (entries s) @ [v]"
    and entries_sweep: "entries (sweep c s) = filter (\<lambda>e. \<not> js_lt (IntN (stamp (view e))) c) (entries s)"
    and window_entries: "window from s = filter (\<lambda>e. js_le from (IntN (stamp (view e)))) (entries s)"
begin

lemma sweep_keeps_window: "js_le c from \<Longrightarrow> window from (sweep c s) = window from s"
  by (auto simp: window_entries entries_sweep intro!: filter_cong dest: js_not_before)

lemma sweep_bounds: "e \<in> set (entries (sweep c s)) \<Longrightarrow> c \<noteq> NaN \<Longrightarrow> js_le c (IntN (stamp (view e)))"
  using js_not_lt_le[of "IntN (stamp (view e))" c] by (auto simp: entries_sweep)

lemma window_view:
  "map view (window from s) = filter (\<lambda>v. js_le from (IntN (stamp v))) (map view (entries s))"
  by (simp add: window_entries filter_map comp_def)

lemma window_put:
  "map view (window from (put v s)) =
     map view (window from s) @ (if js_le from (IntN (stamp v)) then [v] else [])"
  by (simp add: window_view entries_put)

lemma window_run:
  "(\<And>c. Sweep c \<in> set xs \<Longrightarrow> js_le c from) \<Longrightarrow>
     map view (window from (log_run put sweep xs s)) =
       map view (window from s) @ filter (\<lambda>v. js_le from (IntN (stamp v))) (appended xs)"
proof (induction xs arbitrary: s)
  case (Cons x xs)
  then show ?case
    by (cases x) (simp_all add: window_put sweep_keeps_window)
qed simp

end

section \<open>The share log is such a log\<close>

fun share_view :: "share \<Rightarrow> string \<times> jsnum \<times> int \<times> int" where
  "share_view s = (s_minerAddress s, s_difficulty s, s_timestamp s, s_blockHeightAtSubmission s)"

fun put_share :: "string \<times> jsnum \<times> int \<times> int \<Rightarrow> share_log \<Rightarrow> share_log" where
  "put_share (addr, d, now, h) sl = record_share now addr d h sl"

interpretation shares: time_log sl_rows share_view "\<lambda>(addr, d, t, h). t" put_share pruneOlderThan
  getSharesInWindow
  by unfold_locales
    (auto simp: record_share_def pruneOlderThan_def getSharesInWindow_def split: prod.splits)

subsection \<open>The sweep and the window agree\<close>

lemma window_ms_not_NaN: "window_ms cfg \<noteq> NaN"
proof -
  have "positive_integer (getWindowMinutes cfg)"
    by (simp add: getWindowMinutes_def positive_setting_positive)
  then show ?thesis
    by (elim positive_integerE)
       (auto simp: window_ms_def js_signed_inf_def split: if_splits elim!: js_mul.elims)
qed

lemma js_sub_NaN: "js_sub a b \<noteq> NaN" if "js_is_finite a" and "b \<noteq> NaN"
  using that by (cases a; cases b) (auto simp: js_sub_def)

definition window_start :: "config \<Rightarrow> int \<Rightarrow> jsnum" where
  "window_start cfg now = js_sub (IntN now) (window_ms cfg)"

lemma cutoff_before_window:
  assumes "t1 \<le> t2"
  shows "js_le (prune_cutoff cfg t1) (window_start cfg t2)"
proof -
  have "js_le (prune_cutoff cfg t1) (js_sub (IntN t1) (window_ms cfg))"
    unfolding prune_cutoff_def
    by (rule js_sub_decreases) (simp_all add: js_sub_NaN window_ms_not_NaN)
  then show ?thesis
    using js_sub_mono_left[of "of_int t1" "of_int t2" "window_ms cfg"] assms js_le_trans
    by (auto simp: window_start_def window_ms_not_NaN)
qed

lemma cutoff_before_widened:
  assumes "getWindowMinutes cfg = IntN w" and "getWindowMinutes cfg' = IntN w'"
    and "w' \<le> w + 60" and "w \<le> 10 ^ 10" and "0 \<le> t1" and "t1 \<le> t2" and "t2 \<le> 2 ^ 52"
  shows "js_le (prune_cutoff cfg t1) (window_start cfg' t2)"
proof -
  have pos: "0 < w" "0 < w'"
    using assms(1,2) positive_setting_positive[of 90 _ "''PPLNS_WINDOW_MINUTES''"]
    by (metis getWindowMinutes_def positive_integer_int zero_less_numeral)+
  have "window_ms c = IntN (v * 60000)" if "getWindowMinutes c = IntN v" "0 < v" "v \<le> 10 ^ 10 + 60" for c v
    using that js_mul_int[of v 60] js_mul_int[of "v * 60" 1000]
    by (simp add: window_ms_def safe_int_def)
  then have "window_ms cfg = IntN (w * 60000)" and "window_ms cfg' = IntN (w' * 60000)"
    using assms pos by simp_all
  moreover have "js_sub (IntN t) (IntN (v * 60000)) = IntN (t - v * 60000)"
    if "0 \<le> t" "t \<le> 2 ^ 52" "0 < v" "v \<le> 10 ^ 10 + 60" for t v
    using that by (intro js_sub_int) (simp add: safe_int_def abs_le_iff)
  ultimately have "prune_cutoff cfg t1 = js_sub (IntN (t1 - w * 60000)) (IntN 3600000)"
    and "window_start cfg' t2 = IntN (t2 - w' * 60000)"
    using assms pos by (simp_all add: prune_cutoff_def window_start_def)
  moreover have "js_sub (IntN (t1 - w * 60000)) (IntN 3600000) = IntN (t1 - w * 60000 - 3600000)"
    using assms pos by (intro js_sub_int) (simp add: safe_int_def abs_le_iff)
  ultimately show ?thesis
    using assms(3,6) by simp
qed

section \<open>What a later block reads\<close>

text \<open>
  The operations of the running server, as the log sees them: shares recorded with the clock of
  their arrival, and hourly sweeps.
\<close>

abbreviation share_run ::
  "(string \<times> jsnum \<times> int \<times> int) log_op list \<Rightarrow> share_log \<Rightarrow> share_log" where
  "share_run \<equiv> log_run put_share pruneOlderThan"

text \<open>
  C6. A block found at time \<open>t\<close> reads exactly the shares submitted within its window, in order of
  submission: whatever shares and hourly sweeps came before (every sweep at some time not after
  \<open>t\<close>), the rows read are those of the recorded shares whose time stamp lies in the window.
  The one-hour margin of the sweep never cuts into the window, for every configuration.
\<close>

theorem window_reads_all_shares:
  assumes "\<And>c. Sweep c \<in> set ops \<Longrightarrow> \<exists>t' \<le> t. c = prune_cutoff cfg t'"
  shows "map share_view (getSharesInWindow (window_start cfg t) (share_run ops empty_share_log)) =
         filter (\<lambda>(addr, d, ts, h). js_le (window_start cfg t) (IntN ts)) (appended ops)"
proof -
  have "js_le c (window_start cfg t)" if "Sweep c \<in> set ops" for c
    using assms[OF that] cutoff_before_window by blast
  from shares.window_run[of ops _ empty_share_log, OF this] show ?thesis
    by (simp add: empty_share_log_def getSharesInWindow_def) (auto intro!: filter_cong)
qed

theorem window_reads_all_shares_witness:
  "map share_view (getSharesInWindow (window_start Map.empty 20000000)
     (share_run [Append (''a'', Num 1, 16000000, 7), Sweep (prune_cutoff Map.empty 20000000),
                 Append (''b'', Num 2, 19000000, 7)] empty_share_log)) =
   [(''a'', Num 1, 16000000, 7), (''b'', Num 2, 19000000, 7)]"
proof -
  let ?ops = "[Append (''a'', Num 1, 16000000::int, 7::int), Sweep (prune_cutoff Map.empty 20000000),
                 Append (''b'', Num 2, 19000000, 7)]"
  have "map share_view (getSharesInWindow (window_start Map.empty 20000000) (share_run ?ops empty_share_log)) =
         filter (\<lambda>(addr, d, ts, h). js_le (window_start Map.empty 20000000) (IntN ts)) (appended ?ops)"
    by (rule window_reads_all_shares) auto
  also have "\<dots> = [(''a'', Num 1, 16000000, 7), (''b'', Num 2, 19000000, 7)]"
    by code_simp
  finally show ?thesis .
qed

text \<open>
  The margin covers a window that is widened while the server runs: when the setting grows by
  at most an hour between a sweep and a block, the block still reads every share of its new
  window. (Windows up to 10^10 minutes, times up to 2^52 milliseconds.)
\<close>

theorem widened_window_complete:
  assumes "getWindowMinutes cfg = IntN w" and "getWindowMinutes cfg' = IntN w'"
    and "w' \<le> w + 60" and "w \<le> 10 ^ 10" and "0 \<le> t1" and "t1 \<le> t2" and "t2 \<le> 2 ^ 52"
  shows "getSharesInWindow (window_start cfg' t2) (prune_sweep cfg t1 sl) =
         getSharesInWindow (window_start cfg' t2) sl"
  unfolding prune_sweep_def
  by (rule shares.sweep_keeps_window) (rule cutoff_before_widened[OF assms])

theorem widened_window_complete_witness:
  "getSharesInWindow (window_start (Map.empty(''PPLNS_WINDOW_MINUTES'' \<mapsto> ''150'')) 30000000)
     (prune_sweep Map.empty 30000000 (record_share 21000000 ''a'' (Num 1) 7 empty_share_log)) =
   getSharesInWindow (window_start (Map.empty(''PPLNS_WINDOW_MINUTES'' \<mapsto> ''150'')) 30000000)
     (record_share 21000000 ''a'' (Num 1) 7 empty_share_log)"
proof (rule widened_window_complete[where w = 90 and w' = 150])
  show "getWindowMinutes Map.empty = IntN 90"
    by code_simp
  show "getWindowMinutes (Map.empty(''PPLNS_WINDOW_MINUTES'' \<mapsto> ''150'')) = IntN 150"
    by code_simp
qed simp_all

end
