(* ===== verification/PayoutLedger.thy ===== *)
theory PayoutLedger
  imports JsNumber
begin

text \<open>
  The payout ledger (\<open>src/ORM/payout-ledger\<close>): one row per reward credit, whose status only
  moves forward, \<open>PENDING\<close> to \<open>SENT\<close> to \<open>CONFIRMED\<close>. The table is the list of its rows in
  insertion order with the next auto-increment id; every method of \<open>PayoutLedgerService\<close> is an
  operation on it, its SQL read as filters, updates and group sums. Amounts are integers (a
  \<open>bigint\<close> column); a sum leaves the database as a Number (\<open>js_of_int\<close>).

  The lemmas give the table's invariant, the effect of every operation on what a miner is owed
  and has been paid, and the forward-only life of a row. The locale \<open>balance_book\<close> is the
  contract the payout scheduler and the reward calculator rely on; the ledger interprets it.
\<close>

section \<open>Rows and table\<close>

datatype ePayoutStatus = PENDING | SENT | CONFIRMED

fun status_rank :: "ePayoutStatus \<Rightarrow> nat" where
  "status_rank PENDING = 0"
| "status_rank SENT = 1"
| "status_rank CONFIRMED = 2"

instantiation ePayoutStatus :: linorder
begin

definition less_eq_ePayoutStatus :: "ePayoutStatus \<Rightarrow> ePayoutStatus \<Rightarrow> bool" where
  "less_eq_ePayoutStatus a b \<longleftrightarrow> status_rank a \<le> status_rank b"

definition less_ePayoutStatus :: "ePayoutStatus \<Rightarrow> ePayoutStatus \<Rightarrow> bool" where
  "less_ePayoutStatus a b \<longleftrightarrow> status_rank a < status_rank b"

instance
proof
  fix a b :: ePayoutStatus
  show "a \<le> b \<Longrightarrow> b \<le> a \<Longrightarrow> a = b"
    by (cases a; cases b) (auto simp: less_eq_ePayoutStatus_def)
qed (auto simp: less_eq_ePayoutStatus_def less_ePayoutStatus_def)

end

lemmas status_order = less_eq_ePayoutStatus_def less_ePayoutStatus_def

record ledger_row =
  l_id :: int
  l_minerAddress :: string
  l_blockHeight :: int
  l_amountSats :: int
  l_status :: ePayoutStatus
  l_txid :: "string option"
  l_updatedAt :: int

record ledger =
  l_rows :: "ledger_row list"
  l_next_id :: int

record payout_candidate =
  c_minerAddress :: string
  c_totalPendingSats :: jsnum
  c_maxRowId :: int

definition empty_ledger :: ledger where
  "empty_ledger = \<lparr>l_rows = [], l_next_id = 1\<rparr>"

section \<open>The operations of PayoutLedgerService\<close>

text \<open>
  \<open>credit\<close>: nothing for an amount \<open><= 0\<close>, else a new \<open>PENDING\<close> row. The amount is a Number:
  \<open>NaN\<close> passes the guard, is bound as \<open>NULL\<close> and rejected by the \<open>NOT NULL\<close> column, so that
  the call throws; the integer column takes the finite integers.
\<close>

definition insert_credit :: "int \<Rightarrow> string \<Rightarrow> int \<Rightarrow> int \<Rightarrow> ledger \<Rightarrow> ledger" where
  "insert_credit now addr sats h l =
     l\<lparr>l_rows := l_rows l @ [\<lparr>l_id = l_next_id l, l_minerAddress = addr, l_blockHeight = h,
                              l_amountSats = sats, l_status = PENDING, l_txid = None,
                              l_updatedAt = now\<rparr>],
       l_next_id := l_next_id l + 1\<rparr>"

definition credit :: "int \<Rightarrow> string \<Rightarrow> jsnum \<Rightarrow> int \<Rightarrow> ledger \<Rightarrow> ledger fallible" where
  "credit now addr amountSats h l =
     (if js_le amountSats (Num 0) then Inr l
      else case amountSats of
             Num a \<Rightarrow> if a = of_int \<lfloor>a\<rfloor> then Inr (insert_credit now addr \<lfloor>a\<rfloor> h l)
                     else Inl (mk_error ''datatype mismatch'')
           | _ \<Rightarrow> Inl (mk_error ''NOT NULL constraint failed''))"

definition is_pending :: "ledger_row \<Rightarrow> bool" where
  "is_pending r \<longleftrightarrow> l_status r = PENDING"

definition is_paid :: "ledger_row \<Rightarrow> bool" where
  "is_paid r \<longleftrightarrow> l_status r = SENT \<or> l_status r = CONFIRMED"

definition sum_sats :: "(ledger_row \<Rightarrow> bool) \<Rightarrow> ledger_row list \<Rightarrow> int" where
  "sum_sats p rs = sum_list (map l_amountSats (filter p rs))"

definition getPendingTotal :: "string \<Rightarrow> ledger \<Rightarrow> jsnum" where
  "getPendingTotal addr l =
     js_of_int (sum_sats (\<lambda>r. l_minerAddress r = addr \<and> is_pending r) (l_rows l))"

definition getTotalPendingAcrossAllMiners :: "ledger \<Rightarrow> jsnum" where
  "getTotalPendingAcrossAllMiners l = js_of_int (sum_sats is_pending (l_rows l))"

text \<open>\<open>GROUP BY minerAddress\<close> with the sum and the highest id of each group.\<close>

definition candidate_of :: "ledger_row list \<Rightarrow> string \<Rightarrow> payout_candidate" where
  "candidate_of rs addr =
     \<lparr>c_minerAddress = addr,
      c_totalPendingSats = js_of_int (sum_sats (\<lambda>r. l_minerAddress r = addr) rs),
      c_maxRowId = Max (set (map l_id (filter (\<lambda>r. l_minerAddress r = addr) rs)))\<rparr>"

definition group_by_miner :: "ledger_row list \<Rightarrow> payout_candidate list" where
  "group_by_miner rs = map (candidate_of rs) (remdups (map l_minerAddress rs))"

definition getAllPendingTotals :: "ledger \<Rightarrow> payout_candidate list" where
  "getAllPendingTotals l = group_by_miner (filter is_pending (l_rows l))"

definition is_mature :: "jsnum \<Rightarrow> ledger_row \<Rightarrow> bool" where
  "is_mature matureUpToHeight r \<longleftrightarrow> js_le (IntN (l_blockHeight r)) matureUpToHeight"

definition getMaturePendingTotals :: "jsnum \<Rightarrow> ledger \<Rightarrow> payout_candidate list" where
  "getMaturePendingTotals matureUpToHeight l =
     group_by_miner (filter (\<lambda>r. is_pending r \<and> is_mature matureUpToHeight r) (l_rows l))"

definition claimed_by :: "string \<Rightarrow> int \<Rightarrow> ledger_row \<Rightarrow> bool" where
  "claimed_by addr maxRowId r \<longleftrightarrow> l_minerAddress r = addr \<and> l_id r \<le> maxRowId \<and> is_pending r"

text \<open>
  The transaction id is the value the wallet call returned: \<open>None\<close> stands for the \<open>undefined\<close> of an
  answer without a result, which the update leaves out of its \<open>SET\<close> list.
\<close>

definition markSentUpTo :: "int \<Rightarrow> string \<Rightarrow> int \<Rightarrow> string option \<Rightarrow> ledger \<Rightarrow> ledger" where
  "markSentUpTo now addr maxRowId tx l =
     l\<lparr>l_rows := update_where (claimed_by addr maxRowId)
                   (\<lambda>r. r\<lparr>l_status := SENT, l_txid := (case tx of None \<Rightarrow> l_txid r | Some t \<Rightarrow> Some t), l_updatedAt := now\<rparr>) (l_rows l)\<rparr>"

definition getDistinctSentTxids :: "ledger \<Rightarrow> string list" where
  "getDistinctSentTxids l =
     map the (filter (\<lambda>t. t \<noteq> None) (remdups (map l_txid (filter (\<lambda>r. l_status r = SENT) (l_rows l)))))"

definition markConfirmed :: "int \<Rightarrow> string \<Rightarrow> ledger \<Rightarrow> ledger" where
  "markConfirmed now tx l =
     l\<lparr>l_rows := update_where (\<lambda>r. l_txid r = Some tx \<and> l_status r = SENT)
                   (\<lambda>r. r\<lparr>l_status := CONFIRMED, l_updatedAt := now\<rparr>) (l_rows l)\<rparr>"

definition getPayoutHistory :: "string \<Rightarrow> nat \<Rightarrow> ledger \<Rightarrow> ledger_row list" where
  "getPayoutHistory addr limit l =
     take limit (sort_key (\<lambda>r. - l_updatedAt r)
       (filter (\<lambda>r. l_minerAddress r = addr \<and> is_paid r) (l_rows l)))"

definition getTotalPaid :: "string \<Rightarrow> ledger \<Rightarrow> jsnum" where
  "getTotalPaid addr l = js_of_int (sum_sats (\<lambda>r. l_minerAddress r = addr \<and> is_paid r) (l_rows l))"

definition getLastPayoutAt :: "string \<Rightarrow> ledger \<Rightarrow> int option" where
  "getLastPayoutAt addr l =
     (case sort_key (\<lambda>r. - l_updatedAt r)
             (filter (\<lambda>r. l_minerAddress r = addr \<and> is_paid r) (l_rows l)) of
        [] \<Rightarrow> None | r # _ \<Rightarrow> Some (l_updatedAt r))"

section \<open>The invariant of the table\<close>

text \<open>
  A pending row has no transaction id and a confirmed one has one; a sent row has the id the wallet answered
  with, which an answer without a result leaves out.
\<close>

definition row_ok :: "int \<Rightarrow> ledger_row \<Rightarrow> bool" where
  "row_ok nxt r \<longleftrightarrow> 1 \<le> l_id r \<and> l_id r < nxt \<and> 0 < l_amountSats r \<and>
     (is_pending r \<longrightarrow> l_txid r = None) \<and> (l_status r = CONFIRMED \<longrightarrow> l_txid r \<noteq> None)"

definition ledger_ok :: "ledger \<Rightarrow> bool" where
  "ledger_ok l \<longleftrightarrow>
     1 \<le> l_next_id l \<and> sorted_wrt (<) (map l_id (l_rows l)) \<and> (\<forall>r \<in> set (l_rows l). row_ok (l_next_id l) r)"

text \<open>Rows enter in the order of their blocks: heights do not fall as ids grow.\<close>

definition heights_ordered :: "ledger \<Rightarrow> bool" where
  "heights_ordered l \<longleftrightarrow>
     (\<forall>r \<in> set (l_rows l). \<forall>r' \<in> set (l_rows l). l_id r \<le> l_id r' \<longrightarrow> l_blockHeight r \<le> l_blockHeight r')"

lemma ledger_ok_empty [simp]: "ledger_ok empty_ledger"
  by (simp add: ledger_ok_def empty_ledger_def)

lemma row_ok_mono: "row_ok n r \<Longrightarrow> n \<le> m \<Longrightarrow> row_ok m r"
  by (auto simp: row_ok_def)

lemma ledger_ok_insert:
  assumes "ledger_ok l" and "0 < sats"
  shows "ledger_ok (insert_credit now addr sats h l)"
  using assms row_ok_mono[of "l_next_id l" _ "l_next_id l + 1"]
  by (auto simp: ledger_ok_def insert_credit_def sorted_wrt_append row_ok_def is_pending_def)

lemma ledger_ok_update:
  assumes "ledger_ok l" and "\<And>r. p r \<Longrightarrow> l_id (f r) = l_id r"
    and "\<And>r. p r \<Longrightarrow> row_ok (l_next_id l) r \<Longrightarrow> row_ok (l_next_id l) (f r)"
  shows "ledger_ok (l\<lparr>l_rows := update_where p f (l_rows l)\<rparr>)"
  using assms map_update_where_same[of p l_id f "l_rows l"]
  by (auto simp: ledger_ok_def set_update_where)

lemma ledger_ok_markSent: "ledger_ok l \<Longrightarrow> ledger_ok (markSentUpTo now addr m tx l)"
  unfolding markSentUpTo_def
  by (rule ledger_ok_update) (auto simp: row_ok_def is_pending_def)

lemma ledger_ok_markConfirmed: "ledger_ok l \<Longrightarrow> ledger_ok (markConfirmed now tx l)"
  unfolding markConfirmed_def
  by (rule ledger_ok_update) (auto simp: row_ok_def is_pending_def)

lemma credit_cases:
  assumes "credit now addr amt h l = Inr l'"
  shows "l' = l \<and> js_le amt (Num 0) \<or>
         (\<exists>n. amt = IntN n \<and> 0 < n \<and> l' = insert_credit now addr n h l)"
  using assms by (auto simp: credit_def split: if_splits jsnum.splits)
    (metis not_le of_int_0_less_iff)

lemma credit_int: "0 < n \<Longrightarrow> credit now addr (IntN n) h l = Inr (insert_credit now addr n h l)"
  by (simp add: credit_def)

lemma ledger_ok_credit: "ledger_ok l \<Longrightarrow> credit now addr amt h l = Inr l' \<Longrightarrow> ledger_ok l'"
  by (drule credit_cases) (auto intro: ledger_ok_insert)

lemmas ledger_ok_intros = ledger_ok_empty ledger_ok_insert ledger_ok_markSent ledger_ok_markConfirmed

section \<open>What a miner is owed and has been paid\<close>

definition owed :: "ledger \<Rightarrow> string \<Rightarrow> int" where
  "owed l addr = sum_sats (\<lambda>r. l_minerAddress r = addr \<and> is_pending r) (l_rows l)"

definition paid :: "ledger \<Rightarrow> string \<Rightarrow> int" where
  "paid l addr = sum_sats (\<lambda>r. l_minerAddress r = addr \<and> is_paid r) (l_rows l)"

definition claimed :: "string \<Rightarrow> int \<Rightarrow> ledger \<Rightarrow> int" where
  "claimed addr m l = sum_sats (claimed_by addr m) (l_rows l)"

definition total_owed :: "ledger \<Rightarrow> int" where
  "total_owed l = sum_sats is_pending (l_rows l)"

lemma sum_sats_Nil [simp]: "sum_sats p [] = 0"
  by (simp add: sum_sats_def)

lemma sum_sats_Cons [simp]: "sum_sats p (r # rs) = (if p r then l_amountSats r else 0) + sum_sats p rs"
  by (simp add: sum_sats_def)

lemma sum_sats_False [simp]: "sum_sats (\<lambda>r. False) rs = 0"
  by (simp add: sum_sats_def)

lemma sum_sats_append [simp]: "sum_sats p (xs @ ys) = sum_sats p xs + sum_sats p ys"
  by (simp add: sum_sats_def)

lemma sum_sats_filter: "sum_sats p (filter q rs) = sum_sats (\<lambda>r. p r \<and> q r) rs"
  by (simp add: sum_sats_def filter_filter conj_commute)

lemma sum_sats_cong: "(\<And>r. r \<in> set rs \<Longrightarrow> p r = q r) \<Longrightarrow> sum_sats p rs = sum_sats q rs"
  by (induction rs) auto

lemma sum_sats_nonneg: "(\<And>r. r \<in> set rs \<Longrightarrow> 0 \<le> l_amountSats r) \<Longrightarrow> 0 \<le> sum_sats p rs"
  unfolding sum_sats_def by (rule sum_list_map_nonneg) auto

lemma sum_sats_mono:
  "(\<And>r. r \<in> set rs \<Longrightarrow> 0 \<le> l_amountSats r) \<Longrightarrow> (\<And>r. r \<in> set rs \<Longrightarrow> p r \<Longrightarrow> q r) \<Longrightarrow>
     sum_sats p rs \<le> sum_sats q rs"
  by (induction rs) (auto intro: add_increasing)

lemma ledger_ok_amounts: "ledger_ok l \<Longrightarrow> r \<in> set (l_rows l) \<Longrightarrow> 0 \<le> l_amountSats r"
  by (auto simp: ledger_ok_def row_ok_def)

lemma owed_empty [simp]: "owed empty_ledger a = 0" and paid_empty [simp]: "paid empty_ledger a = 0"
  by (simp_all add: owed_def paid_def empty_ledger_def)

lemma owed_nonneg: "ledger_ok l \<Longrightarrow> 0 \<le> owed l a"
  unfolding owed_def by (rule sum_sats_nonneg) (rule ledger_ok_amounts)

lemma owed_insert [step_simps]:
  "owed (insert_credit now addr sats h l) a = owed l a + (if a = addr then sats else 0)"
  by (auto simp: owed_def insert_credit_def is_pending_def)

lemma paid_insert [step_simps]: "paid (insert_credit now addr sats h l) a = paid l a"
  by (auto simp: paid_def insert_credit_def is_paid_def)

lemma total_owed_insert [step_simps]:
  "total_owed (insert_credit now addr sats h l) = total_owed l + sats"
  by (auto simp: total_owed_def insert_credit_def is_pending_def)

text \<open>An update that keeps the amounts moves to the new class exactly what it takes from the old.\<close>

lemma sum_sats_update_where:
  assumes "\<And>r. u r \<Longrightarrow> l_amountSats (f r) = l_amountSats r"
  shows "sum_sats p (update_where u f rs) =
         sum_sats (\<lambda>r. p r \<and> \<not> u r) rs + sum_sats (\<lambda>r. u r \<and> p (f r)) rs"
  using assms by (induction rs) auto

lemma sum_sats_split: "sum_sats p rs = sum_sats (\<lambda>r. p r \<and> \<not> u r) rs + sum_sats (\<lambda>r. p r \<and> u r) rs"
  by (induction rs) auto

lemma owed_markSent [step_simps]:
  "owed (markSentUpTo now addr m tx l) a = owed l a - (if a = addr then claimed addr m l else 0)"
proof -
  let ?u = "claimed_by addr m" and ?p = "\<lambda>r. l_minerAddress r = a \<and> is_pending r"
  have "owed (markSentUpTo now addr m tx l) a = sum_sats (\<lambda>r. ?p r \<and> \<not> ?u r) (l_rows l)"
    by (simp add: owed_def markSentUpTo_def sum_sats_update_where is_pending_def)
  moreover have "sum_sats (\<lambda>r. ?p r \<and> ?u r) (l_rows l) = (if a = addr then claimed addr m l else 0)"
    by (auto simp: claimed_def claimed_by_def sum_sats_def intro!: arg_cong[where f = sum_list] filter_cong
        arg_cong[where f = "map _"])
  ultimately show ?thesis
    using sum_sats_split[of ?p "l_rows l" ?u] by (simp add: owed_def)
qed

lemma paid_markSent [step_simps]:
  "paid (markSentUpTo now addr m tx l) a = paid l a + (if a = addr then claimed addr m l else 0)"
proof -
  let ?u = "claimed_by addr m" and ?p = "\<lambda>r. l_minerAddress r = a \<and> is_paid r"
  have "sum_sats (\<lambda>r. ?p r \<and> \<not> ?u r) (l_rows l) = paid l a"
    unfolding paid_def by (rule sum_sats_cong) (auto simp: claimed_by_def is_paid_def is_pending_def)
  moreover have "sum_sats (\<lambda>r. ?u r \<and> l_minerAddress r = a) (l_rows l) = (if a = addr then claimed addr m l else 0)"
    by (auto simp: claimed_def claimed_by_def sum_sats_def intro!: arg_cong[where f = sum_list] filter_cong
        arg_cong[where f = "map _"])
  ultimately show ?thesis
    by (simp add: paid_def markSentUpTo_def sum_sats_update_where is_paid_def)
qed

lemma owed_markConfirmed [step_simps]: "owed (markConfirmed now tx l) a = owed l a"
  unfolding owed_def markConfirmed_def
  by (simp add: sum_sats_update_where is_pending_def) (rule sum_sats_cong, auto)

lemma paid_markConfirmed [step_simps]: "paid (markConfirmed now tx l) a = paid l a"
proof -
  let ?u = "\<lambda>r. l_txid r = Some tx \<and> l_status r = SENT"
  have "sum_sats (\<lambda>r. ?u r \<and> l_minerAddress r = a) (l_rows l) =
        sum_sats (\<lambda>r. (l_minerAddress r = a \<and> is_paid r) \<and> ?u r) (l_rows l)"
    by (rule sum_sats_cong) (auto simp: is_paid_def)
  then show ?thesis
    using sum_sats_split[of "\<lambda>r. l_minerAddress r = a \<and> is_paid r" "l_rows l" ?u]
    by (simp add: paid_def markConfirmed_def sum_sats_update_where is_paid_def)
qed

lemma claimed_nonneg: "ledger_ok l \<Longrightarrow> 0 \<le> claimed a m l"
  unfolding claimed_def by (rule sum_sats_nonneg) (rule ledger_ok_amounts)

lemma claimed_le_owed: "ledger_ok l \<Longrightarrow> claimed a m l \<le> owed l a"
  unfolding claimed_def owed_def
  by (rule sum_sats_mono) (auto simp: claimed_by_def dest: ledger_ok_amounts)

lemma total_owed_groups: "total_owed l = (\<Sum>a\<leftarrow>remdups (map l_minerAddress (l_rows l)). owed l a)"
proof -
  let ?rs = "filter is_pending (l_rows l)" and ?ks = "remdups (map l_minerAddress (l_rows l))"
  have "(\<Sum>a\<leftarrow>?ks. owed l a) =
      (\<Sum>a\<leftarrow>?ks. sum_list (map l_amountSats (filter (\<lambda>r. l_minerAddress r = a) ?rs)))"
    by (simp add: owed_def sum_sats_def filter_filter conj_commute)
  also have "\<dots> = sum_list (map l_amountSats (filter (\<lambda>r. l_minerAddress r \<in> set ?ks) ?rs))"
    by (rule sum_list_groups) simp
  also have "filter (\<lambda>r. l_minerAddress r \<in> set ?ks) ?rs = ?rs"
    by (auto simp: filter_id_conv filter_filter intro!: filter_cong)
  finally show ?thesis
    by (simp add: total_owed_def sum_sats_def)
qed

section \<open>The candidates of a payout\<close>

definition mature_owed :: "jsnum \<Rightarrow> ledger \<Rightarrow> string \<Rightarrow> int" where
  "mature_owed m l addr = sum_sats (\<lambda>r. l_minerAddress r = addr \<and> is_pending r \<and> is_mature m r) (l_rows l)"

lemma distinct_candidates: "distinct (map c_minerAddress (getMaturePendingTotals m l))"
  by (simp add: getMaturePendingTotals_def group_by_miner_def candidate_of_def comp_def)

lemma candidate_total:
  "c \<in> set (getMaturePendingTotals m l) \<Longrightarrow>
     c_totalPendingSats c = js_of_int (mature_owed m l (c_minerAddress c))"
  by (auto simp: getMaturePendingTotals_def group_by_miner_def candidate_of_def mature_owed_def
      sum_sats_filter conj_ac)

lemma candidate_claims:
  assumes "c \<in> set (getMaturePendingTotals m l)"
    and "r \<in> set (l_rows l)" "l_minerAddress r = c_minerAddress c" "is_pending r" "is_mature m r"
  shows "claimed_by (c_minerAddress c) (c_maxRowId c) r"
  using assms
  by (auto simp: getMaturePendingTotals_def group_by_miner_def candidate_of_def claimed_by_def intro!: Max_ge)

lemma candidate_max_row:
  assumes "c \<in> set (getMaturePendingTotals m l)"
  obtains r where "r \<in> set (l_rows l)" "l_minerAddress r = c_minerAddress c" "is_pending r"
    "is_mature m r" "c_maxRowId c = l_id r"
proof -
  let ?rs = "filter (\<lambda>r. is_pending r \<and> is_mature m r) (l_rows l)"
  let ?S = "set (map l_id (filter (\<lambda>r. l_minerAddress r = c_minerAddress c) ?rs))"
  have "c_maxRowId c = Max ?S" and "?S \<noteq> {}"
    using assms by (auto simp: getMaturePendingTotals_def group_by_miner_def candidate_of_def)
  then have "c_maxRowId c \<in> ?S"
    using Max_in[of ?S] by simp
  then show thesis
    using that by auto
qed

text \<open>
  The cutoff is by row id, the sum by block height. Where heights are ordered like ids the two
  agree: the rows a candidate's cutoff claims are exactly the ones it was paid for.
\<close>

lemma claimed_mature:
  assumes "heights_ordered l" and c: "c \<in> set (getMaturePendingTotals m l)"
  shows "claimed (c_minerAddress c) (c_maxRowId c) l = mature_owed m l (c_minerAddress c)"
proof -
  obtain r0 where r0: "r0 \<in> set (l_rows l)" "is_mature m r0" "c_maxRowId c = l_id r0"
    using c by (rule candidate_max_row)
  have mat: "is_mature m r" if "r \<in> set (l_rows l)" "l_id r \<le> c_maxRowId c" for r
  proof -
    have "l_blockHeight r \<le> l_blockHeight r0"
      using assms(1) r0 that by (auto simp: heights_ordered_def)
    then have "js_le (IntN (l_blockHeight r)) (IntN (l_blockHeight r0))"
      by simp
    then show ?thesis
      using r0(2) unfolding is_mature_def by (rule js_le_trans)
  qed
  show ?thesis
    unfolding claimed_def mature_owed_def
    using candidate_claims[OF c] mat by (intro sum_sats_cong) (auto simp: claimed_by_def)
qed

lemma mature_le_owed: "ledger_ok l \<Longrightarrow> mature_owed m l a \<le> owed l a"
  unfolding mature_owed_def owed_def by (rule sum_sats_mono) (auto dest: ledger_ok_amounts)

lemma mature_owed_nonneg: "ledger_ok l \<Longrightarrow> 0 \<le> mature_owed m l a"
  unfolding mature_owed_def by (rule sum_sats_nonneg) (rule ledger_ok_amounts)

lemma owed_le_total: "ledger_ok l \<Longrightarrow> owed l a \<le> total_owed l"
  unfolding owed_def total_owed_def by (rule sum_sats_mono) (auto dest: ledger_ok_amounts)

section \<open>The life of a row\<close>

text \<open>
  \<open>row_le r r'\<close>: \<open>r'\<close> is a later state of \<open>r\<close>; only the status and what goes with it changed, and nothing at
  all once the row is sent without a transaction id.
\<close>

definition row_le :: "ledger_row \<Rightarrow> ledger_row \<Rightarrow> bool" where
  "row_le r r' \<longleftrightarrow>
     l_id r' = l_id r \<and> l_minerAddress r' = l_minerAddress r \<and> l_blockHeight r' = l_blockHeight r \<and>
     l_amountSats r' = l_amountSats r \<and> l_status r \<le> l_status r' \<and>
     (l_txid r \<noteq> None \<longrightarrow> l_txid r' = l_txid r) \<and>
     (l_status r = SENT \<and> l_txid r = None \<longrightarrow> r' = r)"

text \<open>The operations that write the table, in any order, as a step relation.\<close>

inductive ledger_step :: "ledger \<Rightarrow> ledger \<Rightarrow> bool" where
  step_credit: "credit now addr amt h l = Inr l' \<Longrightarrow> ledger_step l l'"
| step_sent: "ledger_step l (markSentUpTo now addr m tx l)"
| step_confirmed: "ledger_step l (markConfirmed now tx l)"

inductive_cases ledger_stepE: "ledger_step l l'"

inductive ledger_reach :: "ledger \<Rightarrow> bool" where
  reach_empty: "ledger_reach empty_ledger"
| reach_step: "ledger_reach l \<Longrightarrow> ledger_step l l' \<Longrightarrow> ledger_reach l'"

lemma ledger_step_ok: "ledger_step l l' \<Longrightarrow> ledger_ok l \<Longrightarrow> ledger_ok l'"
  by (erule ledger_stepE) (auto intro: ledger_ok_credit ledger_ok_intros)

lemma ledger_reach_ok: "ledger_reach l \<Longrightarrow> ledger_ok l"
  by (induction rule: ledger_reach.induct) (auto intro: ledger_step_ok)

lemma row_le_refl [simp]: "row_le r r"
  by (simp add: row_le_def)

lemma row_le_trans: "row_le a b \<Longrightarrow> row_le b c \<Longrightarrow> row_le a c"
  by (auto simp: row_le_def)

definition extends :: "ledger \<Rightarrow> ledger \<Rightarrow> bool" where
  "extends l l' \<longleftrightarrow> (\<exists>old new. l_rows l' = old @ new \<and> list_all2 row_le (l_rows l) old)"

lemma extends_update:
  "(\<And>r. r \<in> set (l_rows l) \<Longrightarrow> p r \<Longrightarrow> row_le r (f r)) \<Longrightarrow>
     extends l (l\<lparr>l_rows := update_where p f (l_rows l)\<rparr>)"
  unfolding extends_def
  by (rule exI[of _ "update_where p f (l_rows l)"], rule exI[of _ "[]"])
     (auto simp: update_where_def list_all2_map2 list_all2_same)

lemma extends_refl [simp]: "extends l l"
  using extends_update[of l "\<lambda>_. False" id] by (simp add: update_where_def)

lemma extends_insert: "extends l (insert_credit now addr n h l)"
  unfolding extends_def
  by (rule exI[of _ "l_rows l"]) (auto simp: insert_credit_def list_all2_same)

lemma extends_trans:
  assumes "extends a b" and "extends b c"
  shows "extends a c"
proof -
  obtain old new where ab: "l_rows b = old @ new" "list_all2 row_le (l_rows a) old"
    using assms(1) by (auto simp: extends_def)
  obtain old' new' where bc: "l_rows c = old' @ new'" "list_all2 row_le (old @ new) old'"
    using assms(2) ab(1) by (auto simp: extends_def)
  obtain u v where uv: "old' = u @ v" "list_all2 row_le old u"
    using bc(2) by (auto simp: list_all2_append1)
  have "list_all2 row_le (l_rows a) u"
    using ab(2) uv(2) by (rule list_all2_trans[rotated]) (rule row_le_trans)
  then show ?thesis
    unfolding extends_def using bc(1) uv(1) by auto
qed

lemma ledger_step_extends:
  assumes "ledger_step l l'" and "ledger_ok l"
  shows "extends l l'"
  using assms(1)
proof (cases rule: ledger_step.cases)
  case (step_credit now addr amt h)
  then show ?thesis
    by (auto dest!: credit_cases intro: extends_insert)
next
  case (step_sent now addr m tx)
  show ?thesis
    unfolding step_sent markSentUpTo_def
    using assms(2)
    by (intro extends_update)
       (auto simp: row_le_def claimed_by_def is_pending_def status_order ledger_ok_def row_ok_def)
next
  case (step_confirmed now tx)
  show ?thesis
    unfolding step_confirmed markConfirmed_def
    by (intro extends_update) (auto simp: row_le_def status_order)
qed

section \<open>The contract of a book of balances\<close>

text \<open>
  What the reward calculator and the payout scheduler need of the ledger: a credit raises what
  one account is owed; a payment moves value from owed to paid within the accounts, never
  backwards; a confirmation moves nothing. From this alone, value is conserved over any
  sequence of operations.
\<close>

datatype ('p, 'k, 'c) book_op = Put 'p int | Pay 'k | Confirm 'c

fun book_apply ::
  "('p \<Rightarrow> int \<Rightarrow> 's \<Rightarrow> 's) \<Rightarrow> ('k \<Rightarrow> 's \<Rightarrow> 's) \<Rightarrow> ('c \<Rightarrow> 's \<Rightarrow> 's) \<Rightarrow> ('p, 'k, 'c) book_op \<Rightarrow> 's \<Rightarrow> 's" where
  "book_apply put pay confirm (Put p n) s = put p n s"
| "book_apply put pay confirm (Pay k) s = pay k s"
| "book_apply put pay confirm (Confirm c) s = confirm c s"

fun book_run ::
  "('p \<Rightarrow> int \<Rightarrow> 's \<Rightarrow> 's) \<Rightarrow> ('k \<Rightarrow> 's \<Rightarrow> 's) \<Rightarrow> ('c \<Rightarrow> 's \<Rightarrow> 's) \<Rightarrow> ('p, 'k, 'c) book_op list \<Rightarrow> 's \<Rightarrow> 's" where
  "book_run put pay confirm [] s = s"
| "book_run put pay confirm (x # xs) s = book_run put pay confirm xs (book_apply put pay confirm x s)"

fun credited :: "('p \<Rightarrow> 'a) \<Rightarrow> 'a \<Rightarrow> ('p, 'k, 'c) book_op list \<Rightarrow> int" where
  "credited acct a [] = 0"
| "credited acct a (Put p n # xs) = (if acct p = a then n else 0) + credited acct a xs"
| "credited acct a (_ # xs) = credited acct a xs"

fun puts_positive :: "('p, 'k, 'c) book_op list \<Rightarrow> bool" where
  "puts_positive [] = True"
| "puts_positive (Put p n # xs) = (0 < n \<and> puts_positive xs)"
| "puts_positive (_ # xs) = puts_positive xs"

locale balance_book =
  fixes ok :: "'s \<Rightarrow> bool"
    and owing :: "'s \<Rightarrow> 'a \<Rightarrow> int"
    and settled :: "'s \<Rightarrow> 'a \<Rightarrow> int"
    and acct :: "'p \<Rightarrow> 'a"
    and put :: "'p \<Rightarrow> int \<Rightarrow> 's \<Rightarrow> 's"
    and pay :: "'k \<Rightarrow> 's \<Rightarrow> 's"
    and confirm :: "'c \<Rightarrow> 's \<Rightarrow> 's"
  assumes ok_put: "ok s \<Longrightarrow> 0 < n \<Longrightarrow> ok (put p n s)"
    and ok_pay: "ok s \<Longrightarrow> ok (pay k s)"
    and ok_confirm: "ok s \<Longrightarrow> ok (confirm c s)"
    and owing_put: "owing (put p n s) a = owing s a + (if acct p = a then n else 0)"
    and settled_put: "settled (put p n s) a = settled s a"
    and pay_moves: "owing (pay k s) a + settled (pay k s) a = owing s a + settled s a"
    and pay_forward: "ok s \<Longrightarrow> settled s a \<le> settled (pay k s) a"
    and owing_confirm: "owing (confirm c s) a = owing s a"
    and settled_confirm: "settled (confirm c s) a = settled s a"
begin

lemma apply_conserves:
  "owing (book_apply put pay confirm x s) a + settled (book_apply put pay confirm x s) a =
     owing s a + settled s a + credited acct a [x]"
  by (cases x) (auto simp: owing_put settled_put pay_moves owing_confirm settled_confirm)

lemma credited_Cons: "credited acct a (x # xs) = credited acct a [x] + credited acct a xs"
  by (cases x) auto

lemma run_conserves:
  "owing (book_run put pay confirm xs s) a + settled (book_run put pay confirm xs s) a =
     owing s a + settled s a + credited acct a xs"
proof (induction xs arbitrary: s)
  case (Cons x xs)
  then show ?case
    using apply_conserves[of x s a] credited_Cons[of a x xs] by simp
qed simp

lemma apply_ok: "ok s \<Longrightarrow> puts_positive [x] \<Longrightarrow> ok (book_apply put pay confirm x s)"
  by (cases x) (auto intro: ok_put ok_pay ok_confirm)

lemma apply_settled: "ok s \<Longrightarrow> settled s a \<le> settled (book_apply put pay confirm x s) a"
  by (cases x) (auto simp: settled_put settled_confirm pay_forward)

lemma run_settled:
  "ok s \<Longrightarrow> puts_positive xs \<Longrightarrow> settled s a \<le> settled (book_run put pay confirm xs s) a"
proof (induction xs arbitrary: s)
  case (Cons x xs)
  have p: "puts_positive [x]" "puts_positive xs"
    using Cons.prems(2) by (cases x; simp)+
  have "settled s a \<le> settled (book_apply put pay confirm x s) a"
    using Cons.prems(1) by (rule apply_settled)
  also have "\<dots> \<le> settled (book_run put pay confirm xs (book_apply put pay confirm x s)) a"
    using Cons.IH[OF apply_ok[OF Cons.prems(1) p(1)] p(2)] .
  finally show ?case by simp
qed simp

end

text \<open>The ledger's operations as those of a book: the arguments besides the amount are the key.\<close>

fun book_put :: "int \<times> string \<times> int \<Rightarrow> int \<Rightarrow> ledger \<Rightarrow> ledger" where
  "book_put (now, addr, h) n l = insert_credit now addr n h l"

fun book_pay :: "int \<times> string \<times> int \<times> string option \<Rightarrow> ledger \<Rightarrow> ledger" where
  "book_pay (now, addr, m, tx) l = markSentUpTo now addr m tx l"

fun book_confirm :: "int \<times> string \<Rightarrow> ledger \<Rightarrow> ledger" where
  "book_confirm (now, tx) l = markConfirmed now tx l"

abbreviation ledger_run ::
  "(int \<times> string \<times> int, int \<times> string \<times> int \<times> string option, int \<times> string) book_op list \<Rightarrow> ledger \<Rightarrow> ledger" where
  "ledger_run \<equiv> book_run book_put book_pay book_confirm"

interpretation book: balance_book ledger_ok owed paid "\<lambda>(now, addr, h). addr" book_put book_pay book_confirm
proof
  fix s :: ledger and n :: int and p :: "int \<times> string \<times> int"
    and k :: "int \<times> string \<times> int \<times> string option" and c :: "int \<times> string" and a :: string
  show "ledger_ok s \<Longrightarrow> 0 < n \<Longrightarrow> ledger_ok (book_put p n s)"
    by (cases p) (simp add: ledger_ok_insert)
  show "ledger_ok s \<Longrightarrow> ledger_ok (book_pay k s)"
    by (cases k) (simp add: ledger_ok_markSent)
  show "ledger_ok s \<Longrightarrow> ledger_ok (book_confirm c s)"
    by (cases c) (simp add: ledger_ok_markConfirmed)
  show "owed (book_put p n s) a = owed s a + (if (case p of (now, addr, h) \<Rightarrow> addr) = a then n else 0)"
    by (cases p) (simp add: step_simps)
  show "paid (book_put p n s) a = paid s a"
    by (cases p) (simp add: step_simps)
  show "owed (book_pay k s) a + paid (book_pay k s) a = owed s a + paid s a"
    by (cases k) (simp add: step_simps)
  show "ledger_ok s \<Longrightarrow> paid s a \<le> paid (book_pay k s) a"
    by (cases k) (simp add: step_simps claimed_nonneg)
  show "owed (book_confirm c s) a = owed s a"
    by (cases c) (simp add: step_simps)
  show "paid (book_confirm c s) a = paid s a"
    by (cases c) (simp add: step_simps)
qed

section \<open>Properties\<close>

text \<open>
  Over any sequence of credits, payouts and confirmations, what a miner is still owed and
  what it has been paid always add up to what it was credited: no operation creates, loses or
  moves value between miners.
\<close>

theorem ledger_conserves_value:
  "owed (ledger_run ops empty_ledger) a + paid (ledger_run ops empty_ledger) a =
     credited (\<lambda>(now, addr, h). addr) a ops"
  using book.run_conserves[of ops empty_ledger a] by simp

lemma ledger_run_reach:
  assumes "ledger_step\<^sup>*\<^sup>* l l'" and "ledger_ok l"
  shows "ledger_ok l' \<and> extends l l'"
  using assms(1)
proof (induction rule: rtranclp_induct)
  case (step b c)
  then show ?case
    using ledger_step_ok ledger_step_extends extends_trans by blast
qed (use assms(2) in simp)

text \<open>
  C5. From a reachable ledger, whatever operations follow, every row survives with its id, miner,
  block and amount, its status only moves forward (PENDING, SENT, CONFIRMED) and its transaction
  id, once set, never changes; the table stays well formed: increasing ids, positive amounts, no
  transaction id on a pending row and one on every confirmed row. Between them a sent row may
  have none: the wallet's answer can lack it (C13), and such a row is never confirmed.
\<close>

theorem ledger_rows_only_move_forward:
  assumes "ledger_reach l" and "ledger_step\<^sup>*\<^sup>* l l'"
  shows "ledger_ok l' \<and> extends l l'"
  using ledger_run_reach[OF assms(2) ledger_reach_ok[OF assms(1)]] .

theorem ledger_rows_only_move_forward_witness:
  "\<exists>l1 l2. ledger_reach l1 \<and> length (l_rows l1) = 1 \<and> ledger_step\<^sup>*\<^sup>* l1 l2 \<and>
     map l_status (l_rows l1) = [PENDING] \<and> map l_status (l_rows l2) = [SENT] \<and>
     ledger_ok l2 \<and> extends l1 l2"
proof -
  let ?l1 = "insert_credit 5 ''a'' 7 3 empty_ledger" and ?l2 = "markSentUpTo 6 ''a'' 1 (Some ''t'') (insert_credit 5 ''a'' 7 3 empty_ledger)"
  have r: "ledger_reach ?l1"
    by (rule reach_step[OF reach_empty], rule step_credit[where amt = "IntN 7"]) (simp add: credit_def)
  have s: "ledger_step\<^sup>*\<^sup>* ?l1 ?l2"
    by (rule r_into_rtranclp) (rule step_sent)
  have "map l_status (l_rows ?l1) = [PENDING] \<and> map l_status (l_rows ?l2) = [SENT]"
    by (simp add: insert_credit_def markSentUpTo_def empty_ledger_def claimed_by_def is_pending_def)
  then show ?thesis
    using r s ledger_rows_only_move_forward[OF r s]
    by (intro exI[of _ ?l1] exI[of _ ?l2]) (simp add: insert_credit_def empty_ledger_def)
qed

end
