(* ===== verification/PoolAccounting.thy ===== *)
theory PoolAccounting
  imports JsNumber
begin

text \<open>
  The pool's own account (\<open>src/ORM/pool-accounting\<close>): a table with the single row 1, which
  collects the fee and the rounding dust of every block. \<open>addFeeAndDust\<close> first inserts the row
  unless it is there, then adds to both columns in SQL. \<open>NaN\<close> and \<open>Infinity\<close> make the SQL text
  fail, while the inserted row stays. The reward calculator passes whole numbers only; a fraction,
  which SQLite would store as a real, is outside the model and treated like the failure.
\<close>

record accounting_row =
  totalFeeSats :: int
  totalDustSats :: int

type_synonym accounting = "accounting_row option"

definition int_of_num :: "jsnum \<Rightarrow> int option" where
  "int_of_num v = (case v of Num a \<Rightarrow> if a = of_int \<lfloor>a\<rfloor> then Some \<lfloor>a\<rfloor> else None | _ \<Rightarrow> None)"

definition insert_singleton :: "accounting \<Rightarrow> accounting_row" where
  "insert_singleton t = (case t of None \<Rightarrow> \<lparr>totalFeeSats = 0, totalDustSats = 0\<rparr> | Some r \<Rightarrow> r)"

definition addFeeAndDust :: "jsnum \<Rightarrow> jsnum \<Rightarrow> accounting \<Rightarrow> accounting \<times> unit fallible" where
  "addFeeAndDust feeSats dustSats t =
     (let r = insert_singleton t
      in case (int_of_num feeSats, int_of_num dustSats) of
           (Some f, Some d) \<Rightarrow>
             (Some (r\<lparr>totalFeeSats := totalFeeSats r + f, totalDustSats := totalDustSats r + d\<rparr>), Inr ())
         | _ \<Rightarrow> (Some r, Inl (mk_error ''SQLITE_ERROR'')))"

definition get_accounting :: "accounting \<Rightarrow> int \<times> int" where
  "get_accounting t = (case t of None \<Rightarrow> (0, 0) | Some r \<Rightarrow> (totalFeeSats r, totalDustSats r))"

lemma int_of_num_int [simp]: "int_of_num (IntN n) = Some n"
  by (simp add: int_of_num_def)

lemma addFeeAndDust_int [step_simps]:
  "addFeeAndDust (IntN f) (IntN d) t =
     (Some \<lparr>totalFeeSats = fst (get_accounting t) + f, totalDustSats = snd (get_accounting t) + d\<rparr>, Inr ())"
  by (auto simp: addFeeAndDust_def insert_singleton_def get_accounting_def Let_def split: option.splits)

lemma get_addFeeAndDust [step_simps]:
  "get_accounting (fst (addFeeAndDust (IntN f) (IntN d) t)) =
     (fst (get_accounting t) + f, snd (get_accounting t) + d)"
  by (simp add: addFeeAndDust_int get_accounting_def)

end
