(* ===== verification/FloatSums.thy ===== *)
theory FloatSums
  imports JsNumber
begin

text \<open>
  Rounding errors of the sums and shares the reward calculation computes: a left-to-right sum of
  non-negative doubles, the quotient of one of them by the sum, and its product with an integer.
  \<open>eps\<close> is half a unit in the last place of 1; all bounds are linear in the number of terms.
\<close>

definition eps :: rat where
  "eps = 1 / 2 ^ 53"

lemma eps_bounds: "0 < eps" "eps < 1"
  by (simp_all add: eps_def)

text \<open>The sum of two doubles has a small relative error even where it is subnormal: there it is exact.\<close>

lemma is_double_grid:
  assumes "is_double x"
  obtains n where "x = of_int n * 2 powi (-1074)"
proof -
  obtain m k where "x = of_int m * 2 powi k" and "-1074 \<le> k"
    using assms by (auto simp: is_double_def)
  then have "x = of_int (m * 2 ^ nat (k + 1074)) * 2 powi (-1074)"
    using pow2_on_grid[of "-1074" k] by simp
  then show thesis by (rule that)
qed

lemma rnd_add_error:
  assumes "is_double x" and "is_double y"
  shows "\<bar>rnd (x + y) - (x + y)\<bar> \<le> eps * \<bar>x + y\<bar>"
proof (cases "2 powi (-1022) \<le> \<bar>x + y\<bar>")
  case True
  from rnd_rel_error[OF this] show ?thesis
    by (simp add: eps_def)
next
  case False
  obtain m n where mn: "x = of_int m * 2 powi (-1074)" "y = of_int n * 2 powi (-1074)"
    using assms by (meson is_double_grid)
  then have eq: "x + y = of_int (m + n) * 2 powi (-1074)"
    by (simp add: distrib_right)
  have "of_int \<bar>m + n\<bar> * (2::rat) powi (-1074) < 2 powi (52 + -1074)"
    using False unfolding eq by (simp add: abs_mult not_le)
  then have "of_int \<bar>m + n\<bar> < (2::rat) powi 52"
    unfolding pow2_add by (simp only: mult_less_cancel_right_pos pow2_pos)
  then have "of_int \<bar>m + n\<bar> < (of_int (2 ^ 52) :: rat)"
    by (simp add: power_int_numeral)
  then have "\<bar>m + n\<bar> \<le> 2 ^ 53"
    by (simp only: of_int_less_iff) simp
  then have "is_double (x + y)"
    unfolding is_double_def eq by (intro exI[of _ "m + n"] exI[of _ "-1074"]) simp
  then show ?thesis
    using eps_bounds by (simp add: rnd_exact)
qed

section \<open>Left-to-right sums\<close>

definition fsum :: "rat \<Rightarrow> rat list \<Rightarrow> rat" where
  "fsum a ds = foldl (\<lambda>s d. rnd (s + d)) a ds"

lemma fsum_simps [simp]: "fsum a [] = a" "fsum a (d # ds) = fsum (rnd (a + d)) ds"
  by (simp_all add: fsum_def)

lemma fsum_double: "is_double a \<Longrightarrow> is_double (fsum a ds)"
  by (induction ds arbitrary: a) (auto simp: rnd_is_double)

lemma fsum_ge:
  "is_double a \<Longrightarrow> (\<And>d. d \<in> set ds \<Longrightarrow> 0 \<le> d) \<Longrightarrow> a \<le> fsum a ds"
proof (induction ds arbitrary: a)
  case (Cons d ds)
  have "a \<le> rnd (a + d)"
    using Cons.prems by (intro double_le_rnd) auto
  also have "\<dots> \<le> fsum (rnd (a + d)) ds"
    using Cons.prems by (intro Cons.IH) (auto simp: rnd_is_double)
  finally show ?case by simp
qed simp

lemma fsum_ge_member:
  "is_double a \<Longrightarrow> 0 \<le> a \<Longrightarrow> (\<And>d. d \<in> set ds \<Longrightarrow> 0 \<le> d \<and> is_double d) \<Longrightarrow> d \<in> set ds \<Longrightarrow> d \<le> fsum a ds"
proof (induction ds arbitrary: a)
  case (Cons e ds)
  show ?case
  proof (cases "d = e")
    case True
    have "d \<le> rnd (a + e)"
      using Cons.prems True by (intro double_le_rnd) auto
    also have "\<dots> \<le> fsum (rnd (a + e)) ds"
      using Cons.prems by (intro fsum_ge) (auto simp: rnd_is_double)
    finally show ?thesis by simp
  next
    case False
    then show ?thesis
      using Cons.prems by (auto intro!: Cons.IH simp: rnd_is_double rnd_nonneg)
  qed
qed simp

lemma one_minus_eps_power: "1 - of_nat n * eps \<le> (1 - eps) ^ n"
  using Bernoulli_inequality[of "- eps" n] eps_bounds by simp

lemma fsum_bounds:
  "is_double a \<Longrightarrow> 0 \<le> a \<Longrightarrow> (\<And>d. d \<in> set ds \<Longrightarrow> 0 \<le> d \<and> is_double d) \<Longrightarrow>
     (1 - eps) ^ length ds * (a + sum_list ds) \<le> fsum a ds \<and>
     fsum a ds \<le> (1 + eps) ^ length ds * (a + sum_list ds)"
proof (induction ds arbitrary: a)
  case (Cons d ds)
  let ?r = "rnd (a + d)" and ?n = "length ds" and ?s = "sum_list ds"
  have d: "0 \<le> d" "is_double d" and s: "0 \<le> ?s"
    using Cons.prems by (auto intro: sum_list_nonneg)
  have es: "0 \<le> eps * ?s"
    using s eps_bounds by simp
  have err: "(1 - eps) * (a + d) \<le> ?r" "?r \<le> (1 + eps) * (a + d)"
    using rnd_add_error[OF Cons.prems(1) d(2)] d Cons.prems(2) by (auto simp: abs_le_iff algebra_simps)
  have IH: "(1 - eps) ^ ?n * (?r + ?s) \<le> fsum ?r ds" "fsum ?r ds \<le> (1 + eps) ^ ?n * (?r + ?s)"
    using Cons.IH[of ?r] Cons.prems d by (auto simp: rnd_is_double rnd_nonneg)
  have "(1 - eps) * (a + d + ?s) \<le> ?r + ?s"
    using err(1) es by (simp add: algebra_simps)
  then have "(1 - eps) ^ ?n * ((1 - eps) * (a + d + ?s)) \<le> (1 - eps) ^ ?n * (?r + ?s)"
    using eps_bounds by (intro mult_left_mono) auto
  moreover have "?r + ?s \<le> (1 + eps) * (a + d + ?s)"
    using err(2) es by (simp add: algebra_simps)
  then have "(1 + eps) ^ ?n * (?r + ?s) \<le> (1 + eps) ^ ?n * ((1 + eps) * (a + d + ?s))"
    using eps_bounds by (intro mult_left_mono) auto
  ultimately show ?case
    using IH by (simp add: algebra_simps)
qed simp

section \<open>The share of one summand\<close>

text \<open>
  \<open>Math.floor(D * (d / T))\<close> for an integer \<open>D\<close>: at most the exact share enlarged by two
  roundings, and more than the exact share reduced by two roundings, less one.
\<close>

definition share_floor :: "int \<Rightarrow> rat \<Rightarrow> rat \<Rightarrow> int" where
  "share_floor D d T = \<lfloor>rnd (of_int D * rnd (d / T))\<rfloor>"

lemma rnd_near:
  assumes "2 powi (-100) \<le> x"
  shows "(1 - eps) * x \<le> rnd x" and "rnd x \<le> (1 + eps) * x"
proof -
  have "2 powi (-1022) \<le> (2::rat) powi (-100)"
    by (rule pow2_mono) simp
  then have "\<bar>rnd x - x\<bar> \<le> eps * x"
    using assms rnd_rel_error[of x] less_le_trans[OF pow2_pos assms] by (simp add: eps_def)
  then show "(1 - eps) * x \<le> rnd x" and "rnd x \<le> (1 + eps) * x"
    by (simp_all add: algebra_simps abs_le_iff)
qed

lemma pow2_m100: "(2::rat) powi (-100) = 1 / 2 ^ 100"
  by (simp add: power_int_def divide_simps)

lemma pow2_m100_le: "2 powi (-100) \<le> (1::rat) / 2 ^ 55" "2 powi (-100) \<le> (1::rat) / 2 ^ 53"
  by (simp_all add: pow2_m100)

lemma is_double_half: "is_double (1 / 2)"
  using is_double_pow2[of "-1"] by (simp add: power_int_def)

lemma rnd_unit: "0 \<le> x \<Longrightarrow> x \<le> 1 \<Longrightarrow> 0 \<le> rnd x \<and> rnd x \<le> 1"
  using rnd_le_double[of x 1] is_double_of_int[of 1] by (simp add: rnd_nonneg)

lemma share_floor_range:
  assumes "0 \<le> D" and "D \<le> 2 ^ 53" and "0 \<le> d" and "d \<le> T" and "0 < T"
  shows "0 \<le> share_floor D d T \<and> share_floor D d T \<le> D"
proof -
  let ?p = "rnd (d / T)"
  have p: "0 \<le> ?p" "?p \<le> 1"
    using rnd_unit[of "d / T"] assms by auto
  have "rnd (of_int D * ?p) \<le> of_int D"
    using assms p by (intro rnd_le_double is_double_of_int) (auto simp: mult_left_le)
  moreover have "0 \<le> rnd (of_int D * ?p)"
    using assms p by (intro rnd_nonneg) simp
  ultimately show ?thesis
    unfolding share_floor_def by (auto simp: floor_le_iff)
qed

lemma share_floor_upper:
  assumes "0 \<le> D" and "D \<le> 2 ^ 53" and "0 \<le> d" and "d \<le> T" and "0 < T"
  shows "of_int (share_floor D d T) \<le> (1 + eps)\<^sup>2 * (of_int D * (d / T))"
proof (cases "share_floor D d T \<le> 0")
  case True
  have "0 \<le> (1 + eps)\<^sup>2 * (of_int D * (d / T))"
    using assms by simp
  moreover have "of_int (share_floor D d T) \<le> (0::rat)"
    using True by simp
  ultimately show ?thesis by linarith
next
  case False
  let ?p = "rnd (d / T)" and ?D = "of_int D :: rat"
  have one: "1 \<le> rnd (?D * ?p)"
    using False by (simp add: share_floor_def)
  have half: "1 / 2 \<le> ?D * ?p"
    using rnd_le_double[of "?D * ?p" "1 / 2"] is_double_half one by linarith
  have D: "0 < ?D" "?D \<le> 2 ^ 53"
    using half assms(1,2) by (auto simp: order_le_less simp flip: of_int_less_iff)
  have "1 / 2 \<le> 2 ^ 53 * ?p"
    using half D rnd_nonneg[of "d / T"] assms mult_right_mono[of ?D "2 ^ 53" ?p] by auto
  then have p: "1 / 2 ^ 54 \<le> ?p"
    by simp
  have "(1::rat) / 2 ^ 55 = 2 powi (-55)"
    by (simp add: power_int_def divide_simps)
  then have "is_double (1 / 2 ^ 55)"
    using is_double_pow2[of "-55"] by simp
  then have q: "1 / 2 ^ 55 \<le> d / T"
    using rnd_le_double[of "d / T" "1 / 2 ^ 55"] p by (cases "d / T \<le> 1 / 2 ^ 55") auto
  have "rnd (?D * ?p) \<le> (1 + eps) * (?D * ?p)"
    using half by (intro rnd_near) (simp add: pow2_m100)
  also have "\<dots> \<le> (1 + eps) * (?D * ((1 + eps) * (d / T)))"
    using order_trans[OF pow2_m100_le(1) q] D eps_bounds by (intro mult_left_mono rnd_near) auto
  also have "\<dots> = (1 + eps)\<^sup>2 * (?D * (d / T))"
    by (simp add: power2_eq_square)
  finally show ?thesis
    unfolding share_floor_def using of_int_floor_le[of "rnd (?D * ?p)"] by linarith
qed

lemma share_floor_lower:
  assumes "0 \<le> D" and "D \<le> 2 ^ 53" and "0 \<le> d" and "d \<le> T" and "0 < T"
  shows "(1 - eps)\<^sup>2 * (of_int D * (d / T)) < of_int (share_floor D d T) + 1"
proof (cases "of_int D * (d / T) < 1")
  case True
  have "(1 - eps)\<^sup>2 \<le> 1"
    using eps_bounds by (simp add: power_le_one)
  then have "(1 - eps)\<^sup>2 * (of_int D * (d / T)) \<le> of_int D * (d / T)"
    using assms by (intro mult_left_le_one_le) auto
  moreover have "(0::rat) \<le> of_int (share_floor D d T)"
    using share_floor_range[OF assms] by simp
  ultimately show ?thesis
    using True by linarith
next
  case False
  let ?p = "rnd (d / T)" and ?D = "of_int D :: rat"
  have "?D \<le> of_int (2 ^ 53)" and "0 \<le> ?D"
    using assms(1,2) by (simp_all only: of_int_le_iff of_int_0_le_iff)
  then have D: "?D \<le> 2 ^ 53" "0 \<le> ?D"
    by simp_all
  have "?D * (d / T) \<le> 2 ^ 53 * (d / T)"
    using D assms by (intro mult_right_mono) auto
  then have "1 \<le> 2 ^ 53 * (d / T)"
    using False by linarith
  then have q: "1 / 2 ^ 53 \<le> d / T"
    by (simp add: mult.commute)
  have p: "(1 - eps) * (d / T) \<le> ?p"
    using order_trans[OF pow2_m100_le(2) q] by (rule rnd_near)
  then have Dp: "(1 - eps) * (?D * (d / T)) \<le> ?D * ?p"
    using D mult_left_mono[OF p, of ?D] by (simp add: algebra_simps)
  have "1 / 2 \<le> (1 - eps) * 1"
    by (simp add: eps_def)
  also have "\<dots> \<le> (1 - eps) * (?D * (d / T))"
    using False eps_bounds by (intro mult_left_mono) auto
  finally have "2 powi (-100) \<le> ?D * ?p"
    using Dp by (simp add: pow2_m100)
  then have "(1 - eps) * (?D * ?p) \<le> rnd (?D * ?p)"
    by (rule rnd_near)
  moreover have "(1 - eps)\<^sup>2 * (?D * (d / T)) \<le> (1 - eps) * (?D * ?p)"
    using eps_bounds mult_left_mono[OF Dp, of "1 - eps"] by (simp add: power2_eq_square mult.assoc)
  ultimately show ?thesis
    unfolding share_floor_def by linarith
qed

section \<open>All shares together\<close>

text \<open>
  The distribution of an integer \<open>D\<close> over the summands \<open>ds\<close> of a left-to-right sum, when
  \<open>(D + 1) * (n + 3) \<le> 2 ^ 53\<close>: a group of \<open>k\<close> summands receives at most its exact part plus
  its fraction, and more than the exact part less its fraction less one per summand.
\<close>

definition fair_size :: "int \<Rightarrow> nat \<Rightarrow> bool" where
  "fair_size D n \<longleftrightarrow> 0 \<le> D \<and> (D + 1) * (int n + 3) \<le> 2 ^ 53"

lemma fair_size_D: "fair_size D n \<Longrightarrow> 0 \<le> D \<and> D \<le> 2 ^ 53"
proof -
  assume a: "fair_size D n"
  then have "(D + 1) * 1 \<le> (D + 1) * (int n + 3)"
    unfolding fair_size_def by (intro mult_left_mono) auto
  moreover have "(D + 1) * (int n + 3) \<le> 2 ^ 53" and "0 \<le> D"
    using a by (simp_all add: fair_size_def)
  ultimately have "(D + 1) * 1 \<le> 2 ^ 53" and "0 \<le> D"
    by (blast intro: order_trans)+
  then have "D \<le> 2 ^ 53"
    by simp
  with \<open>0 \<le> D\<close> show "0 \<le> D \<and> D \<le> 2 ^ 53" ..
qed

lemma fair_size_eps:
  assumes "fair_size D n"
  shows "(of_int D + 1) * (of_nat n + 3) * eps \<le> 1"
proof -
  have "(of_int ((D + 1) * (int n + 3)) :: rat) \<le> of_int (2 ^ 53)"
    using assms unfolding fair_size_def by (simp only: of_int_le_iff)
  then show ?thesis
    by (simp add: eps_def)
qed

lemma fair_size_products:
  assumes "fair_size D n"
  defines "x \<equiv> of_int D * eps" and "y \<equiv> of_int D * of_nat n * eps" and "z \<equiv> of_nat n * eps"
  shows "0 \<le> x" and "0 \<le> y" and "0 \<le> z" and "y + 3 * x + z + 3 * eps \<le> 1"
proof -
  have "0 \<le> D"
    using assms(1) by (simp add: fair_size_def)
  then show "0 \<le> x" and "0 \<le> y" and "0 \<le> z"
    using eps_bounds by (simp_all add: x_def y_def z_def)
  show "y + 3 * x + z + 3 * eps \<le> 1"
    using fair_size_eps[OF assms(1)] by (simp add: x_def y_def z_def algebra_simps)
qed

lemma share_ratio_upper:
  assumes "fair_size D n"
  shows "(1 + eps)\<^sup>2 * of_int D < (of_int D + 1) * (1 - of_nat n * eps)"
proof -
  note f = fair_size_products[OF assms]
  have "eps * (of_int D * eps) \<le> of_int D * eps"
    using f(1) eps_bounds by (intro mult_left_le_one_le) auto
  then have "of_int D + 2 * (of_int D * eps) + eps * (of_int D * eps) <
             of_int D + 1 - of_int D * of_nat n * eps - of_nat n * eps"
    using f eps_bounds by linarith
  then show ?thesis
    by (simp add: algebra_simps power2_eq_square)
qed

lemma share_ratio_lower:
  assumes "fair_size D n"
  shows "of_int D < (1 - eps)\<^sup>2 * (1 - of_nat n * eps) * of_int D + 1"
proof -
  note f = fair_size_products[OF assms]
  have D: "0 \<le> (of_int D :: rat)"
    using assms by (simp add: fair_size_def)
  have z: "0 \<le> 1 - of_nat n * eps"
    using f eps_bounds by linarith
  have "1 - 2 * eps \<le> (1 - eps)\<^sup>2"
    by (simp add: algebra_simps power2_eq_square)
  then have "(1 - 2 * eps) * (1 - of_nat n * eps) \<le> (1 - eps)\<^sup>2 * (1 - of_nat n * eps)"
    using z by (rule mult_right_mono)
  moreover have "1 - 2 * eps - of_nat n * eps \<le> (1 - 2 * eps) * (1 - of_nat n * eps)"
    using f(3) eps_bounds by (simp add: algebra_simps)
  ultimately have "(1 - 2 * eps - of_nat n * eps) * of_int D \<le> (1 - eps)\<^sup>2 * (1 - of_nat n * eps) * of_int D"
    using D by (intro mult_right_mono) auto
  moreover have "(1 - 2 * eps - of_nat n * eps) * of_int D =
      of_int D - 2 * (of_int D * eps) - of_int D * of_nat n * eps"
    by (simp add: algebra_simps)
  ultimately show ?thesis
    using f eps_bounds by linarith
qed

lemma fsum_bounds_linear:
  assumes "\<And>d. d \<in> set ds \<Longrightarrow> 0 \<le> d \<and> is_double d"
  shows "(1 - of_nat (length ds) * eps) * sum_list ds \<le> fsum 0 ds"
    and "(1 - of_nat (length ds) * eps) * fsum 0 ds \<le> sum_list ds"
proof -
  let ?n = "length ds"
  have d0: "is_double 0"
    using is_double_of_int[of 0] by simp
  have b: "(1 - eps) ^ ?n * sum_list ds \<le> fsum 0 ds" "fsum 0 ds \<le> (1 + eps) ^ ?n * sum_list ds"
    using fsum_bounds[OF d0 order_refl, of ds] assms by simp_all
  have S: "0 \<le> sum_list ds"
    using assms by (auto intro: sum_list_nonneg)
  have "(1 - of_nat ?n * eps) * sum_list ds \<le> (1 - eps) ^ ?n * sum_list ds"
    using S one_minus_eps_power by (rule mult_right_mono[rotated])
  then show "(1 - of_nat ?n * eps) * sum_list ds \<le> fsum 0 ds"
    using b by linarith
  have f0: "0 \<le> fsum 0 ds"
    using fsum_ge[OF d0] assms by simp
  have "(1 - of_nat ?n * eps) * fsum 0 ds \<le> (1 - eps) ^ ?n * fsum 0 ds"
    using f0 one_minus_eps_power by (rule mult_right_mono[rotated])
  also have "\<dots> \<le> (1 - eps) ^ ?n * ((1 + eps) ^ ?n * sum_list ds)"
    using b eps_bounds by (intro mult_left_mono) auto
  also have "\<dots> = ((1 - eps) * (1 + eps)) ^ ?n * sum_list ds"
    by (simp add: power_mult_distrib)
  also have "\<dots> \<le> 1 * sum_list ds"
    using S eps_bounds by (intro mult_right_mono power_le_one mult_nonneg_nonneg)
      (simp_all add: algebra_simps)
  finally show "(1 - of_nat ?n * eps) * fsum 0 ds \<le> sum_list ds" by simp
qed

text \<open>The part of a group \<open>gs\<close> of the summands.\<close>

lemma share_sum_bounds:
  fixes T :: rat
  assumes D: "0 \<le> D" "D \<le> 2 ^ 53"
    and gs: "\<forall>d \<in> set gs. 0 \<le> d \<and> d \<le> T" and T: "0 < T"
  defines "A \<equiv> of_int (\<Sum>d\<leftarrow>gs. share_floor D d T)"
  shows "0 \<le> A" and "A * T \<le> (1 + eps)\<^sup>2 * of_int D * sum_list gs"
    and "(1 - eps)\<^sup>2 * of_int D * sum_list gs \<le> (A + of_nat (length gs)) * T"
proof -
  have elem: "0 \<le> d" "d \<le> T" if "d \<in> set gs" for d
    using gs that by auto
  have A: "A = (\<Sum>d\<leftarrow>gs. of_int (share_floor D d T))"
    unfolding A_def by (induction gs) simp_all
  have scale: "(\<Sum>d\<leftarrow>gs. q * (of_int D * (d / T))) = q * of_int D / T * sum_list gs" for q
    by (induction gs) (simp_all add: algebra_simps add_divide_distrib)
  show "0 \<le> A"
    unfolding A by (rule sum_list_map_nonneg) (use share_floor_range[OF D elem T] in auto)
  have "A \<le> (\<Sum>d\<leftarrow>gs. (1 + eps)\<^sup>2 * (of_int D * (d / T)))"
    unfolding A by (rule sum_list_map_mono_on) (use share_floor_upper[OF D elem T] in auto)
  then show "A * T \<le> (1 + eps)\<^sup>2 * of_int D * sum_list gs"
    unfolding scale using T by (simp add: field_simps)
  have "(\<Sum>d\<leftarrow>gs. (1 - eps)\<^sup>2 * (of_int D * (d / T))) \<le> (\<Sum>d\<leftarrow>gs. of_int (share_floor D d T) + 1)"
    by (rule sum_list_map_mono_on) (use share_floor_lower[OF D elem T] in \<open>auto intro: less_imp_le\<close>)
  moreover have "(\<Sum>d\<leftarrow>gs. of_int (share_floor D d T) + 1) = A + of_nat (length gs)"
    by (simp add: A sum_list_addf sum_list_triv)
  ultimately show "(1 - eps)\<^sup>2 * of_int D * sum_list gs \<le> (A + of_nat (length gs)) * T"
    unfolding scale using T by (simp add: pos_divide_le_eq)
qed

lemma group_bounds:
  fixes T :: rat
  assumes size: "fair_size D (length ds)"
    and ds: "\<And>d. d \<in> set ds \<Longrightarrow> 0 \<le> d \<and> is_double d"
    and T: "T = fsum 0 ds" "0 < T"
    and gs: "set gs \<subseteq> set ds"
  defines "A \<equiv> of_int (\<Sum>d\<leftarrow>gs. share_floor D d T)"
  shows "0 < sum_list gs \<Longrightarrow> A * sum_list ds < (of_int D + 1) * sum_list gs"
    and "0 < sum_list gs \<Longrightarrow> of_int D * sum_list gs < sum_list gs + (A + of_nat (length gs)) * sum_list ds"
proof -
  let ?G = "sum_list gs" and ?S = "sum_list ds" and ?z = "1 - of_nat (length ds) * eps"
  have d0: "is_double 0"
    using is_double_of_int[of 0] by simp
  have elem: "\<forall>d \<in> set gs. 0 \<le> d \<and> d \<le> T"
    using gs ds T(1) fsum_ge_member[OF d0 order_refl ds] by auto
  note sums = share_sum_bounds[OF fair_size_D[OF size, THEN conjunct1] fair_size_D[OF size, THEN conjunct2] elem T(2), folded A_def]
  have z: "0 < ?z"
    using fair_size_products[OF size] eps_bounds by linarith
  have S: "?z * ?S \<le> T" "?z * T \<le> ?S"
    using fsum_bounds_linear[OF ds] by (simp_all add: T(1))
  show "A * ?S < (of_int D + 1) * ?G" if G: "0 < ?G"
  proof -
    have "?z * (A * ?S) \<le> A * T"
      using mult_left_mono[OF S(1) sums(1)] by (simp add: mult_ac)
    also note sums(2)
    also have "(1 + eps)\<^sup>2 * of_int D * ?G < (of_int D + 1) * ?z * ?G"
      using share_ratio_upper[OF size] G by (rule mult_strict_right_mono)
    finally have "?z * (A * ?S) < ?z * ((of_int D + 1) * ?G)"
      by (simp add: mult_ac)
    then show ?thesis
      using z by (simp only: mult_less_cancel_left_pos)
  qed
  show "of_int D * ?G < ?G + (A + of_nat (length gs)) * ?S" if G: "0 < ?G"
  proof -
    have "(1 - eps)\<^sup>2 * ?z * of_int D * ?G \<le> ?z * ((A + of_nat (length gs)) * T)"
      using mult_left_mono[OF sums(3), of ?z] z by (simp add: mult_ac)
    also have "\<dots> \<le> (A + of_nat (length gs)) * ?S"
      using mult_left_mono[OF S(2), of "A + of_nat (length gs)"] sums(1) by (simp add: mult_ac)
    moreover have "of_int D * ?G < ((1 - eps)\<^sup>2 * ?z * of_int D + 1) * ?G"
      using share_ratio_lower[OF size] G by (rule mult_strict_right_mono)
    ultimately show ?thesis
      by (simp add: distrib_right)
  qed
qed

section \<open>Absolute errors\<close>

lemma rnd_abs_error:
  assumes "\<bar>x\<bar> \<le> B" and "1 \<le> B"
  shows "\<bar>rnd x - x\<bar> \<le> eps * B"
proof (cases "\<bar>x\<bar> < 1")
  case True
  show ?thesis
  proof (cases "x = 0")
    case False
    have "flog2 1 = 0"
      by (rule flog2_eqI) simp_all
    then have "ulp_exp (1::rat) = -52"
      by (simp add: ulp_exp_def)
    then have "2 powi ulp_exp x / 2 \<le> (2::rat) powi (-52) / 2"
      using ulp_exp_mono[of x 1] False True by (intro divide_right_mono pow2_mono) auto
    also have "\<dots> = eps"
      by (simp add: eps_def power_int_def divide_simps)
    finally have "\<bar>rnd x - x\<bar> \<le> eps"
      using rnd_error_ulp[OF False] by linarith
    also have "\<dots> \<le> eps * B"
      using assms(2) eps_bounds by simp
    finally show ?thesis .
  qed (use assms eps_bounds in simp)
next
  case False
  have "2 powi (-1022) \<le> (2::rat) powi 0"
    by (rule pow2_mono) simp
  then have "\<bar>rnd x - x\<bar> \<le> eps * \<bar>x\<bar>"
    using rnd_rel_error[of x] False by (simp add: eps_def)
  also have "\<dots> \<le> eps * B"
    using assms(1) eps_bounds by simp
  finally show ?thesis .
qed

end
