(* ===== verification/RewardCalculator.thy ===== *)
theory RewardCalculator
  imports ShareLog PayoutLedger PoolAccounting FloatSums "HOL-Library.AList"
begin

text \<open>
  The split of a block reward (\<open>src/pplns/reward-calculator.service.ts\<close>): the shares of the
  window are read, the fee deducted, every share credited with its floored part, the parts added
  up per miner, and the fee and the rounding dust booked to the pool. All arithmetic is that of
  doubles; the theorems show that it neither creates nor loses a satoshi and that each miner is
  credited in proportion to the difficulty of his shares.
\<close>

record pool_state =
  p_shares :: share_log
  p_ledger :: ledger
  p_accounting :: accounting

section \<open>The calculation\<close>

definition total_difficulty :: "share list \<Rightarrow> jsnum" where
  "total_difficulty ss = foldl (\<lambda>totalDifficulty s. js_add totalDifficulty (s_difficulty s)) (Num 0) ss"

definition distributable_sats :: "config \<Rightarrow> jsnum \<Rightarrow> jsnum" where
  "distributable_sats cfg reward =
     js_floor (js_mul reward (js_sub (Num 1) (js_div (getFeePercent cfg) (Num 100))))"

definition share_amount :: "jsnum \<Rightarrow> jsnum \<Rightarrow> share \<Rightarrow> jsnum" where
  "share_amount distributable totalDifficulty s =
     js_floor (js_mul distributable (js_div (s_difficulty s) totalDifficulty))"

text \<open>\<open>perMinerTotals\<close>: a \<open>Map\<close>, which keeps the order of first insertion.\<close>

definition tally :: "(string \<times> jsnum) list \<Rightarrow> (string \<times> jsnum) list" where
  "tally xs = foldl (\<lambda>m (a, amount).
      AList.update a (js_add (case map_of m a of None \<Rightarrow> Num 0 | Some v \<Rightarrow> v) amount) m) [] xs"

definition perMinerTotals :: "jsnum \<Rightarrow> jsnum \<Rightarrow> share list \<Rightarrow> (string \<times> jsnum) list" where
  "perMinerTotals distributable totalDifficulty ss =
     tally (map (\<lambda>s. (s_minerAddress s, share_amount distributable totalDifficulty s)) ss)"

text \<open>The loop over the map: the ledger keeps what was credited when a call throws.\<close>

fun credit_all :: "int \<Rightarrow> int \<Rightarrow> (string \<times> jsnum) list \<Rightarrow> jsnum \<Rightarrow> ledger \<Rightarrow> ledger \<times> jsnum fallible" where
  "credit_all now h [] allocated l = (l, Inr allocated)"
| "credit_all now h ((address, amount) # ms) allocated l =
     (if js_le amount (Num 0) then credit_all now h ms allocated l
      else case credit now address amount h l of
             Inl e \<Rightarrow> (l, Inl e)
           | Inr l' \<Rightarrow> credit_all now h ms (js_add allocated amount) l')"

definition processBlockFound ::
  "config \<Rightarrow> int \<Rightarrow> int \<Rightarrow> jsnum \<Rightarrow> pool_state \<Rightarrow> pool_state \<times> unit fallible" where
  "processBlockFound cfg now blockHeight blockRewardSats st =
     (let windowStart = window_start cfg now;
          ss = getSharesInWindow windowStart (p_shares st);
          totalDifficulty = total_difficulty ss
      in if js_le totalDifficulty (Num 0) then
           (case addFeeAndDust (Num 0) blockRewardSats (p_accounting st) of
              (acc, r) \<Rightarrow> (st\<lparr>p_accounting := acc\<rparr>, r))
         else
           (let distributable = distributable_sats cfg blockRewardSats;
                feeSats = js_sub blockRewardSats distributable;
                totals = perMinerTotals distributable totalDifficulty ss
            in case credit_all now blockHeight totals (Num 0) (p_ledger st) of
                 (l, Inl e) \<Rightarrow> (st\<lparr>p_ledger := l\<rparr>, Inl e)
               | (l, Inr allocated) \<Rightarrow>
                   (let dustSats = js_sub distributable allocated
                    in case addFeeAndDust feeSats dustSats (p_accounting st) of
                         (acc, r) \<Rightarrow> (st\<lparr>p_ledger := l, p_accounting := acc\<rparr>, r))))"

section \<open>The tally\<close>

definition int_sum_of :: "string \<Rightarrow> (string \<times> int) list \<Rightarrow> int" where
  "int_sum_of a xs = sum_list (map snd (filter (\<lambda>x. fst x = a) xs))"

text \<open>Amounts that are integers.\<close>

definition int_items :: "(string \<times> int) list \<Rightarrow> (string \<times> jsnum) list" where
  "int_items xs = map (\<lambda>(a, n). (a, IntN n)) xs"

lemma int_items_simps [simp]:
  "int_items [] = []" "int_items ((a, n) # xs) = (a, IntN n) # int_items xs"
  "int_items (xs @ ys) = int_items xs @ int_items ys"
  by (simp_all add: int_items_def)

lemma int_sum_of_snoc: "int_sum_of a (xs @ [(b, n)]) = int_sum_of a xs + (if a = b then n else 0)"
  by (simp add: int_sum_of_def)

lemma int_sum_of_range:
  assumes "\<forall>x \<in> set xs. 0 \<le> snd x"
  shows "0 \<le> int_sum_of a xs \<and> int_sum_of a xs \<le> sum_list (map snd xs)"
  using assms unfolding int_sum_of_def
  by (intro conjI sum_list_map_nonneg sum_list_filter_le) auto

lemma tally_snoc:
  "tally (xs @ [(a, v)]) =
     AList.update a (js_add (case map_of (tally xs) a of None \<Rightarrow> Num 0 | Some v \<Rightarrow> v) v) (tally xs)"
  by (simp add: tally_def)

lemma int_sum_of_absent: "a \<notin> fst ` set xs \<Longrightarrow> int_sum_of a xs = 0"
proof -
  assume a: "a \<notin> fst ` set xs"
  have "filter (\<lambda>x. fst x = a) xs = []"
    using a by (auto simp: filter_empty_conv)
  then show "int_sum_of a xs = 0"
    by (simp add: int_sum_of_def)
qed

lemma tally_int:
  assumes "\<forall>x \<in> set xs. 0 \<le> snd x" and "sum_list (map snd xs) \<le> 2 ^ 53"
  shows "distinct (map fst (tally (int_items xs))) \<and>
         map_of (tally (int_items xs)) =
           (\<lambda>a. if a \<in> fst ` set xs then Some (IntN (int_sum_of a xs)) else None)"
  using assms
proof (induction xs rule: rev_induct)
  case (snoc x xs)
  obtain b n where x: "x = (b, n)" by fastforce
  have n: "0 \<le> n" "\<forall>x \<in> set xs. 0 \<le> snd x"
    using snoc.prems(1) x by auto
  then have le: "sum_list (map snd xs) \<le> 2 ^ 53" and "int_sum_of b xs + n \<le> 2 ^ 53"
    using snoc.prems(2) x int_sum_of_range[OF n(2), of b] by auto
  then have add: "js_add (IntN (int_sum_of b xs)) (IntN n) = IntN (int_sum_of b xs + n)"
    and add0: "js_add (Num 0) (IntN n) = IntN n"
    using n int_sum_of_range[OF n(2), of b] js_add_int[of "int_sum_of b xs" n] js_add_int[of 0 n]
    by (simp_all add: safe_int_def)
  have zero: "int_sum_of b xs = 0" if "b \<notin> fst ` set xs"
    by (rule int_sum_of_absent) (rule that)
  note IH = snoc.IH[OF n(2) le]
  show ?case
    using IH zero by (auto simp: x tally_snoc update_conv' distinct_update add[simplified] add0[simplified] int_sum_of_snoc fun_eq_iff)
qed (simp add: tally_def)

section \<open>The loop of credits\<close>

text \<open>\<open>xs\<close> is credited: what each miner is owed, in total and in new rows only.\<close>

definition credited_by :: "(string \<times> int) list \<Rightarrow> ledger \<Rightarrow> ledger \<Rightarrow> bool" where
  "credited_by xs l l' \<longleftrightarrow>
     total_owed l' = total_owed l + sum_list (map snd xs) \<and>
     (\<forall>a. owed l' a = owed l a + int_sum_of a xs) \<and> (\<forall>a. paid l' a = paid l a) \<and>
     (ledger_ok l \<longrightarrow> ledger_ok l') \<and> extends l l'"

lemma credited_by_Nil: "credited_by [] l l"
  by (simp add: credited_by_def int_sum_of_def)

lemma credited_by_zero: "credited_by xs l l' \<Longrightarrow> credited_by ((a, 0) # xs) l l'"
  by (simp add: credited_by_def int_sum_of_def)

lemma credited_by_insert:
  "0 < n \<Longrightarrow> credited_by xs (insert_credit now a n h l) l' \<Longrightarrow> credited_by ((a, n) # xs) l l'"
  using extends_trans[OF extends_insert] ledger_ok_insert
  by (auto simp: credited_by_def int_sum_of_def step_simps)

lemma credit_all_int:
  assumes "\<forall>x \<in> set xs. 0 \<le> snd x" and "0 \<le> acc" and "acc + sum_list (map snd xs) \<le> 2 ^ 53"
  shows "\<exists>l'. credit_all now h (int_items xs) (IntN acc) l =
                (l', Inr (IntN (acc + sum_list (map snd xs)))) \<and> credited_by xs l l'"
  using assms
proof (induction xs arbitrary: acc l)
  case (Cons x xs)
  obtain a n where x: "x = (a, n)" by fastforce
  have n: "0 \<le> n" "\<forall>x \<in> set xs. 0 \<le> snd x"
    using Cons.prems(1) x by auto
  then have s: "0 \<le> sum_list (map snd xs)"
    by (intro sum_list_map_nonneg) simp
  have bound: "acc + n + sum_list (map snd xs) \<le> 2 ^ 53"
    using Cons.prems(3) x by simp
  show ?case
  proof (cases "n = 0")
    case True
    then show ?thesis
      using Cons.IH[OF n(2) Cons.prems(2), of l] bound by (auto simp: x intro: credited_by_zero)
  next
    case False
    have "js_add (IntN acc) (IntN n) = IntN (acc + n)"
      using n s bound Cons.prems(2) by (intro js_add_int) (simp add: safe_int_def)
    then have "credit_all now h (int_items (x # xs)) (IntN acc) l =
          credit_all now h (int_items xs) (IntN (acc + n)) (insert_credit now a n h l)"
      using n False by (simp add: x credit_int)
    moreover obtain l' where
      "credit_all now h (int_items xs) (IntN (acc + n)) (insert_credit now a n h l) =
         (l', Inr (IntN (acc + n + sum_list (map snd xs))))"
      and "credited_by xs (insert_credit now a n h l) l'"
      using Cons.IH[OF n(2), of "acc + n" "insert_credit now a n h l"] bound Cons.prems(2) n by auto
    ultimately show ?thesis
      using False n credited_by_insert[of n xs now a h l l'] by (auto simp: x add.assoc)
  qed
qed (simp add: credited_by_Nil)

lemma int_sum_of_distinct:
  "distinct ks \<Longrightarrow> int_sum_of a (map (\<lambda>k. (k, f k)) ks) = (if a \<in> set ks then f a else 0)"
  by (induction ks) (auto simp: int_sum_of_def)

lemma tally_groups:
  assumes "\<forall>x \<in> set xs. 0 \<le> snd x" and "sum_list (map snd xs) \<le> 2 ^ 53"
  obtains ys where "tally (int_items xs) = int_items ys" and "\<forall>x \<in> set ys. 0 \<le> snd x"
    and "sum_list (map snd ys) = sum_list (map snd xs)" and "\<And>a. int_sum_of a ys = int_sum_of a xs"
proof -
  let ?m = "tally (int_items xs)"
  let ?ks = "map fst ?m"
  let ?ys = "map (\<lambda>k. (k, int_sum_of k xs)) ?ks"
  have dm: "distinct ?ks" and mo: "map_of ?m = (\<lambda>a. if a \<in> fst ` set xs then Some (IntN (int_sum_of a xs)) else None)"
    using tally_int[OF assms] by auto
  have dom: "set ?ks = fst ` set xs"
    using mo dom_map_of_conv_image_fst[of ?m] by (auto simp: dom_def split: if_splits)
  have val: "v = IntN (int_sum_of a xs)" if "(a, v) \<in> set ?m" for a v
    using map_of_is_SomeI[OF dm that] mo by (auto split: if_splits)
  have "map (\<lambda>x. (fst x, IntN (int_sum_of (fst x) xs))) ?m = ?m"
    by (rule map_idI) (metis prod.collapse val)
  then have "?m = int_items ?ys"
    by (simp add: int_items_def comp_def)
  moreover have "\<forall>x \<in> set ?ys. 0 \<le> snd x"
    using int_sum_of_range[OF assms(1)] by auto
  moreover have "sum_list (map snd ?ys) = (\<Sum>k\<leftarrow>?ks. sum_list (map snd (filter (\<lambda>x. fst x = k) xs)))"
    by (simp add: int_sum_of_def comp_def)
  then have "sum_list (map snd ?ys) = sum_list (map snd xs)"
    using sum_list_groups[OF dm, of snd fst xs] dom by (simp add: filter_True)
  moreover have "int_sum_of a ?ys = int_sum_of a xs" for a
    using int_sum_of_distinct[OF dm, of a "\<lambda>k. int_sum_of k xs"] dom int_sum_of_absent[of a xs] by auto
  ultimately show thesis
    by (rule that)
qed

section \<open>The shares as doubles\<close>

text \<open>
  A share of the log whose difficulty is a positive double (bounded far above any difficulty);
  the accepted shares are of this kind.
\<close>

definition share_ok :: "share \<Rightarrow> bool" where
  "share_ok s \<longleftrightarrow> js_wf (s_difficulty s) \<and> js_lt (Num 0) (s_difficulty s) \<and>
                 js_le (s_difficulty s) (Num (2 ^ 300))"

definition rat_of :: "jsnum \<Rightarrow> rat" where
  "rat_of v = (case v of Num x \<Rightarrow> x | _ \<Rightarrow> 0)"

abbreviation diff :: "share \<Rightarrow> rat" where
  "diff s \<equiv> rat_of (s_difficulty s)"

lemma js_wf_double: "js_wf (Num x) \<Longrightarrow> is_double x"
  using rnd_is_double[of x] by (auto simp: fl_def Let_def split: if_splits)

lemma share_okD:
  assumes "share_ok s"
  shows "s_difficulty s = Num (diff s)" and "is_double (diff s)" and "0 < diff s" and "diff s \<le> 2 ^ 300"
  using assms js_wf_double by (cases "s_difficulty s"; simp add: share_ok_def rat_of_def del: js_wf.simps)+

lemma foldl_js_add:
  "fsum a (map diff ss) < 2 ^ 1024 \<Longrightarrow> is_double a \<Longrightarrow> 0 \<le> a \<Longrightarrow> \<forall>s \<in> set ss. share_ok s \<Longrightarrow>
     foldl (\<lambda>t s. js_add t (s_difficulty s)) (Num a) ss = Num (fsum a (map diff ss))"
proof (induction ss arbitrary: a)
  case (Cons s ss)
  have s: "s_difficulty s = Num (diff s)" "0 \<le> diff s" "\<forall>s \<in> set ss. 0 \<le> diff s"
    using Cons.prems(4) share_okD by (auto intro: less_imp_le)
  have "0 \<le> rnd (a + diff s)"
    using s Cons.prems by (intro rnd_nonneg) simp
  moreover have "rnd (a + diff s) \<le> fsum (rnd (a + diff s)) (map diff ss)"
    using s by (intro fsum_ge rnd_is_double) auto
  ultimately have "fl (a + diff s) = Num (rnd (a + diff s))" and "0 \<le> rnd (a + diff s)"
    using Cons.prems(1) by (auto simp: fl_def Let_def)
  then show ?case
    using Cons.IH[of "rnd (a + diff s)"] Cons.prems arg_cong[OF s(1), of "js_add (Num a)"]
    by (simp add: rnd_is_double)
qed simp

lemma fsum_small:
  assumes "\<forall>s \<in> set ss. share_ok s" and "int (length ss) \<le> 2 ^ 52"
  shows "fsum 0 (map diff ss) < 2 ^ 1024"
proof -
  let ?T = "fsum 0 (map diff ss)" and ?S = "sum_list (map diff ss)"
  have d: "\<And>d. d \<in> set (map diff ss) \<Longrightarrow> 0 \<le> d \<and> is_double d"
    using assms(1) share_okD by (auto intro: less_imp_le)
  have T: "0 \<le> ?T"
    using fsum_ge[OF _ , of 0 "map diff ss"] d is_double_of_int[of 0] by simp
  have n: "of_nat (length ss) \<le> (2::rat) ^ 52"
    using assms(2) by (metis of_int_le_iff of_int_numeral of_int_of_nat_eq of_int_power)
  then have "of_nat (length ss) * eps \<le> 1 / 2"
    by (simp add: eps_def)
  then have "1 / 2 * ?T \<le> (1 - of_nat (length ss) * eps) * ?T"
    using T by (intro mult_right_mono) auto
  also have "\<dots> \<le> ?S"
    using fsum_bounds_linear(2)[of "map diff ss", OF d] by simp
  also have "?S \<le> (\<Sum>s\<leftarrow>ss. 2 ^ 300)"
    using assms(1) share_okD by (intro sum_list_map_mono_on) auto
  also have "\<dots> = of_nat (length ss) * 2 ^ 300"
    by (simp add: sum_list_triv)
  also have "\<dots> \<le> 2 ^ 52 * 2 ^ 300"
    using n by (rule mult_right_mono) simp
  finally have "?T \<le> 2 ^ 353"
    by simp
  also have "\<dots> < 2 ^ 1024"
    by simp
  finally show ?thesis .
qed

lemma total_difficulty_fsum:
  assumes "\<forall>s \<in> set ss. share_ok s" and "int (length ss) \<le> 2 ^ 52"
  shows "total_difficulty ss = Num (fsum 0 (map diff ss))"
  unfolding total_difficulty_def
  using fsum_small[OF assms] is_double_of_int[of 0] assms(1) by (intro foldl_js_add) auto

lemma fsum_positive:
  assumes "\<forall>s \<in> set ss. share_ok s" and "ss \<noteq> []"
  shows "0 < fsum 0 (map diff ss)"
proof -
  obtain s where s: "s \<in> set ss"
    using assms(2) by (cases ss) auto
  have "diff s \<le> fsum 0 (map diff ss)"
    using assms(1) share_okD is_double_of_int[of 0] s
    by (intro fsum_ge_member) (auto intro: less_imp_le)
  then show ?thesis
    using share_okD(3)[of s] assms(1) s by auto
qed

lemma share_amount_floor:
  assumes "0 \<le> D" and "D \<le> 2 ^ 53" and "share_ok s" and "diff s \<le> T"
  shows "share_amount (IntN D) (Num T) s = IntN (share_floor D (diff s) T)"
proof -
  let ?p = "rnd (diff s / T)"
  have T: "0 < diff s" "0 < T"
    using share_okD(3)[OF assms(3)] assms(4) by auto
  have p: "0 \<le> ?p" "?p \<le> 1"
    using rnd_unit[of "diff s / T"] T assms(4) by auto
  have one: "(1::rat) \<le> 2 powi 1000"
    using pow2_mono[of 0 1000] by simp
  have "fl (diff s / T) = Num ?p"
    using T assms(4) one by (intro fl_small) (auto simp: abs_le_iff divide_le_eq intro: order_trans)
  moreover have "\<bar>of_int D * ?p\<bar> \<le> \<bar>of_int D\<bar>"
    using p by (simp add: abs_mult mult_left_le)
  then have "fl (of_int D * ?p) = Num (rnd (of_int D * ?p))"
    using safe_int_abs_le[of D] assms(1,2) by (intro fl_small) (simp add: safe_int_def)
  ultimately show ?thesis
    using arg_cong[OF share_okD(1)[OF assms(3)], of "\<lambda>d. js_div d (Num T)"] T
    by (simp add: share_amount_def share_floor_def)
qed

section \<open>The split of a block reward\<close>

text \<open>The fee: \<open>Math.floor(R * (1 - f / 100))\<close> is left for the miners.\<close>

definition distributable_int :: "config \<Rightarrow> int \<Rightarrow> int" where
  "distributable_int cfg R = \<lfloor>rnd (of_int R * rnd (1 - rnd (rat_of (getFeePercent cfg) / 100)))\<rfloor>"

lemma fee_factor:
  defines "p cfg \<equiv> rnd (1 - rnd (rat_of (getFeePercent cfg) / 100))"
  shows "0 \<le> p cfg" and "p cfg \<le> 1"
    and "js_sub (Num 1) (js_div (getFeePercent cfg) (Num 100)) = Num (p cfg)"
proof -
  obtain f where f: "getFeePercent cfg = Num f" "0 \<le> f" "f < 100"
    by (rule getFeePercent_range)
  have q: "0 \<le> rnd (f / 100)" "rnd (f / 100) \<le> 1"
    using rnd_unit[of "f / 100"] f by auto
  then show "0 \<le> p cfg" and "p cfg \<le> 1"
    using rnd_unit[of "1 - rnd (f / 100)"] by (auto simp: p_def f rat_of_def)
  have one: "(1::rat) \<le> 2 powi 1000"
    using pow2_mono[of 0 1000] by simp
  have "fl (f / 100) = Num (rnd (f / 100))"
    by (rule fl_small, rule order_trans[OF _ one]) (use f in simp)
  moreover have "fl (1 - rnd (f / 100)) = Num (rnd (1 - rnd (f / 100)))"
    by (rule fl_small, rule order_trans[OF _ one]) (use q in simp)
  ultimately show "js_sub (Num 1) (js_div (getFeePercent cfg) (Num 100)) = Num (p cfg)"
    by (simp add: p_def f rat_of_def js_sub_def)
qed

lemma distributable:
  assumes "0 \<le> R" and "R \<le> 2 ^ 53"
  shows "distributable_sats cfg (IntN R) = IntN (distributable_int cfg R)"
    and "0 \<le> distributable_int cfg R" and "distributable_int cfg R \<le> R"
proof -
  let ?p = "rnd (1 - rnd (rat_of (getFeePercent cfg) / 100))"
  have le: "of_int R * ?p \<le> of_int R" and nn: "0 \<le> of_int R * ?p"
    using fee_factor(1,2)[of cfg] assms by (auto simp: mult_left_le)
  have "fl (of_int R * ?p) = Num (rnd (of_int R * ?p))"
    using safe_int_abs_le[of R] assms le nn by (intro fl_small) (simp add: safe_int_def)
  then show "distributable_sats cfg (IntN R) = IntN (distributable_int cfg R)"
    by (simp add: distributable_sats_def fee_factor(3) distributable_int_def)
  have "rnd (of_int R * ?p) \<le> of_int R"
    using le assms by (intro rnd_le_double is_double_of_int) auto
  then show "0 \<le> distributable_int cfg R" and "distributable_int cfg R \<le> R"
    using rnd_nonneg[OF nn] by (auto simp: distributable_int_def floor_le_iff)
qed

text \<open>What the calculation does, in integers: \<open>xs\<close> are the floored parts of the shares.\<close>

definition share_parts :: "int \<Rightarrow> share list \<Rightarrow> (string \<times> int) list" where
  "share_parts D ss =
     map (\<lambda>s. (s_minerAddress s, share_floor D (diff s) (fsum 0 (map diff ss)))) ss"

definition block_ok :: "int \<Rightarrow> share list \<Rightarrow> bool" where
  "block_ok R ss \<longleftrightarrow> 0 < R \<and> ss \<noteq> [] \<and> (\<forall>s \<in> set ss. share_ok s) \<and> fair_size R (length ss)"

lemma block_okD:
  assumes "block_ok R ss"
  shows "0 \<le> R" "R \<le> 2 ^ 53" "int (length ss) \<le> 2 ^ 52"
    "fair_size (distributable_int cfg R) (length ss)"
proof -
  have f: "fair_size R (length ss)"
    using assms by (simp add: block_ok_def)
  then show R: "0 \<le> R" "R \<le> 2 ^ 53"
    using fair_size_D by auto
  have "2 * (int (length ss) + 3) \<le> (R + 1) * (int (length ss) + 3)"
    using assms by (intro mult_right_mono) (auto simp: block_ok_def)
  then have "2 * (int (length ss) + 3) \<le> 2 ^ 53"
    using f unfolding fair_size_def by (blast intro: order_trans)
  then show "int (length ss) \<le> 2 ^ 52"
    by simp
  have "(distributable_int cfg R + 1) * (int (length ss) + 3) \<le> (R + 1) * (int (length ss) + 3)"
    using distributable(3)[OF R] by (intro mult_right_mono) auto
  then show "fair_size (distributable_int cfg R) (length ss)"
    using f distributable(2)[OF R] unfolding fair_size_def by (blast intro: order_trans)
qed

lemma share_parts_simps:
  "sum_list (map snd (share_parts D ss)) = (\<Sum>d\<leftarrow>map diff ss. share_floor D d (fsum 0 (map diff ss)))"
  "int_sum_of a (share_parts D ss) =
     (\<Sum>d\<leftarrow>map diff (filter (\<lambda>s. s_minerAddress s = a) ss). share_floor D d (fsum 0 (map diff ss)))"
  by (simp_all add: share_parts_def int_sum_of_def filter_map comp_def)

text \<open>The bounds of the parts: all of them, and those of one miner.\<close>

lemma group_positive:
  assumes "\<And>s. s \<in> set ss \<Longrightarrow> share_ok s" and "set gs \<subseteq> set ss" and "gs \<noteq> []"
  shows "0 < sum_list (map diff gs)"
proof -
  obtain s gs' where gs: "gs = s # gs'"
    using assms(3) by (cases gs) auto
  have "0 < diff s" and "0 \<le> sum_list (map diff gs')"
    using assms(1,2) share_okD(3) gs by (auto intro!: sum_list_map_nonneg intro: less_imp_le)
  then show ?thesis
    by (simp add: gs)
qed

lemma int_le_of_scaled:
  assumes "of_int m * (S::rat) < of_int n * S" and "0 < S"
  shows "m < n"
  using assms by simp

lemma parts_bounds:
  fixes cfg :: config and R :: int and ss :: "share list" and a :: string
  assumes "block_ok R ss"
  defines "D \<equiv> distributable_int cfg R" and "gs \<equiv> map diff (filter (\<lambda>s. s_minerAddress s = a) ss)"
    and "S \<equiv> sum_list (map diff ss)"
  shows "\<forall>x \<in> set (share_parts D ss). 0 \<le> snd x"
    and "sum_list (map snd (share_parts D ss)) \<le> D"
    and "D - sum_list (map snd (share_parts D ss)) \<le> int (length ss)"
    and "0 < S"
    and "of_int (int_sum_of a (share_parts D ss)) * S \<le> (of_int D + 1) * sum_list gs"
    and "of_int D * sum_list gs \<le>
           sum_list gs + (of_int (int_sum_of a (share_parts D ss)) + of_nat (length gs)) * S"
proof -
  let ?ds = "map diff ss" and ?A = "sum_list (map snd (share_parts D ss))"
  have ok: "\<forall>s \<in> set ss. share_ok s" "ss \<noteq> []"
    using assms(1) by (auto simp: block_ok_def)
  have size: "fair_size D (length ?ds)" and D: "0 \<le> D" "D \<le> 2 ^ 53"
    using block_okD(4)[OF assms(1), of cfg] fair_size_D by (auto simp: D_def)
  have ds: "\<And>d. d \<in> set ?ds \<Longrightarrow> 0 \<le> d \<and> is_double d"
    using ok share_okD by (auto intro: less_imp_le)
  have T: "0 < fsum 0 ?ds"
    using fsum_positive[OF ok] .
  have le: "d \<le> fsum 0 ?ds" if "d \<in> set ?ds" for d
    using that is_double_of_int[of 0] ds by (intro fsum_ge_member) auto
  show "\<forall>x \<in> set (share_parts D ss). 0 \<le> snd x"
    using share_floor_range[OF D _ le T] ds by (auto simp: share_parts_def)
  show S: "0 < S"
    unfolding S_def using ok by (intro group_positive) auto
  note all = group_bounds[OF size ds refl T order_refl, folded S_def]
  show "?A \<le> D"
    using int_le_of_scaled[OF _ S, of ?A "D + 1"] all(1) S by (simp add: share_parts_simps)
  show "D - ?A \<le> int (length ss)"
    using int_le_of_scaled[OF _ S, of D "1 + (?A + int (length ss))"] all(2) S
    by (simp add: share_parts_simps distrib_right)
  have sub: "set gs \<subseteq> set ?ds"
    by (auto simp: gs_def)
  note part = group_bounds[OF size ds refl T sub, folded S_def]
  have A: "int_sum_of a (share_parts D ss) = (\<Sum>d\<leftarrow>gs. share_floor D d (fsum 0 ?ds))"
    by (simp add: share_parts_simps gs_def)
  have "gs = [] \<or> 0 < sum_list gs"
    unfolding gs_def using ok by (metis filter_is_subset group_positive map_is_Nil_conv)
  then show "of_int (int_sum_of a (share_parts D ss)) * S \<le> (of_int D + 1) * sum_list gs"
    and "of_int D * sum_list gs \<le>
           sum_list gs + (of_int (int_sum_of a (share_parts D ss)) + of_nat (length gs)) * S"
    using part by (auto simp: A)
qed

lemma processBlockFound_int:
  fixes cfg :: config and R :: int and st :: pool_state and now :: int
  defines "ss \<equiv> getSharesInWindow (window_start cfg now) (p_shares st)"
  defines "D \<equiv> distributable_int cfg R" 
  defines "ps \<equiv> share_parts D ss"
  assumes "block_ok R ss"
  shows "\<exists>l'. processBlockFound cfg now h (IntN R) st =
           (st\<lparr>p_ledger := l', p_accounting := Some
              \<lparr>totalFeeSats = fst (get_accounting (p_accounting st)) + (R - D),
               totalDustSats = snd (get_accounting (p_accounting st)) + (D - sum_list (map snd ps))\<rparr>\<rparr>, Inr ()) \<and>
         credited_by ps (p_ledger st) l'"
proof -
  let ?T = "fsum 0 (map diff ss)"
  have ok: "\<forall>s \<in> set ss. share_ok s" "ss \<noteq> []"
    using assms(4) by (auto simp: block_ok_def)
  note R = block_okD(1-3)[OF assms(4)]
  have T: "total_difficulty ss = Num ?T" "0 < ?T"
    using total_difficulty_fsum[OF ok(1) R(3)] fsum_positive[OF ok] by auto
  have D: "distributable_sats cfg (IntN R) = IntN D" "0 \<le> D" "D \<le> R"
    using distributable[OF R(1,2), of cfg] by (simp_all add: D_def)
  note pb = parts_bounds(1-3)[OF assms(4), of cfg, folded D_def, folded ps_def]
  have le: "diff s \<le> ?T" if "s \<in> set ss" for s
    using that is_double_of_int[of 0] ok share_okD by (intro fsum_ge_member) (auto intro: less_imp_le)
  have "map (\<lambda>s. (s_minerAddress s, share_amount (IntN D) (Num ?T) s)) ss = int_items ps"
    using ok(1) le D R(2) by (auto simp: ps_def share_parts_def int_items_def intro!: share_amount_floor)
  moreover obtain ys where ys: "tally (int_items ps) = int_items ys" "\<forall>x \<in> set ys. 0 \<le> snd x"
    "sum_list (map snd ys) = sum_list (map snd ps)" "\<And>a. int_sum_of a ys = int_sum_of a ps"
    using tally_groups[of ps] pb(1,2) D R(2) by (metis order_trans)
  ultimately have tot: "perMinerTotals (IntN D) (Num ?T) ss = int_items ys"
    by (simp add: perMinerTotals_def)
  have nn: "0 \<le> sum_list (map snd ps)"
    using pb(1) by (intro sum_list_map_nonneg) simp
  obtain l' where l': "credit_all now h (int_items ys) (Num 0) (p_ledger st) =
      (l', Inr (IntN (sum_list (map snd ps))))" "credited_by ys (p_ledger st) l'"
    using credit_all_int[of ys 0 now h "p_ledger st"] ys pb(2) D R(2) by auto
  have fee: "js_sub (IntN R) (IntN D) = IntN (R - D)"
    and dust: "js_sub (IntN D) (IntN (sum_list (map snd ps))) = IntN (D - sum_list (map snd ps))"
    using D R nn pb(2) by (simp_all only: js_sub_int safe_int_def)
  have "credited_by ps (p_ledger st) l'"
    using l'(2) ys by (simp add: credited_by_def)
  moreover have "processBlockFound cfg now h (IntN R) st =
      (st\<lparr>p_ledger := l', p_accounting := Some
              \<lparr>totalFeeSats = fst (get_accounting (p_accounting st)) + (R - D),
               totalDustSats = snd (get_accounting (p_accounting st)) + (D - sum_list (map snd ps))\<rparr>\<rparr>, Inr ())"
    unfolding processBlockFound_def Let_def ss_def[symmetric]
    using T D(1) tot l'(1) by (simp only: js_le.simps fee dust prod.case sum.case addFeeAndDust_int) simp
  ultimately show ?thesis
    by blast
qed

section \<open>Conservation and fairness\<close>

text \<open>The accounts before and after a block.\<close>

lemma block_totals:
  assumes "block_ok R (getSharesInWindow (window_start cfg now) (p_shares st))"
  shows "\<exists>st'. processBlockFound cfg now h (IntN R) st = (st', Inr ()) \<and>
           (let fee = fst (get_accounting (p_accounting st)); fee' = fst (get_accounting (p_accounting st'));
                dust = snd (get_accounting (p_accounting st)); dust' = snd (get_accounting (p_accounting st'))
            in total_owed (p_ledger st') + fee' + dust' = total_owed (p_ledger st) + fee + dust + R \<and>
               fee \<le> fee' \<and> fee' \<le> fee + R \<and> dust \<le> dust' \<and>
               dust' \<le> dust + int (length (getSharesInWindow (window_start cfg now) (p_shares st))))"
  using processBlockFound_int[OF assms, of h] parts_bounds(1-3)[OF assms, of cfg]
    distributable(2,3)[of R cfg] block_okD(1,2)[OF assms]
  by (auto simp: credited_by_def get_accounting_def Let_def)

text \<open>
  C2. A block reward is split without loss: for every positive reward \<open>R\<close> and every window of \<open>n\<close>
  shares with \<open>(R + 1) * (n + 3) \<le> 2^53\<close>, the call succeeds, and what it credits to the miners, the
  fee and the dust add up to exactly \<open>R\<close> satoshis, although all of it is computed in
  floating point; the fee lies between 0 and \<open>R\<close>, and the dust is at most one satoshi per share.
\<close>

theorem block_reward_conserved:
  assumes "block_ok R (getSharesInWindow (window_start cfg now) (p_shares st))"
  shows "\<exists>st'. processBlockFound cfg now h (IntN R) st = (st', Inr ()) \<and>
           (let (fee, dust) = get_accounting (p_accounting st);
                (fee', dust') = get_accounting (p_accounting st')
            in (total_owed (p_ledger st') - total_owed (p_ledger st)) + (fee' - fee) + (dust' - dust) = R \<and>
               0 \<le> fee' - fee \<and> fee' - fee \<le> R \<and>
               0 \<le> dust' - dust \<and>
               dust' - dust \<le> int (length (getSharesInWindow (window_start cfg now) (p_shares st))))"
  using block_totals[OF assms, of h] by (auto simp: Let_def split: prod.splits)

text \<open>Two miners of the default window, used by the concrete instances below.\<close>

definition example_pool :: pool_state where
  "example_pool =
     \<lparr>p_shares = record_share 9000000 ''b'' (IntN 300) 5
                  (record_share 8000000 ''a'' (IntN 100) 5 empty_share_log),
      p_ledger = empty_ledger, p_accounting = None\<rparr>"

lemma example_block_ok:
  "block_ok 500000000 (getSharesInWindow (window_start Map.empty 9000001) (p_shares example_pool))"
  by code_simp

theorem block_reward_conserved_witness:
  "\<exists>st'. processBlockFound Map.empty 9000001 5 (IntN 500000000) example_pool = (st', Inr ()) \<and>
           (let (fee, dust) = get_accounting (p_accounting example_pool);
                (fee', dust') = get_accounting (p_accounting st')
            in (total_owed (p_ledger st') - total_owed (p_ledger example_pool)) + (fee' - fee) +
                 (dust' - dust) = 500000000 \<and>
               0 \<le> fee' - fee \<and> fee' - fee \<le> 500000000 \<and> 0 \<le> dust' - dust \<and>
               dust' - dust \<le> int (length (getSharesInWindow (window_start Map.empty 9000001) (p_shares example_pool))))"
  by (rule block_reward_conserved) (rule example_block_ok)

text \<open>The exact weight of a miner: his part of the difficulty of the window.\<close>

definition weight :: "share list \<Rightarrow> string \<Rightarrow> rat" where
  "weight ss a = sum_list (map diff (filter (\<lambda>s. s_minerAddress s = a) ss)) / sum_list (map diff ss)"

definition share_count :: "share list \<Rightarrow> string \<Rightarrow> nat" where
  "share_count ss a = length (filter (\<lambda>s. s_minerAddress s = a) ss)"

text \<open>
  C3. The split is proportional: of the \<open>D = R - fee\<close> satoshis left after the fee, a miner with
  \<open>k\<close> shares and exact weight \<open>w\<close> is credited at most \<open>(D + 1) * w\<close> and at least \<open>(D - 1) * w - k\<close>,
  in spite of the rounding of every sum, quotient and product; nobody's earlier balance changes.
\<close>

theorem block_reward_proportional:
  assumes "block_ok R (getSharesInWindow (window_start cfg now) (p_shares st))"
    and "processBlockFound cfg now h (IntN R) st = (st', r)"
  shows "let ss = getSharesInWindow (window_start cfg now) (p_shares st);
             D = R - (fst (get_accounting (p_accounting st')) - fst (get_accounting (p_accounting st)));
             credited = owed (p_ledger st') a - owed (p_ledger st) a
         in of_int credited \<le> (of_int D + 1) * weight ss a \<and>
            (of_int D - 1) * weight ss a - of_nat (share_count ss a) \<le> of_int credited \<and>
            paid (p_ledger st') a = paid (p_ledger st) a"
proof -
  let ?ss = "getSharesInWindow (window_start cfg now) (p_shares st)"
  let ?D = "distributable_int cfg R"
  let ?A = "of_int (int_sum_of a (share_parts ?D ?ss)) :: rat"
  obtain l' where st': "st' = st\<lparr>p_ledger := l', p_accounting := Some
              \<lparr>totalFeeSats = fst (get_accounting (p_accounting st)) + (R - ?D),
               totalDustSats = snd (get_accounting (p_accounting st)) + (?D - sum_list (map snd (share_parts ?D ?ss)))\<rparr>\<rparr>"
    and l': "credited_by (share_parts ?D ?ss) (p_ledger st) l'"
    using processBlockFound_int[OF assms(1), of h] assms(2) by auto
  have D: "R - (fst (get_accounting (p_accounting st')) - fst (get_accounting (p_accounting st))) = ?D"
    by (simp add: st' get_accounting_def)
  have c: "owed (p_ledger st') a - owed (p_ledger st) a = int_sum_of a (share_parts ?D ?ss)"
    and p: "paid (p_ledger st') a = paid (p_ledger st) a"
    using l' by (simp_all add: st' credited_by_def)
  have "?A \<le> (of_int ?D + 1) * weight ?ss a"
    using parts_bounds(4)[OF assms(1)] parts_bounds(5)[OF assms(1), of a cfg]
    by (simp add: weight_def pos_le_divide_eq)
  moreover have "of_int ?D * weight ?ss a \<le> weight ?ss a + ?A + of_nat (share_count ?ss a)"
    using parts_bounds(4)[OF assms(1)] parts_bounds(6)[OF assms(1), of cfg a]
    by (simp add: weight_def share_count_def field_simps)
  ultimately show ?thesis
    using p by (simp add: Let_def D c left_diff_distrib)
qed

theorem block_reward_proportional_witness:
  "let st' = fst (processBlockFound Map.empty 9000001 5 (IntN 500000000) example_pool);
       ss = getSharesInWindow (window_start Map.empty 9000001) (p_shares example_pool);
       D = 500000000 - (fst (get_accounting (p_accounting st')) - fst (get_accounting (p_accounting example_pool)));
       credited = owed (p_ledger st') ''b'' - owed (p_ledger example_pool) ''b''
   in of_int credited \<le> (of_int D + 1) * weight ss ''b'' \<and>
      (of_int D - 1) * weight ss ''b'' - of_nat (share_count ss ''b'') \<le> of_int credited \<and>
      paid (p_ledger st') ''b'' = paid (p_ledger example_pool) ''b''"
  using block_reward_proportional[OF example_block_ok prod.collapse[symmetric], of 5 "''b''"]
  by (simp only: Let_def)

text \<open>
  The fee is the configured percentage: for every reward up to \<open>2^51\<close> the satoshis kept from the
  miners differ from \<open>R * f / 100\<close> by less than two, whatever the percentage \<open>f\<close> in force.
\<close>

theorem fee_accurate:
  assumes "0 \<le> R" and "R \<le> 2 ^ 51"
  shows "\<exists>D f. distributable_sats cfg (IntN R) = IntN D \<and> getFeePercent cfg = Num f \<and>
           \<bar>of_int (R - D) - of_int R * f / 100\<bar> < 2"
proof -
  obtain f where f: "getFeePercent cfg = Num f" "0 \<le> f" "f < 100"
    by (rule getFeePercent_range)
  let ?q = "rnd (f / 100)" and ?R = "of_int R :: rat"
  let ?p = "rnd (1 - ?q)"
  have q: "0 \<le> ?q" "?q \<le> 1"
    using rnd_unit[of "f / 100"] f by auto
  have p: "0 \<le> ?p" "?p \<le> 1"
    using rnd_unit[of "1 - ?q"] q by auto
  have "?R \<le> of_int (2 ^ 51)"
    using assms(2) by (simp only: of_int_le_iff)
  then have R: "0 \<le> ?R" "?R * eps \<le> 1 / 4"
    using assms(1) by (simp_all add: eps_def)
  have e1: "\<bar>?q - f / 100\<bar> \<le> eps" and e2: "\<bar>?p - (1 - ?q)\<bar> \<le> eps"
    using rnd_abs_error[of "f / 100" 1] rnd_abs_error[of "1 - ?q" 1] f q by simp_all
  then have "\<bar>?p - (1 - f / 100)\<bar> \<le> 2 * eps"
    by linarith
  then have "?R * \<bar>?p - (1 - f / 100)\<bar> \<le> ?R * (2 * eps)"
    using R(1) by (rule mult_left_mono)
  then have a: "\<bar>?R * ?p - ?R * (1 - f / 100)\<bar> \<le> 1 / 2"
    using R by (simp add: abs_mult flip: right_diff_distrib)
  have "?R * ?p \<le> ?R + 1"
    using p R(1) mult_left_le[of ?p ?R] by simp
  then have "\<bar>rnd (?R * ?p) - ?R * ?p\<bar> \<le> eps * (?R + 1)"
    using p R(1) by (intro rnd_abs_error) auto
  also have "\<dots> \<le> 1 / 2"
    using R(2) by (simp add: algebra_simps) (simp add: eps_def)
  finally have b: "\<bar>rnd (?R * ?p) - ?R * ?p\<bar> \<le> 1 / 2" .
  have D: "distributable_int cfg R = \<lfloor>rnd (?R * ?p)\<rfloor>"
    by (simp add: distributable_int_def f rat_of_def)
  have "of_int (distributable_int cfg R) \<le> rnd (?R * ?p)"
    and "rnd (?R * ?p) < of_int (distributable_int cfg R) + 1"
    unfolding D by linarith+
  then have "\<bar>?R - of_int (distributable_int cfg R) - ?R * f / 100\<bar> < 2"
    using a b unfolding right_diff_distrib times_divide_eq_right mult_1_right by linarith
  then show ?thesis
    using distributable(1)[of R cfg] assms f(1) by auto
qed

theorem fee_accurate_witness:
  "\<exists>D f. distributable_sats (Map.empty(''POOL_FEE_PERCENT'' \<mapsto> ''1.5'')) (IntN 500000000) = IntN D \<and>
     getFeePercent (Map.empty(''POOL_FEE_PERCENT'' \<mapsto> ''1.5'')) = Num f \<and>
     \<bar>of_int (500000000 - D) - of_int 500000000 * f / 100\<bar> < 2"
  by (rule fee_accurate) simp_all

text \<open>
  A block found with an empty window loses nothing: the whole reward is booked to the pool's
  dust, and the ledger and the log stay as they are.
\<close>

theorem empty_window_to_pool:
  assumes "getSharesInWindow (window_start cfg now) (p_shares st) = []"
  shows "\<exists>acc. processBlockFound cfg now h (IntN R) st = (st\<lparr>p_accounting := acc\<rparr>, Inr ()) \<and>
           get_accounting acc =
             (fst (get_accounting (p_accounting st)), snd (get_accounting (p_accounting st)) + R)"
  using assms addFeeAndDust_int[of 0 R "p_accounting st"]
  by (intro exI[of _ "fst (addFeeAndDust (Num 0) (IntN R) (p_accounting st))"])
     (simp add: processBlockFound_def total_difficulty_def Let_def, simp add: get_accounting_def)

theorem empty_window_to_pool_witness:
  "\<exists>acc. processBlockFound Map.empty 99000000 5 (IntN 500000000) example_pool =
           (example_pool\<lparr>p_accounting := acc\<rparr>, Inr ()) \<and>
         get_accounting acc =
           (fst (get_accounting (p_accounting example_pool)),
            snd (get_accounting (p_accounting example_pool)) + 500000000)"
  by (rule empty_window_to_pool) code_simp

end
