(* ===== verification/JsValue.thy ===== *)
theory JsValue
  imports JsString
begin

text \<open>
  Dynamically typed values: what \<open>JSON.parse\<close> and the RPC client return, with \<open>undefined\<close> for an
  absent property. Property reads throw on \<open>null\<close> and \<open>undefined\<close>.
\<close>

datatype jsval =
    Undefined
  | Null
  | Bool bool
  | Number jsnum
  | String string
  | Arr "jsval list"
  | Obj "(string \<times> jsval) list"

definition nullish :: "jsval \<Rightarrow> bool" where
  "nullish v \<longleftrightarrow> v = Undefined \<or> v = Null"

text \<open>\<open>o.k\<close> on an object (absent keys are \<open>undefined\<close>); \<open>v?.k\<close> on any value, \<open>v.k\<close> throwing.\<close>

fun jprop :: "string \<Rightarrow> jsval \<Rightarrow> jsval" where
  "jprop k (Obj kvs) = (case map_of kvs k of None \<Rightarrow> Undefined | Some v \<Rightarrow> v)"
| "jprop k _ = Undefined"

definition get_jprop :: "string \<Rightarrow> jsval \<Rightarrow> jsval fallible" where
  "get_jprop k v = (if nullish v then Inl (mk_error ''Cannot read properties of undefined'') else Inr (jprop k v))"

text \<open>Truthiness, \<open>typeof v === 'string'\<close>, \<open>Number.isFinite(v)\<close> (false for anything but a finite number).\<close>

fun truthy_val :: "jsval \<Rightarrow> bool" where
  "truthy_val Undefined = False"
| "truthy_val Null = False"
| "truthy_val (Bool b) = b"
| "truthy_val (Number n) = (n \<noteq> NaN \<and> n \<noteq> Num 0)"
| "truthy_val (String s) = (s \<noteq> [])"
| "truthy_val (Arr _) = True"
| "truthy_val (Obj _) = True"

fun val_string :: "jsval \<Rightarrow> string option" where
  "val_string (String s) = Some s"
| "val_string _ = None"

fun val_finite :: "jsval \<Rightarrow> bool" where
  "val_finite (Number n) = js_is_finite n"
| "val_finite _ = False"

text \<open>
  Arithmetic on an RPC value. The program applies it to the numeric results of the wallet and the
  node; a value that is no number converts to \<open>NaN\<close>, except \<open>null\<close> (0) and booleans.
  (One-element arrays and objects, which JavaScript converts through their text, are not returned
  by these calls.)
\<close>

fun val_num :: "jsval \<Rightarrow> jsnum" where
  "val_num (Number n) = n"
| "val_num Null = Num 0"
| "val_num (Bool b) = (if b then Num 1 else Num 0)"
| "val_num (String s) = to_number s"
| "val_num _ = NaN"

text \<open>The error object a JSON-RPC call throws: any value, read through \<open>e?.code\<close> and \<open>e?.message\<close>.\<close>

definition error_of :: "jsval \<Rightarrow> js_error" where
  "error_of v =
     \<lparr>err_code = (case jprop ''code'' v of
          Number (Num a) \<Rightarrow> if a = of_int \<lfloor>a\<rfloor> then Some \<lfloor>a\<rfloor> else None | _ \<Rightarrow> None),
      err_message = val_string (jprop ''message'' v)\<rparr>"

lemma jprop_Obj [simp]: "jprop k (Obj ((k', v) # kvs)) = (if k = k' then v else jprop k (Obj kvs))"
  by simp

lemma nullish_simps [simp]:
  "nullish Undefined" "nullish Null" "\<not> nullish (Bool b)" "\<not> nullish (Number n)"
  "\<not> nullish (String s)" "\<not> nullish (Arr vs)" "\<not> nullish (Obj kvs)"
  by (simp_all add: nullish_def)

lemma get_jprop_Obj [simp]: "get_jprop k (Obj kvs) = Inr (jprop k (Obj kvs))"
  by (simp add: get_jprop_def)

end
