(* ===== verification/MinerAccountSettings.thy ===== *)
theory MinerAccountSettings
  imports Config JsValue
begin

text \<open>
  The account settings of a miner (\<open>src/ORM/miner-account-settings\<close>): one row per address with
  his payout threshold and his notification flag, created on the first write; and the two
  handlers of \<open>src/controllers/miner-account\<close> on top of it.
\<close>

record settings_row =
  ms_address :: string
  ms_payoutThresholdSatsOverride :: "int option"
  ms_notifyOnPayout :: bool

type_synonym settings_table = "settings_row list"

text \<open>The changes object: a key that is absent, \<open>null\<close>, or set.\<close>

datatype 'a field = Absent | SetNull | SetTo 'a

record settings_changes =
  ch_override :: "int field"
  ch_notify :: "bool field"

section \<open>The service\<close>

definition getSettings :: "string \<Rightarrow> settings_table \<Rightarrow> settings_row option" where
  "getSettings address t = List.find (\<lambda>r. ms_address r = address) t"

definition insert_or_ignore :: "string \<Rightarrow> settings_table \<Rightarrow> settings_table" where
  "insert_or_ignore address t =
     (if \<exists>r \<in> set t. ms_address r = address then t
      else t @ [\<lparr>ms_address = address, ms_payoutThresholdSatsOverride = None, ms_notifyOnPayout = False\<rparr>])"

fun apply_override :: "int field \<Rightarrow> settings_row \<Rightarrow> settings_row" where
  "apply_override Absent r = r"
| "apply_override SetNull r = r\<lparr>ms_payoutThresholdSatsOverride := None\<rparr>"
| "apply_override (SetTo n) r = r\<lparr>ms_payoutThresholdSatsOverride := Some n\<rparr>"

fun apply_notify :: "bool field \<Rightarrow> settings_row \<Rightarrow> settings_row" where
  "apply_notify (SetTo b) r = r\<lparr>ms_notifyOnPayout := b\<rparr>"
| "apply_notify _ r = r"

text \<open>
  The row is inserted first; a \<open>null\<close> flag then violates the \<open>NOT NULL\<close> column, which leaves
  the inserted row behind.
\<close>

definition upsertSettings ::
  "string \<Rightarrow> settings_changes \<Rightarrow> settings_table \<Rightarrow> settings_table \<times> settings_row option fallible" where
  "upsertSettings address changes t =
     (let t1 = insert_or_ignore address t
      in if ch_notify changes = SetNull then (t1, Inl (mk_error ''NOT NULL constraint failed''))
         else let t2 = (if ch_override changes = Absent \<and> ch_notify changes = Absent then t1
                        else update_where (\<lambda>r. ms_address r = address)
                               (\<lambda>r. apply_notify (ch_notify changes) (apply_override (ch_override changes) r)) t1)
              in (t2, Inr (getSettings address t2)))"

definition getOverridesByAddress :: "string list \<Rightarrow> settings_table \<Rightarrow> (string \<times> jsnum) list" where
  "getOverridesByAddress addresses t =
     (if addresses = [] then []
      else [(ms_address r, js_of_int n). r \<leftarrow> t, ms_address r \<in> set addresses,
             n \<leftarrow> (case ms_payoutThresholdSatsOverride r of None \<Rightarrow> [] | Some n \<Rightarrow> [n])])"

definition getNotifyOnPayoutAddresses :: "string list \<Rightarrow> settings_table \<Rightarrow> string list" where
  "getNotifyOnPayoutAddresses addresses t =
     (if addresses = [] then []
      else map ms_address (filter (\<lambda>r. ms_address r \<in> set addresses \<and> ms_notifyOnPayout r) t))"

section \<open>The controller\<close>

record settings_view =
  v_payoutThresholdSatsOverride :: "int option"
  v_notifyOnPayout :: bool
  v_poolDefaultPayoutThresholdSats :: jsnum

definition get_account_settings :: "config \<Rightarrow> string \<Rightarrow> settings_table \<Rightarrow> settings_view" where
  "get_account_settings cfg address t =
     (let s = getSettings address t
      in \<lparr>v_payoutThresholdSatsOverride = (case s of None \<Rightarrow> None | Some r \<Rightarrow> ms_payoutThresholdSatsOverride r),
          v_notifyOnPayout = (case s of None \<Rightarrow> False | Some r \<Rightarrow> ms_notifyOnPayout r),
          v_poolDefaultPayoutThresholdSats = getPoolDefaultThresholdSats cfg\<rparr>)"

text \<open>
  The request body after validation: \<open>UpdateMinerAccountSettingsDto\<close> lets \<open>null\<close> and absent keys
  pass for both fields, and checks an integer of at least 1 and a boolean otherwise.
\<close>

definition dto_ok :: "jsval \<Rightarrow> bool" where
  "dto_ok body \<longleftrightarrow>
     (case jprop ''payoutThresholdSatsOverride'' body of
        Undefined \<Rightarrow> True | Null \<Rightarrow> True
      | Number (Num a) \<Rightarrow> a = of_int \<lfloor>a\<rfloor> \<and> 1 \<le> a
      | _ \<Rightarrow> False) \<and>
     (case jprop ''notifyOnPayout'' body of
        Undefined \<Rightarrow> True | Null \<Rightarrow> True | Bool _ \<Rightarrow> True | _ \<Rightarrow> False)"

definition changes_of :: "jsval \<Rightarrow> settings_changes" where
  "changes_of body =
     \<lparr>ch_override = (case jprop ''payoutThresholdSatsOverride'' body of
          Undefined \<Rightarrow> Absent | Number (Num a) \<Rightarrow> SetTo \<lfloor>a\<rfloor> | _ \<Rightarrow> SetNull),
      ch_notify = (case jprop ''notifyOnPayout'' body of
          Undefined \<Rightarrow> Absent | Bool b \<Rightarrow> SetTo b | _ \<Rightarrow> SetNull)\<rparr>"

definition updateSettings ::
  "config \<Rightarrow> string \<Rightarrow> jsval \<Rightarrow> settings_table \<Rightarrow> settings_table \<times> settings_view fallible" where
  "updateSettings cfg address body t =
     (if \<not> dto_ok body then (t, Inl (mk_error ''Bad Request''))
      else case upsertSettings address (changes_of body) t of
             (t', Inl e) \<Rightarrow> (t', Inl e)
           | (t', Inr None) \<Rightarrow> (t', Inl (mk_error ''Cannot read properties of null''))
           | (t', Inr (Some r)) \<Rightarrow>
               (t', Inr \<lparr>v_payoutThresholdSatsOverride = ms_payoutThresholdSatsOverride r,
                         v_notifyOnPayout = ms_notifyOnPayout r,
                         v_poolDefaultPayoutThresholdSats = getPoolDefaultThresholdSats cfg\<rparr>))"

section \<open>Lemmas\<close>

definition settings_ok :: "settings_table \<Rightarrow> bool" where
  "settings_ok t \<longleftrightarrow> distinct (map ms_address t) \<and>
     (\<forall>r \<in> set t. case ms_payoutThresholdSatsOverride r of None \<Rightarrow> True | Some n \<Rightarrow> 1 \<le> n)"

lemma apply_address [simp]:
  "ms_address (apply_override f r) = ms_address r" "ms_address (apply_notify g r) = ms_address r"
  by (cases f; simp) (cases g; simp)

lemma getSettings_Some: "getSettings a t = Some r \<Longrightarrow> r \<in> set t \<and> ms_address r = a"
  by (auto simp: getSettings_def find_Some_iff)

lemma getSettings_Cons [simp]:
  "getSettings a (r # t) = (if ms_address r = a then Some r else getSettings a t)"
  by (simp add: getSettings_def)

lemma getSettings_Nil [simp]: "getSettings a [] = None"
  by (simp add: getSettings_def)

lemma getSettings_append:
  "getSettings a (t @ t') = (case getSettings a t of None \<Rightarrow> getSettings a t' | Some r \<Rightarrow> Some r)"
  by (induction t) auto

lemma getSettings_None: "getSettings a t = None \<longleftrightarrow> a \<notin> ms_address ` set t"
  by (induction t) auto

lemma getSettings_update:
  assumes "\<And>r. ms_address (f r) = ms_address r"
  shows "getSettings a (update_where (\<lambda>r. ms_address r = b) f t) =
           (if a = b then map_option f (getSettings a t) else getSettings a t)"
  using assms by (induction t) auto

definition fresh_row :: "string \<Rightarrow> settings_row" where
  "fresh_row a = \<lparr>ms_address = a, ms_payoutThresholdSatsOverride = None, ms_notifyOnPayout = False\<rparr>"

lemma getSettings_insert:
  "getSettings a (insert_or_ignore b t) =
     (if a = b then Some (case getSettings a t of None \<Rightarrow> fresh_row a | Some r \<Rightarrow> r) else getSettings a t)"
proof (cases "getSettings b t")
  case None
  then have "insert_or_ignore b t = t @ [fresh_row b]"
    by (auto simp: insert_or_ignore_def fresh_row_def getSettings_None)
  then show ?thesis
    using None by (auto simp: getSettings_append fresh_row_def split: option.splits)
next
  case (Some r)
  then have "insert_or_ignore b t = t"
    using getSettings_Some[of b t r] by (auto simp: insert_or_ignore_def)
  then show ?thesis
    using Some by auto
qed

lemma getSettings_upsert:
  assumes "ch_notify c \<noteq> SetNull"
  shows "getSettings a (fst (upsertSettings b c t)) =
           (if a = b
            then Some (apply_notify (ch_notify c) (apply_override (ch_override c)
                   (case getSettings a t of None \<Rightarrow> fresh_row a | Some r \<Rightarrow> r)))
            else getSettings a t)"
    and "snd (upsertSettings b c t) = Inr (getSettings b (fst (upsertSettings b c t)))"
  using assms
  by (auto simp: upsertSettings_def Let_def getSettings_update getSettings_insert)

lemma settings_ok_insert: "settings_ok t \<Longrightarrow> settings_ok (insert_or_ignore a t)"
  by (auto simp: settings_ok_def insert_or_ignore_def)

lemma settings_ok_update:
  assumes "settings_ok t" and "\<And>r. ms_address (f r) = ms_address r"
    and "\<And>r. (case ms_payoutThresholdSatsOverride r of None \<Rightarrow> True | Some n \<Rightarrow> 1 \<le> n) \<Longrightarrow>
               (case ms_payoutThresholdSatsOverride (f r) of None \<Rightarrow> True | Some n \<Rightarrow> 1 \<le> n)"
  shows "settings_ok (update_where p f t)"
  using assms map_update_where_same[of p ms_address f t]
  by (auto simp: settings_ok_def set_update_where)


definition apply_changes :: "settings_changes \<Rightarrow> settings_row \<Rightarrow> settings_row" where
  "apply_changes c r = apply_notify (ch_notify c) (apply_override (ch_override c) r)"

interpretation settings: upsert_table "\<lambda>c. ch_notify c \<noteq> SetNull" getSettings
  "\<lambda>a c t. fst (upsertSettings a c t)" fresh_row apply_changes
  by unfold_locales (simp add: getSettings_upsert apply_changes_def)

lemma changes_of_ok:
  "dto_ok body \<Longrightarrow> ch_override (changes_of body) = SetTo n \<Longrightarrow> 1 \<le> n"
  by (auto simp: dto_ok_def changes_of_def split: jsval.splits jsnum.splits)

lemma override_positive:
  assumes "\<And>n. ch_override c = SetTo n \<Longrightarrow> 1 \<le> n"
    and "case ms_payoutThresholdSatsOverride r of None \<Rightarrow> True | Some n \<Rightarrow> 1 \<le> n"
  shows "case ms_payoutThresholdSatsOverride (apply_notify (ch_notify c) (apply_override (ch_override c) r)) of
           None \<Rightarrow> True | Some n \<Rightarrow> 1 \<le> n"
  using assms by (cases "ch_notify c"; cases "ch_override c"; auto)

lemma settings_ok_upsert:
  assumes "settings_ok t" and "\<And>n. ch_override c = SetTo n \<Longrightarrow> 1 \<le> n"
  shows "settings_ok (fst (upsertSettings a c t))"
proof -
  have "settings_ok (update_where p (\<lambda>r. apply_notify (ch_notify c) (apply_override (ch_override c) r)) (insert_or_ignore a t))" for p
    by (rule settings_ok_update)
       (use override_positive[OF assms(2)] settings_ok_insert[OF assms(1)] in auto)
  then show ?thesis
    using settings_ok_insert[OF assms(1)] by (auto simp: upsertSettings_def Let_def)
qed

definition settings_view_of :: "config \<Rightarrow> settings_row \<Rightarrow> settings_view" where
  "settings_view_of cfg r =
     \<lparr>v_payoutThresholdSatsOverride = ms_payoutThresholdSatsOverride r,
      v_notifyOnPayout = ms_notifyOnPayout r,
      v_poolDefaultPayoutThresholdSats = getPoolDefaultThresholdSats cfg\<rparr>"

lemma get_account_settings_current:
  "get_account_settings cfg a t = settings_view_of cfg (settings.current a t)"
  by (simp add: get_account_settings_def settings_view_of_def settings.current_def fresh_row_def Let_def
      split: option.splits)

lemma current_insert: "settings.current a (insert_or_ignore b t) = settings.current a t"
  by (auto simp: settings.current_def getSettings_insert)

text \<open>What a request does to the row every reader sees: the changes for its own address, or nothing.\<close>

lemma updateSettings_current:
  assumes "updateSettings cfg b body t = (t', r)"
  shows "settings.current a t' =
           (if a = b \<and> (\<exists>v. r = Inr v) then apply_changes (changes_of body) (settings.current a t)
            else settings.current a t)"
proof (cases "dto_ok body \<and> ch_notify (changes_of body) \<noteq> SetNull")
  case True
  then have legal: "ch_notify (changes_of body) \<noteq> SetNull" by simp
  have t': "t' = fst (upsertSettings b (changes_of body) t)" and "\<exists>v. r = Inr v"
    using assms True getSettings_upsert(2)[OF legal, of b t] getSettings_upsert(1)[OF legal, of b b t]
    by (auto simp: updateSettings_def split: prod.splits sum.splits option.splits)
  then show ?thesis
    using settings.current_upsert[OF legal, of a b t] by auto
next
  case False
  then have "(t' = t \<or> t' = insert_or_ignore b t) \<and> (\<exists>e. r = Inl e)"
    using assms by (auto simp: updateSettings_def upsertSettings_def Let_def split: if_splits)
  then show ?thesis
    by (auto simp: current_insert)
qed

section \<open>Properties\<close>

text \<open>
  A settings request changes only its own miner: whatever the body, the settings read for
  every other address stay as they were; in the own row a key the body does not hold keeps its
  value, a rejected request changes nothing that can be read, an accepted one answers what is
  read afterwards; thresholds stay positive and addresses unique.
\<close>

theorem settings_update_is_local:
  assumes "settings_ok t" and "updateSettings cfg address body t = (t', r)"
  shows "settings_ok t' \<and>
         (a \<noteq> address \<longrightarrow> get_account_settings cfg a t' = get_account_settings cfg a t) \<and>
         (jprop ''payoutThresholdSatsOverride'' body = Undefined \<longrightarrow>
            v_payoutThresholdSatsOverride (get_account_settings cfg address t') =
            v_payoutThresholdSatsOverride (get_account_settings cfg address t)) \<and>
         (jprop ''notifyOnPayout'' body = Undefined \<longrightarrow>
            v_notifyOnPayout (get_account_settings cfg address t') =
            v_notifyOnPayout (get_account_settings cfg address t)) \<and>
         (case r of Inl e \<Rightarrow> get_account_settings cfg address t' = get_account_settings cfg address t
                  | Inr v \<Rightarrow> v = get_account_settings cfg address t')"
proof (intro conjI impI)
  show "settings_ok t'"
  proof (cases "dto_ok body")
    case True
    then have "t' = fst (upsertSettings address (changes_of body) t)"
      using assms(2) by (auto simp: updateSettings_def split: prod.splits sum.splits option.splits)
    then show ?thesis
      using settings_ok_upsert[OF assms(1)] changes_of_ok[OF True] by blast
  qed (use assms in \<open>simp add: updateSettings_def\<close>)
  note cur = updateSettings_current[OF assms(2)]
  show "get_account_settings cfg a t' = get_account_settings cfg a t" if "a \<noteq> address"
    using cur that by (simp add: get_account_settings_current)
  show "v_payoutThresholdSatsOverride (get_account_settings cfg address t') =
        v_payoutThresholdSatsOverride (get_account_settings cfg address t)"
    if "jprop ''payoutThresholdSatsOverride'' body = Undefined"
    using cur that by (cases "ch_notify (changes_of body)")
      (auto simp: get_account_settings_current settings_view_of_def apply_changes_def changes_of_def)
  show "v_notifyOnPayout (get_account_settings cfg address t') =
        v_notifyOnPayout (get_account_settings cfg address t)"
    if "jprop ''notifyOnPayout'' body = Undefined"
    using cur that by (cases "ch_override (changes_of body)")
      (auto simp: get_account_settings_current settings_view_of_def apply_changes_def changes_of_def)
  show "case r of Inl e \<Rightarrow> get_account_settings cfg address t' = get_account_settings cfg address t
                | Inr v \<Rightarrow> v = get_account_settings cfg address t'"
  proof (cases r)
    case (Inl e)
    then show ?thesis using cur by (simp add: get_account_settings_current)
  next
    case (Inr v)
    then obtain row where row: "upsertSettings address (changes_of body) t = (t', Inr (Some row))"
      and v: "v = settings_view_of cfg row"
      using assms(2)
      by (auto simp: updateSettings_def settings_view_of_def split: if_splits prod.splits sum.splits option.splits)
    then have "getSettings address t' = Some row"
      by (auto simp: upsertSettings_def Let_def split: if_splits)
    then show ?thesis
      using Inr v by (simp add: get_account_settings_current settings.current_def)
  qed
qed

theorem settings_update_is_local_witness:
  "let body = Obj [(''payoutThresholdSatsOverride'', Number (Num 5000))];
       t' = fst (updateSettings Map.empty ''a'' body []);
       r = snd (updateSettings Map.empty ''a'' body [])
   in getSettings ''a'' t' \<noteq> None \<and> settings_ok t' \<and>
      get_account_settings Map.empty ''b'' t' = get_account_settings Map.empty ''b'' [] \<and>
      (case r of Inl e \<Rightarrow> get_account_settings Map.empty ''a'' t' = get_account_settings Map.empty ''a'' []
               | Inr v \<Rightarrow> v = get_account_settings Map.empty ''a'' t')"
proof -
  let ?body = "Obj [(''payoutThresholdSatsOverride'', Number (Num 5000))]"
  have "settings_ok []"
    by (simp add: settings_ok_def)
  note fact = settings_update_is_local[OF this prod.collapse[symmetric], of Map.empty "''a''" ?body "''b''"]
  have "getSettings ''a'' (fst (updateSettings Map.empty ''a'' ?body [])) \<noteq> None"
    by code_simp
  then show ?thesis
    using fact by (simp add: Let_def)
qed

end
