(* ===== verification/WalletRpc.thy ===== *)
theory WalletRpc
  imports Config JsValue FloatSums
begin

text \<open>
  The client of the wallet node (\<open>src/services/wallet-rpc.service.ts\<close>). The node itself is code
  outside the repository: it is the parameter \<open>post\<close>, a function of the request and of a state
  \<open>'w\<close> it changes at will, which answers a response body or fails (\<open>Inl\<close>: no connection, time-out).
  Everything the client does with it is modelled: the JSON-RPC envelope, the error rule, the
  unlock/send/lock sequence, the single retry with a fixed fee, the conversion of amounts.
\<close>

type_synonym 'w node = "jsval \<Rightarrow> 'w \<Rightarrow> 'w \<times> jsval fallible"

record wallet_client =
  wc_rpcRequestId :: int
  wc_walletPassphrase :: "string option"
  wc_walletUnlockSeconds :: jsnum

text \<open>What \<open>onModuleInit\<close> keeps of the settings (the HTTP client itself is the parameter).\<close>

definition wallet_client_init :: "config \<Rightarrow> wallet_client" where
  "wallet_client_init cfg =
     \<lparr>wc_rpcRequestId = 0,
      wc_walletPassphrase = (case cfg ''WALLET_PASSPHRASE'' of Some p \<Rightarrow> if p = [] then None else Some p | None \<Rightarrow> None),
      wc_walletUnlockSeconds = positive_setting cfg ''WALLET_UNLOCK_SECONDS'' 60\<rparr>"

text \<open>\<open>WALLET_RPC_*\<close> settings fall back to those of the pool node.\<close>

definition wallet_cfg :: "config \<Rightarrow> string \<Rightarrow> string \<Rightarrow> string option" where
  "wallet_cfg cfg walletKey nodeFallbackKey =
     (case cfg walletKey of Some v \<Rightarrow> Some v | None \<Rightarrow> cfg nodeFallbackKey)"

text \<open>
  The user and password: those of the settings, or the two halves of the cookie file when one is
  named (the second half is missing without a colon). Reading the file is the parameter.
\<close>

definition credentials_from ::
  "(string \<Rightarrow> string fallible) \<Rightarrow> string option \<Rightarrow> string option \<times> string option \<Rightarrow> (string option \<times> string option) fallible" where
  "credentials_from readFile cookiefile userPass =
     (case cookiefile of
        None \<Rightarrow> Inr userPass
      | Some f \<Rightarrow>
          if f = [] then Inr userPass
          else case readFile f of
                 Inl e \<Rightarrow> Inl e
               | Inr contents \<Rightarrow>
                   (case split_on (CHR '':'') (trim contents) of
                      u # p # _ \<Rightarrow> Inr (Some u, Some p)
                    | [u] \<Rightarrow> Inr (Some u, None)
                    | [] \<Rightarrow> Inr (None, None)))"

definition wallet_credentials ::
  "(string \<Rightarrow> string fallible) \<Rightarrow> config \<Rightarrow> (string option \<times> string option) fallible" where
  "wallet_credentials readFile cfg =
     credentials_from readFile (cfg ''WALLET_RPC_COOKIEFILE'')
       (wallet_cfg cfg ''WALLET_RPC_USER'' ''ELEKTRON_RPC_USER'',
        wallet_cfg cfg ''WALLET_RPC_PASSWORD'' ''ELEKTRON_RPC_PASSWORD'')"

section \<open>One call\<close>

definition rpc_request :: "int \<Rightarrow> string \<Rightarrow> jsval list \<Rightarrow> jsval" where
  "rpc_request i m params =
     Obj [(''jsonrpc'', String ''1.0''), (''id'', Number (IntN i)), (''method'', String m), (''params'', Arr params)]"

definition rpc_outcome :: "jsval \<Rightarrow> jsval fallible" where
  "rpc_outcome body =
     (case get_jprop ''error'' body of
        Inl e \<Rightarrow> Inl e
      | Inr err \<Rightarrow> if \<not> nullish err then Inl (error_of err) else Inr (jprop ''result'' body))"

definition callRpc ::
  "'w node \<Rightarrow> string \<Rightarrow> jsval list \<Rightarrow> wallet_client \<times> 'w \<Rightarrow> (wallet_client \<times> 'w) \<times> jsval fallible" where
  "callRpc post m params s =
     (case s of (wc, w) \<Rightarrow>
        let i = wc_rpcRequestId wc + 1
        in case post (rpc_request i m params) w of
             (w', Inl e) \<Rightarrow> ((wc\<lparr>wc_rpcRequestId := i\<rparr>, w'), Inl e)
           | (w', Inr body) \<Rightarrow> ((wc\<lparr>wc_rpcRequestId := i\<rparr>, w'), rpc_outcome body))"

section \<open>Sending a batch\<close>

definition isFeeEstimationFailure :: "js_error \<Rightarrow> bool" where
  "isFeeEstimationFailure e =
     (case err_message e of None \<Rightarrow> False | Some m \<Rightarrow> str_includes ''fee estimation failed'' (to_lower m))"

text \<open>
  The RPC text of an amount: \<open>(n / 1e8).toFixed(8)\<close>. A property assignment on the object
  \<open>amounts\<close> keeps the place of the first assignment of a key.
\<close>

definition amount_text :: "(jsnum \<Rightarrow> string) \<Rightarrow> jsnum \<Rightarrow> string" where
  "amount_text big n = to_fixed big 8 (js_div n (Num 100000000))"

fun set_key :: "string \<Rightarrow> 'v \<Rightarrow> (string \<times> 'v) list \<Rightarrow> (string \<times> 'v) list" where
  "set_key k v [] = [(k, v)]"
| "set_key k v ((k', v') # kvs) = (if k = k' then (k, v) # kvs else (k', v') # set_key k v kvs)"

definition amounts_of :: "(jsnum \<Rightarrow> string) \<Rightarrow> (string \<times> jsnum) list \<Rightarrow> (string \<times> jsval) list" where
  "amounts_of big payouts = foldl (\<lambda>o' (a, n). set_key a (String (amount_text big n)) o') [] payouts"

definition sendmany_params :: "(string \<times> jsval) list \<Rightarrow> jsval list" where
  "sendmany_params amounts = [String [], Obj amounts, Number (Num 1), String ''PPLNS batch payout'']"

definition sendManyWithFeeFallback ::
  "'w node \<Rightarrow> config \<Rightarrow> (string \<times> jsval) list \<Rightarrow> wallet_client \<times> 'w \<Rightarrow>
     (wallet_client \<times> 'w) \<times> jsval fallible" where
  "sendManyWithFeeFallback post cfg amounts s =
     (case callRpc post ''sendmany'' (sendmany_params amounts) s of
        (s1, Inr tx) \<Rightarrow> (s1, Inr tx)
      | (s1, Inl e) \<Rightarrow>
          if \<not> isFeeEstimationFailure e then (s1, Inl e)
          else callRpc post ''sendmany''
                 (sendmany_params amounts @ [Null, Null, Null, Null, Number (getFallbackFeeRateSatsPerVb cfg)]) s1)"

text \<open>\<open>finally\<close>: the wallet is locked again whatever the send did; a failing lock is only logged.\<close>

definition sendManySats ::
  "'w node \<Rightarrow> (jsnum \<Rightarrow> string) \<Rightarrow> config \<Rightarrow> (string \<times> jsnum) list \<Rightarrow> wallet_client \<times> 'w \<Rightarrow>
     (wallet_client \<times> 'w) \<times> jsval fallible" where
  "sendManySats post big cfg payouts s =
     (let amounts = amounts_of big payouts
      in case wc_walletPassphrase (fst s) of
           None \<Rightarrow> sendManyWithFeeFallback post cfg amounts s
         | Some p \<Rightarrow>
             (case callRpc post ''walletpassphrase'' [String p, Number (wc_walletUnlockSeconds (fst s))] s of
                (s1, Inl e) \<Rightarrow> (s1, Inl e)
              | (s1, Inr _) \<Rightarrow>
                  (case sendManyWithFeeFallback post cfg amounts s1 of
                     (s2, r) \<Rightarrow> (fst (callRpc post ''walletlock'' [] s2), r))))"

section \<open>Queries\<close>

definition sats_of_coins :: "jsnum \<Rightarrow> jsnum" where
  "sats_of_coins v = js_round (js_mul v (Num 100000000))"

definition getConfirmations ::
  "'w node \<Rightarrow> string \<Rightarrow> wallet_client \<times> 'w \<Rightarrow> (wallet_client \<times> 'w) \<times> jsval fallible" where
  "getConfirmations post tx s =
     (case callRpc post ''gettransaction'' [String tx] s of
        (s1, Inl e) \<Rightarrow> (s1, Inl e)
      | (s1, Inr v) \<Rightarrow> (s1, (case get_jprop ''confirmations'' v of
                              Inl e \<Rightarrow> Inl e
                            | Inr c \<Rightarrow> Inr (if nullish c then Number (Num 0) else c))))"

definition getWalletBalanceSats ::
  "'w node \<Rightarrow> wallet_client \<times> 'w \<Rightarrow> (wallet_client \<times> 'w) \<times> jsnum fallible" where
  "getWalletBalanceSats post s =
     (case callRpc post ''getbalance'' [] s of
        (s1, Inl e) \<Rightarrow> (s1, Inl e)
      | (s1, Inr v) \<Rightarrow> (s1, Inr (sats_of_coins (val_num v))))"

definition getWalletTotalBalanceSats ::
  "'w node \<Rightarrow> wallet_client \<times> 'w \<Rightarrow> (wallet_client \<times> 'w) \<times> jsnum fallible" where
  "getWalletTotalBalanceSats post s =
     (case callRpc post ''getwalletinfo'' [] s of
        (s1, Inl e) \<Rightarrow> (s1, Inl e)
      | (s1, Inr v) \<Rightarrow>
          (s1, (case (get_jprop ''balance'' v, get_jprop ''immature_balance'' v) of
                  (Inr b, Inr i) \<Rightarrow> Inr (sats_of_coins (js_add (val_num b) (val_num i)))
                | (Inl e, _) \<Rightarrow> Inl e | (_, Inl e) \<Rightarrow> Inl e)))"

section \<open>The requests a call makes\<close>

text \<open>A node that records the methods of the requests it was sent.\<close>

definition request_method :: "jsval \<Rightarrow> string" where
  "request_method r = (case jprop ''method'' r of String m \<Rightarrow> m | _ \<Rightarrow> [])"

definition traced :: "'w node \<Rightarrow> ('w \<times> (string \<times> jsval fallible) list) node" where
  "traced post r wt =
     (case post r (fst wt) of (w', resp) \<Rightarrow> ((w', snd wt @ [(request_method r, resp)]), resp))"

definition trace_of :: "(wallet_client \<times> 'w \<times> (string \<times> jsval fallible) list) \<Rightarrow> (string \<times> jsval fallible) list" where
  "trace_of s = snd (snd s)"

definition outcome_of :: "jsval fallible \<Rightarrow> jsval fallible" where
  "outcome_of resp = (case resp of Inl e \<Rightarrow> Inl e | Inr body \<Rightarrow> rpc_outcome body)"

lemma request_method_simp [simp]: "request_method (rpc_request i m ps) = m"
  by (simp add: request_method_def rpc_request_def)

lemma callRpc_trace:
  assumes "callRpc (traced post) m ps s = (s', r)"
  shows "\<exists>resp. trace_of s' = trace_of s @ [(m, resp)] \<and> r = outcome_of resp"
    and "wc_walletPassphrase (fst s') = wc_walletPassphrase (fst s)"
proof -
  obtain wc w tr where s: "s = (wc, w, tr)"
    by (cases s) auto
  let ?req = "rpc_request (wc_rpcRequestId wc + 1) m ps"
  have "trace_of s' = trace_of s @ [(m, snd (post ?req w))] \<and> r = outcome_of (snd (post ?req w)) \<and>
        wc_walletPassphrase (fst s') = wc_walletPassphrase (fst s)"
    using assms
    by (auto simp: s callRpc_def traced_def trace_of_def outcome_of_def Let_def split: prod.splits sum.splits)
  then show "\<exists>resp. trace_of s' = trace_of s @ [(m, resp)] \<and> r = outcome_of resp"
    and "wc_walletPassphrase (fst s') = wc_walletPassphrase (fst s)"
    by blast+
qed

lemma sendMany_trace:
  assumes "sendManyWithFeeFallback (traced post) cfg amounts s = (s', r)"
  shows "(\<exists>r1. trace_of s' = trace_of s @ [(''sendmany'', r1)] \<and> r = outcome_of r1) \<or>
         (\<exists>r1 r2 e. trace_of s' = trace_of s @ [(''sendmany'', r1), (''sendmany'', r2)] \<and>
            outcome_of r1 = Inl e \<and> isFeeEstimationFailure e \<and> r = outcome_of r2)"
proof -
  obtain s1 o1 where c1: "callRpc (traced post) ''sendmany'' (sendmany_params amounts) s = (s1, o1)"
    by fastforce
  obtain r1 where r1: "trace_of s1 = trace_of s @ [(''sendmany'', r1)]" "o1 = outcome_of r1"
    using callRpc_trace(1)[OF c1] by blast
  show ?thesis
  proof (cases "\<exists>e. o1 = Inl e \<and> isFeeEstimationFailure e")
    case True
    then show ?thesis
      using assms r1 callRpc_trace(1)[of post "''sendmany''" _ s1 s' r]
      by (fastforce simp: sendManyWithFeeFallback_def c1)
  next
    case False
    then show ?thesis
      using assms r1 by (auto simp: sendManyWithFeeFallback_def c1 split: sum.splits)
  qed
qed

section \<open>Amounts\<close>

lemma rnd_coins:
  assumes "0 \<le> n" and "n \<le> 2 ^ 53"
  shows "\<bar>rnd (of_int n / 100000000) * 100000000 - of_int n\<bar> \<le> eps * of_int n"
    and "0 \<le> rnd (of_int n / 100000000)" and "rnd (of_int n / 100000000) \<le> of_int n"
proof -
  let ?x = "of_int n / 100000000 :: rat"
  show nn: "0 \<le> rnd ?x"
    using assms by (intro rnd_nonneg) simp
  show "rnd ?x \<le> of_int n"
    using assms by (intro rnd_le_double is_double_of_int) auto
  show "\<bar>rnd ?x * 100000000 - of_int n\<bar> \<le> eps * of_int n"
  proof (cases "n = 0")
    case False
    have "2 powi (-100) \<le> (1 / 100000000 :: rat)"
      by (simp add: pow2_m100)
    also have "\<dots> \<le> ?x"
      using assms False by (intro divide_right_mono) auto
    finally have "(1 - eps) * ?x \<le> rnd ?x" and "rnd ?x \<le> (1 + eps) * ?x"
      by (rule rnd_near)+
    then show ?thesis
      by (simp add: algebra_simps abs_le_iff)
  qed simp
qed

lemma fl_coins:
  assumes "0 \<le> n" and "n \<le> 2 ^ 53"
  shows "fl (of_int n / 100000000) = Num (rnd (of_int n / 100000000))"
proof -
  have "\<bar>of_int n / 100000000 :: rat\<bar> \<le> \<bar>of_int n\<bar>"
    using assms by simp
  then show ?thesis
    using safe_int_abs_le[of n] assms by (intro fl_small) (simp add: safe_int_def)
qed

lemma eps_int: "n < m \<Longrightarrow> eps * of_int n < of_int m / 2 ^ 53"
  by (simp add: eps_def)

text \<open>
  C14. The decimal text sent to the wallet stands for exactly the ledger's integer: for every amount
  below \<open>2^52\<close> satoshis the rounding of the division by \<open>1e8\<close> and of \<open>toFixed(8)\<close> cancel.
\<close>

theorem amount_text_exact:
  assumes "0 \<le> n" and "n < 2 ^ 52"
  shows "fixed_value (amount_text big (IntN n)) = n"
proof -
  let ?r = "rnd (of_int n / 100000000)"
  have n: "n \<le> 2 ^ 53"
    using assms(2) by simp
  have "of_int n < (of_int (2 ^ 52) :: rat)"
    using assms(2) unfolding of_int_less_iff .
  then have small: "?r < 10 ^ 21"
    using rnd_coins(3)[OF assms(1) n] by simp
  have "\<bar>?r * 10 ^ 8 - of_int n\<bar> < 1 / 2"
    using rnd_coins(1)[OF assms(1) n] eps_int[OF assms(2)] by simp
  then show ?thesis
    using to_fixed_near[OF rnd_coins(2)[OF assms(1) n] small] fl_coins[OF assms(1) n] assms(1)
    by (simp add: amount_text_def fixed_value_text)
qed

theorem amount_text_exact_witness:
  "fixed_value (amount_text (\<lambda>_. []) (IntN 123456789)) = 123456789"
  by (rule amount_text_exact) simp_all

text \<open>
  The balance is read back exactly: when the wallet reports a whole number of satoshis as the
  double nearest to its coin value, \<open>Math.round(balance * 1e8)\<close> is that number, for every balance
  up to 21 million coins.
\<close>

theorem balance_roundtrip:
  assumes "0 \<le> n" and "n \<le> 2100000000000000"
  shows "sats_of_coins (fl (of_int n / 100000000)) = IntN n"
proof -
  let ?r = "rnd (of_int n / 100000000)"
  have n: "n \<le> 2 ^ 53"
    using assms(2) by simp
  have N: "0 \<le> (of_int n :: rat)" "of_int n \<le> (2100000000000000 :: rat)"
    using assms by simp_all
  have e1: "\<bar>?r * 100000000 - of_int n\<bar> \<le> eps * of_int n"
    by (rule rnd_coins(1)[OF assms(1) n])
  have e1': "eps * of_int n \<le> (eps * 2100000000000000 :: rat)"
    using N eps_bounds by (intro mult_left_mono) auto
  have k: "eps * 2100000000000000 < (1 / 4 :: rat)" "eps * 2100000000000001 < (1 / 4 :: rat)"
    by (simp_all add: eps_def)
  have y: "\<bar>?r * 100000000\<bar> \<le> 2100000000000001"
    using e1 e1' k N rnd_coins(2)[OF assms(1) n] by (simp add: abs_le_iff)
  then have e2: "\<bar>rnd (?r * 100000000) - ?r * 100000000\<bar> \<le> eps * 2100000000000001"
    by (rule rnd_abs_error) simp
  have "(2100000000000001 :: rat) \<le> 2 powi 1000"
    using safe_int_abs_le[of 2100000000000001] by (simp add: safe_int_def)
  then have "fl (?r * 100000000) = Num (rnd (?r * 100000000))"
    using y by (intro fl_small) linarith
  moreover have "\<lfloor>rnd (?r * 100000000) + 1 / 2\<rfloor> = n"
    unfolding floor_eq_iff using e1 e1' e2 k unfolding abs_le_iff by linarith
  ultimately show ?thesis
    using fl_coins[OF assms(1) n] by (simp add: sats_of_coins_def)
qed

theorem balance_roundtrip_witness:
  "sats_of_coins (fl (of_int 2099999999999999 / 100000000)) = IntN 2099999999999999"
  by (rule balance_roundtrip) simp_all

section \<open>The sending protocol\<close>

text \<open>
  C11. A batch is sent at most twice, and the second time only after the node has refused the first
  for want of a fee estimate; with an encrypted wallet nothing is sent before it is unlocked, and
  once it is unlocked the last request of the call locks it again, also when sending fails.
\<close>

theorem send_protocol:
  assumes "sendManySats (traced post) big cfg payouts s = (s', r)"
  shows "\<exists>tr. trace_of s' = trace_of s @ tr \<and>
    (let sends = filter (\<lambda>x. fst x = ''sendmany'') tr
     in length sends \<le> 2 \<and>
        (length sends = 2 \<longrightarrow> (\<exists>e. outcome_of (snd (hd sends)) = Inl e \<and> isFeeEstimationFailure e)) \<and>
        (sends \<noteq> [] \<longrightarrow> r = outcome_of (snd (last sends))) \<and>
        (case wc_walletPassphrase (fst s) of
           None \<Rightarrow> tr = sends
         | Some p \<Rightarrow> fst (hd tr) = ''walletpassphrase'' \<and>
             (case outcome_of (snd (hd tr)) of
                Inl e \<Rightarrow> r = Inl e \<and> length tr = 1
              | Inr _ \<Rightarrow> fst (last tr) = ''walletlock'' \<and> tr = hd tr # sends @ [last tr])))"
proof (cases "wc_walletPassphrase (fst s)")
  case None
  then have "sendManyWithFeeFallback (traced post) cfg (amounts_of big payouts) s = (s', r)"
    using assms by (simp add: sendManySats_def)
  from sendMany_trace[OF this] show ?thesis
    using None by auto
next
  case (Some p)
  obtain s1 o1 where c1: "callRpc (traced post) ''walletpassphrase'' [String p, Number (wc_walletUnlockSeconds (fst s))] s = (s1, o1)"
    by fastforce
  obtain u where u: "trace_of s1 = trace_of s @ [(''walletpassphrase'', u)]" "o1 = outcome_of u"
    using callRpc_trace(1)[OF c1] by blast
  show ?thesis
  proof (cases o1)
    case (Inl e)
    then have o: "outcome_of u = Inl e" and "s' = s1" and "r = Inl e"
      using assms u Some by (auto simp: sendManySats_def c1)
    then show ?thesis
      using u(1) Some by (intro exI[of _ "[(''walletpassphrase'', u)]"]) (simp add: o)
  next
    case (Inr v)
    obtain s2 r2 where c2: "sendManyWithFeeFallback (traced post) cfg (amounts_of big payouts) s1 = (s2, r2)"
      by fastforce
    obtain s3 o3 where c3: "callRpc (traced post) ''walletlock'' [] s2 = (s3, o3)"
      by fastforce
    obtain k where k: "trace_of s3 = trace_of s2 @ [(''walletlock'', k)]"
      using callRpc_trace(1)[OF c3] by blast
    have "s' = s3" and "r = r2"
      using assms Inr Some by (auto simp: sendManySats_def c1 c2 c3)
    moreover have "outcome_of u = Inr v"
      using u(2) Inr by simp
    ultimately show ?thesis
      using sendMany_trace[OF c2] u(1) k Some by (elim disjE exE conjE) simp_all
  qed
qed

text \<open>A node whose fee estimation is not available: it refuses the first send and takes the second.\<close>

definition young_node :: "nat node" where
  "young_node r k =
     (if request_method r = ''sendmany'' then
        (if k = 0 then (1, Inr (Obj [(''error'', Obj [(''code'', Number (Num (-6))),
                        (''message'', String ''Fee estimation failed. Fallbackfee is disabled.'')])]))
         else (k + 1, Inr (Obj [(''result'', String ''txid''), (''error'', Null)])))
      else (k, Inr (Obj [(''result'', Null), (''error'', Null)])))"

theorem send_protocol_witness:
  "let s = (wallet_client_init (Map.empty(''WALLET_PASSPHRASE'' \<mapsto> ''secret'')), 0, []);
       res = sendManySats (traced young_node) (\<lambda>_. []) Map.empty [(''a'', Num 5000)] s
   in snd res = Inr (String ''txid'') \<and>
      map fst (trace_of (fst res)) = [''walletpassphrase'', ''sendmany'', ''sendmany'', ''walletlock''] \<and>
      (\<exists>tr. trace_of (fst res) = trace_of s @ tr \<and>
         (let sends = filter (\<lambda>x. fst x = ''sendmany'') tr
          in length sends \<le> 2 \<and>
             (length sends = 2 \<longrightarrow> (\<exists>e. outcome_of (snd (hd sends)) = Inl e \<and> isFeeEstimationFailure e))))"
proof -
  let ?s = "(wallet_client_init (Map.empty(''WALLET_PASSPHRASE'' \<mapsto> ''secret'')), 0 :: nat,
             [] :: (string \<times> jsval fallible) list)"
  let ?res = "sendManySats (traced young_node) (\<lambda>_. []) Map.empty [(''a'', Num 5000)] ?s"
  have "snd ?res = Inr (String ''txid'')"
    by code_simp
  moreover have "map fst (trace_of (fst ?res)) = [''walletpassphrase'', ''sendmany'', ''sendmany'', ''walletlock'']"
    by code_simp
  moreover have "\<exists>tr. trace_of (fst ?res) = trace_of ?s @ tr \<and>
         (let sends = filter (\<lambda>x. fst x = ''sendmany'') tr
          in length sends \<le> 2 \<and>
             (length sends = 2 \<longrightarrow> (\<exists>e. outcome_of (snd (hd sends)) = Inl e \<and> isFeeEstimationFailure e)))"
    using send_protocol[OF prod.collapse[symmetric], of young_node "\<lambda>_. []" Map.empty "[(''a'', Num 5000)]" ?s]
    unfolding Let_def by (elim ex_forward conjE) (intro conjI; assumption)
  ultimately show ?thesis
    unfolding Let_def by (intro conjI)
qed

end
