(* ===== verification/PayoutScheduler.thy ===== *)
theory PayoutScheduler
  imports PayoutLedger WalletRpc MinerAccountSettings
begin

text \<open>
  The payout scheduler (\<open>src/pplns/payout-scheduler.service.ts\<close>): every interval it pays the mature
  balances above the thresholds in one batch, confirms the batches sent earlier, and compares
  the wallet's holdings with what is owed. The wallet node is the parameter \<open>post\<close> of
  \<open>WalletRpc\<close>; \<open>meanwhile\<close> is what other handlers do to the ledger while the calls to the node
  are in flight (blocks found then credit new rows).
\<close>

section \<open>Who is paid\<close>

definition matureUpToHeight :: "config \<Rightarrow> jsnum \<Rightarrow> jsnum" where
  "matureUpToHeight cfg currentHeight = js_add (js_sub currentHeight (getCoinbaseMaturity cfg)) (Num 1)"

definition effective_threshold :: "config \<Rightarrow> (string \<times> jsnum) list \<Rightarrow> string \<Rightarrow> jsnum" where
  "effective_threshold cfg overrides a =
     (case map_of (rev overrides) a of Some v \<Rightarrow> v | None \<Rightarrow> getMinPayoutThresholdSats cfg)"

definition payout_candidates :: "config \<Rightarrow> settings_table \<Rightarrow> jsnum \<Rightarrow> ledger \<Rightarrow> payout_candidate list" where
  "payout_candidates cfg settings currentHeight l =
     (let allPending = getMaturePendingTotals (matureUpToHeight cfg currentHeight) l;
          overrides = getOverridesByAddress (map c_minerAddress allPending) settings
      in filter (\<lambda>c. js_ge (c_totalPendingSats c) (effective_threshold cfg overrides (c_minerAddress c))) allPending)"

definition total_requested :: "payout_candidate list \<Rightarrow> jsnum" where
  "total_requested cs = foldl (\<lambda>s c. js_add s (c_totalPendingSats c)) (Num 0) cs"

definition payout_batch :: "payout_candidate list \<Rightarrow> (string \<times> jsnum) list" where
  "payout_batch cs = map (\<lambda>c. (c_minerAddress c, c_totalPendingSats c)) cs"

definition mark_batch :: "int \<Rightarrow> string option \<Rightarrow> payout_candidate list \<Rightarrow> ledger \<Rightarrow> ledger" where
  "mark_batch now tx cs l = foldl (\<lambda>l c. markSentUpTo now (c_minerAddress c) (c_maxRowId c) tx l) l cs"

section \<open>The payout cycle\<close>

text \<open>
  What a cycle did: nothing to do (with the reason), an exception out of the cycle (logged by the
  timer), a failed batch, or a batch sent, with the notifications for it.
\<close>

datatype payout_outcome =
    NoHeight
  | NoCandidates
  | DryRun
  | Deferred
  | CycleFailed js_error
  | BatchFailed js_error
  | BatchSent "string option" "(string \<times> jsnum) list" "(string \<times> jsnum) list"

definition runPayoutCycle ::
  "'w node \<Rightarrow> (jsnum \<Rightarrow> string) \<Rightarrow> config \<Rightarrow> settings_table \<Rightarrow> jsval \<Rightarrow> (ledger \<Rightarrow> ledger) \<Rightarrow> int \<Rightarrow>
     ledger \<Rightarrow> wallet_client \<times> 'w \<Rightarrow> (ledger \<times> wallet_client \<times> 'w) \<times> payout_outcome" where
  "runPayoutCycle post big cfg settings miningInfo meanwhile now l s =
     (case jprop ''blocks'' miningInfo of
        Number currentHeight \<Rightarrow>
          if \<not> js_is_finite currentHeight then ((l, s), NoHeight)
          else
            (let candidates = payout_candidates cfg settings currentHeight l
             in if candidates = [] then ((l, s), NoCandidates)
                else if isDryRun cfg then ((l, s), DryRun)
                else case getWalletBalanceSats post s of
                       (s1, Inl e) \<Rightarrow> ((l, s1), CycleFailed e)
                     | (s1, Inr spendableSats) \<Rightarrow>
                         if js_lt spendableSats (total_requested candidates) then ((l, s1), Deferred)
                         else (case sendManySats post big cfg (payout_batch candidates) s1 of
                                 (s2, Inl e) \<Rightarrow> ((meanwhile l, s2), BatchFailed e)
                               | (s2, Inr v) \<Rightarrow>
                                   ((mark_batch now (val_string v) candidates (meanwhile l), s2),
                                    BatchSent (val_string v) (payout_batch candidates)
                                      (filter (\<lambda>(a, n). a \<in> set (getNotifyOnPayoutAddresses
                                           (map c_minerAddress candidates) settings))
                                        (payout_batch candidates)))))
      | _ \<Rightarrow> ((l, s), NoHeight))"

section \<open>Confirming sent batches\<close>

text \<open>A failing or throwing query of one transaction is logged and does not stop the others.\<close>

fun reconcile_txids ::
  "'w node \<Rightarrow> jsnum \<Rightarrow> int \<Rightarrow> string list \<Rightarrow> ledger \<Rightarrow> wallet_client \<times> 'w \<Rightarrow> ledger \<times> wallet_client \<times> 'w" where
  "reconcile_txids post required now [] l s = (l, s)"
| "reconcile_txids post required now (tx # txs) l s =
     (case getConfirmations post tx s of
        (s1, Inl e) \<Rightarrow> reconcile_txids post required now txs l s1
      | (s1, Inr c) \<Rightarrow>
          if js_ge (val_num c) required
          then reconcile_txids post required now txs (markConfirmed now tx l) s1
          else reconcile_txids post required now txs l s1)"

definition reconcileSentPayouts ::
  "'w node \<Rightarrow> config \<Rightarrow> int \<Rightarrow> ledger \<Rightarrow> wallet_client \<times> 'w \<Rightarrow> ledger \<times> wallet_client \<times> 'w" where
  "reconcileSentPayouts post cfg now l s =
     reconcile_txids post (getConfirmationsRequired cfg) now (getDistinctSentTxids l) l s"

text \<open>\<open>checkPoolWalletReconciliation\<close>: whether the mismatch alert is raised.\<close>

definition checkPoolWalletReconciliation ::
  "'w node \<Rightarrow> ledger \<Rightarrow> wallet_client \<times> 'w \<Rightarrow> (wallet_client \<times> 'w) \<times> bool" where
  "checkPoolWalletReconciliation post l s =
     (case getWalletTotalBalanceSats post s of
        (s1, Inl e) \<Rightarrow> (s1, False)
      | (s1, Inr balance) \<Rightarrow>
          (s1, js_lt (js_add balance (Num 100000)) (getTotalPendingAcrossAllMiners l)))"

text \<open>The timer: the interval, and that only the first process runs it.\<close>

definition payout_interval_ms :: "config \<Rightarrow> config \<Rightarrow> jsnum option" where
  "payout_interval_ms env cfg =
     (if is_primary_instance env then Some (js_mul (js_mul (getIntervalMinutes cfg) (Num 60)) (Num 1000)) else None)"

section \<open>Marking a batch\<close>

lemma claimed_markSent_other:
  "a \<noteq> b \<Longrightarrow> claimed a m (markSentUpTo now b k tx l) = claimed a m l"
proof -
  assume ab: "a \<noteq> b"
  have "sum_sats (\<lambda>r. claimed_by a m r \<and> \<not> claimed_by b k r) (l_rows l) = claimed a m l"
    unfolding claimed_def using ab by (intro sum_sats_cong) (auto simp: claimed_by_def)
  then show ?thesis
    by (simp add: claimed_def markSentUpTo_def sum_sats_update_where) (simp add: claimed_by_def is_pending_def)
qed

definition claims :: "payout_candidate list \<Rightarrow> ledger \<Rightarrow> string \<Rightarrow> int" where
  "claims cs l a = sum_list (map (\<lambda>c. if c_minerAddress c = a then claimed a (c_maxRowId c) l else 0) cs)"

lemma claims_Nil [simp]: "claims [] l a = 0"
  by (simp add: claims_def)

lemma claims_Cons [simp]:
  "claims (c # cs) l a = (if c_minerAddress c = a then claimed a (c_maxRowId c) l else 0) + claims cs l a"
  by (simp add: claims_def)

lemma claims_markSent_other:
  "b \<notin> c_minerAddress ` set cs \<Longrightarrow> claims cs (markSentUpTo now b k tx l) a = claims cs l a"
proof (induction cs)
  case (Cons c cs)
  then show ?case
    using claimed_markSent_other[of a b] by auto
qed simp

lemma mark_batch_effect:
  "distinct (map c_minerAddress cs) \<Longrightarrow>
     owed (mark_batch now tx cs l) a = owed l a - claims cs l a \<and>
     paid (mark_batch now tx cs l) a = paid l a + claims cs l a"
proof (induction cs arbitrary: l)
  case (Cons c cs)
  have "owed (mark_batch now tx (c # cs) l) a = owed (mark_batch now tx cs (markSentUpTo now (c_minerAddress c) (c_maxRowId c) tx l)) a"
    and "paid (mark_batch now tx (c # cs) l) a = paid (mark_batch now tx cs (markSentUpTo now (c_minerAddress c) (c_maxRowId c) tx l)) a"
    by (simp_all add: mark_batch_def)
  moreover have "claims cs (markSentUpTo now (c_minerAddress c) (c_maxRowId c) tx l) a = claims cs l a"
    using Cons.prems by (intro claims_markSent_other) auto
  ultimately show ?case
    using Cons by (auto simp: step_simps)
qed (simp add: mark_batch_def)

lemma mark_batch_ok: "ledger_ok l \<Longrightarrow> ledger_ok (mark_batch now tx cs l)"
  unfolding mark_batch_def by (induction cs arbitrary: l) (auto intro: ledger_ok_markSent)

section \<open>What happens while the wallet is asked\<close>

definition credits_only :: "ledger \<Rightarrow> ledger \<Rightarrow> bool" where
  "credits_only l l' \<longleftrightarrow>
     (\<exists>new. l_rows l' = l_rows l @ new \<and> (\<forall>r \<in> set new. l_next_id l \<le> l_id r))"

lemma credits_only_refl [simp]: "credits_only l l"
  by (simp add: credits_only_def)

lemma credits_only_insert:
  assumes "credits_only l l'" and "l_next_id l \<le> l_next_id l'"
  shows "credits_only l (insert_credit now a n h l')"
  using assms by (auto simp: credits_only_def insert_credit_def)

lemma claimed_credits_only:
  assumes "credits_only l l'" and "m < l_next_id l"
  shows "claimed a m l' = claimed a m l"
proof -
  obtain new where new: "l_rows l' = l_rows l @ new" "\<forall>r \<in> set new. l_next_id l \<le> l_id r"
    using assms(1) by (auto simp: credits_only_def)
  have "sum_sats (claimed_by a m) new = sum_sats (\<lambda>r. False) new"
    using new(2) assms(2) by (intro sum_sats_cong) (auto simp: claimed_by_def)
  then show ?thesis
    by (simp add: claimed_def new(1))
qed

section \<open>The amounts of a batch\<close>

definition batch_sats :: "(string \<times> jsnum) list \<Rightarrow> string \<Rightarrow> int" where
  "batch_sats batch a = (case map_of batch a of Some (Num x) \<Rightarrow> \<lfloor>x\<rfloor> | _ \<Rightarrow> 0)"

lemma candidate_member:
  "c \<in> set (payout_candidates cfg settings h l) \<Longrightarrow> c \<in> set (getMaturePendingTotals (matureUpToHeight cfg h) l)"
  by (simp add: payout_candidates_def Let_def)

lemma distinct_payout_candidates: "distinct (map c_minerAddress (payout_candidates cfg settings h l))"
  unfolding payout_candidates_def Let_def by (rule distinct_map_filter) (rule distinct_candidates)

lemma candidate_amount:
  assumes "c \<in> set (payout_candidates cfg settings h l)" and "ledger_ok l" and "total_owed l \<le> 2 ^ 53"
  shows "c_totalPendingSats c = IntN (mature_owed (matureUpToHeight cfg h) l (c_minerAddress c))"
proof -
  let ?n = "mature_owed (matureUpToHeight cfg h) l (c_minerAddress c)"
  have "0 \<le> ?n" and "?n \<le> total_owed l"
    using mature_owed_nonneg mature_le_owed owed_le_total assms(2) order_trans by blast+
  then show ?thesis
    using candidate_total[OF candidate_member[OF assms(1)]] assms(3) by (simp add: js_of_int_safe safe_int_def)
qed

lemma claims_batch:
  assumes "ledger_ok l" and "heights_ordered l" and "total_owed l \<le> 2 ^ 53" and "credits_only l l'"
    and "set cs \<subseteq> set (payout_candidates cfg settings h l)" and "distinct (map c_minerAddress cs)"
  shows "claims cs l' a = batch_sats (payout_batch cs) a"
  using assms(5,6)
proof (induction cs)
  case (Cons c cs)
  let ?m = "matureUpToHeight cfg h"
  have c: "c \<in> set (payout_candidates cfg settings h l)"
    using Cons.prems by simp
  have mem: "c \<in> set (getMaturePendingTotals ?m l)"
    using candidate_member[OF c] .
  have "c_maxRowId c < l_next_id l"
    by (rule candidate_max_row[OF mem]) (use assms(1) in \<open>auto simp: ledger_ok_def row_ok_def\<close>)
  then have "claimed (c_minerAddress c) (c_maxRowId c) l' = mature_owed ?m l (c_minerAddress c)"
    using claimed_credits_only[OF assms(4)] claimed_mature[OF assms(2) mem] by simp
  moreover have "a = c_minerAddress c \<Longrightarrow> claims cs l' a = 0"
    using Cons.prems by (induction cs) auto
  ultimately show ?case
    using Cons candidate_amount[OF c assms(1,3)]
    by (auto simp: payout_batch_def batch_sats_def)
qed (simp add: payout_batch_def batch_sats_def)

section \<open>Properties of the cycle\<close>

lemma runPayoutCycle_sent:
  assumes "runPayoutCycle post big cfg settings mi meanwhile now l s = ((l', s'), BatchSent tx batch sent_notes)"
  obtains h where "jprop ''blocks'' mi = Number h" and "js_is_finite h"
    and "batch = payout_batch (payout_candidates cfg settings h l)"
    and "l' = mark_batch now tx (payout_candidates cfg settings h l) (meanwhile l)"
    and "\<exists>s1 v. sendManySats post big cfg batch s1 = (s', Inr v) \<and> tx = val_string v"
  using assms
  by (auto simp: runPayoutCycle_def Let_def split: jsval.splits if_splits prod.splits sum.splits)

text \<open>
  C7. A batch pays exactly what is owed and mature: it names every miner once, with the sum of his
  pending credits up to the mature height, which reaches his threshold; and the ledger moves
  precisely these amounts from owed to paid, for nobody else and nothing more, although new credits
  are written while the wallet is asked. (Credits enter the table in the order of their blocks.)
\<close>

theorem payout_batch_exact:
  assumes "ledger_ok l" and "heights_ordered l" and "total_owed l \<le> 2 ^ 53" and "credits_only l (meanwhile l)"
    and "runPayoutCycle post big cfg settings mi meanwhile now l s = ((l', s'), BatchSent tx batch sent_notes)"
  shows "distinct (map fst batch) \<and>
    (\<forall>x \<in> set batch. \<exists>h. jprop ''blocks'' mi = Number h \<and>
       snd x = IntN (mature_owed (matureUpToHeight cfg h) l (fst x)) \<and>
       js_ge (snd x) (effective_threshold cfg (getOverridesByAddress
         (map c_minerAddress (getMaturePendingTotals (matureUpToHeight cfg h) l)) settings) (fst x))) \<and>
    owed l' a = owed (meanwhile l) a - batch_sats batch a \<and>
    paid l' a = paid (meanwhile l) a + batch_sats batch a"
proof -
  obtain h where h: "jprop ''blocks'' mi = Number h"
    and batch: "batch = payout_batch (payout_candidates cfg settings h l)"
    and l': "l' = mark_batch now tx (payout_candidates cfg settings h l) (meanwhile l)"
    using assms(5) by (rule runPayoutCycle_sent)
  let ?cs = "payout_candidates cfg settings h l"
  have "claims ?cs (meanwhile l) a = batch_sats batch a"
    unfolding batch using assms(1-4) order_refl distinct_payout_candidates by (rule claims_batch)
  then have "owed l' a = owed (meanwhile l) a - batch_sats batch a \<and>
             paid l' a = paid (meanwhile l) a + batch_sats batch a"
    using mark_batch_effect[OF distinct_payout_candidates] by (simp add: l')
  moreover have "distinct (map fst batch)"
    using distinct_payout_candidates by (simp add: batch payout_batch_def comp_def)
  moreover have "snd x = IntN (mature_owed (matureUpToHeight cfg h) l (fst x)) \<and>
       js_ge (snd x) (effective_threshold cfg (getOverridesByAddress
         (map c_minerAddress (getMaturePendingTotals (matureUpToHeight cfg h) l)) settings) (fst x))"
    if mem: "x \<in> set batch" for x
  proof -
    obtain c where c: "c \<in> set ?cs" "x = (c_minerAddress c, c_totalPendingSats c)"
      using mem unfolding batch payout_batch_def set_map by blast
    moreover have "js_ge (c_totalPendingSats c) (effective_threshold cfg (getOverridesByAddress
         (map c_minerAddress (getMaturePendingTotals (matureUpToHeight cfg h) l)) settings) (c_minerAddress c))"
      using c(1) unfolding payout_candidates_def Let_def by simp
    ultimately show ?thesis
      using candidate_amount[OF c(1) assms(1,3)] by simp
  qed
  ultimately show ?thesis
    using h by blast
qed

text \<open>
  A cycle that sends nothing claims nothing: unless the wallet call returned, the ledger after
  the cycle is the ledger of the other handlers, whatever the node, the settings and the height;
  in particular a dry run, a wallet with too little to spend and a failed send leave it alone.
\<close>

theorem no_claim_without_send:
  "case runPayoutCycle post big cfg settings mi meanwhile now l s of
     ((l', s'), out) \<Rightarrow>
       (case out of
          BatchSent tx batch sent_notes \<Rightarrow>
            \<not> isDryRun cfg \<and> (\<exists>s1 v. sendManySats post big cfg batch s1 = (s', Inr v) \<and> tx = val_string v)
        | BatchFailed e \<Rightarrow> l' = meanwhile l
        | _ \<Rightarrow> l' = l)"
proof -
  obtain l' s' out where r: "runPayoutCycle post big cfg settings mi meanwhile now l s = ((l', s'), out)"
    by (metis surj_pair)
  show ?thesis
  proof (cases out)
    case (BatchSent tx batch sent_notes)
    have "\<not> isDryRun cfg"
      using r BatchSent
      by (auto simp: runPayoutCycle_def Let_def split: jsval.splits if_splits prod.splits sum.splits)
    moreover have "\<exists>s1 v. sendManySats post big cfg batch s1 = (s', Inr v) \<and> tx = val_string v"
      using r unfolding BatchSent by (rule runPayoutCycle_sent)
    ultimately show ?thesis
      using r BatchSent by simp
  qed (use r in \<open>auto simp: runPayoutCycle_def Let_def split: jsval.splits if_splits prod.splits sum.splits\<close>)
qed

text \<open>A wallet that pays: it answers the balance, and a transaction id for a batch.\<close>

definition paying_node :: "nat node" where
  "paying_node r k =
     (k + 1, Inr (Obj [(''result'', if request_method r = ''getbalance'' then Number (Num 10)
                                    else String ''txid''), (''error'', Null)]))"

definition example_ledger :: ledger where
  "example_ledger = insert_credit 1 ''b'' 70000 150 (insert_credit 1 ''a'' 250000 100 empty_ledger)"

theorem payout_batch_exact_witness:
  "let mi = Obj [(''blocks'', Number (Num 200))];
       meanwhile = insert_credit 2 ''a'' 5 199;
       s = (wallet_client_init Map.empty, 0);
       res = runPayoutCycle paying_node (\<lambda>_. []) Map.empty [] mi meanwhile 9 example_ledger s
   in \<exists>l' s'. res = ((l', s'), BatchSent (Some ''txid'') [(''a'', Num 250000)] []) \<and>
        owed l' ''a'' = owed (meanwhile example_ledger) ''a'' - 250000 \<and>
        paid l' ''a'' = paid (meanwhile example_ledger) ''a'' + 250000"
proof -
  let ?mi = "Obj [(''blocks'', Number (Num 200))]"
  let ?mw = "insert_credit 2 ''a'' 5 199"
  let ?s = "(wallet_client_init Map.empty, 0 :: nat)"
  let ?res = "runPayoutCycle paying_node (\<lambda>_. []) Map.empty [] ?mi ?mw 9 example_ledger ?s"
  have out: "snd ?res = BatchSent (Some ''txid'') [(''a'', Num 250000)] []"
    by code_simp
  then have r: "?res = ((fst (fst ?res), snd (fst ?res)), BatchSent (Some ''txid'') [(''a'', Num 250000)] [])"
    by (metis prod.collapse)
  have ok: "ledger_ok example_ledger"
    unfolding example_ledger_def by (intro ledger_ok_insert ledger_ok_empty) simp_all
  have ho: "heights_ordered example_ledger"
    by (simp add: heights_ordered_def example_ledger_def insert_credit_def empty_ledger_def)
  have total: "total_owed example_ledger \<le> 2 ^ 53"
    by (simp add: example_ledger_def step_simps) (simp add: total_owed_def empty_ledger_def)
  have co: "credits_only example_ledger (?mw example_ledger)"
    by (rule credits_only_insert) simp_all
  have "batch_sats [(''a'', Num 250000)] ''a'' = 250000"
    by (simp add: batch_sats_def)
  then show ?thesis
    using payout_batch_exact[OF ok ho total co r, of "''a''"] r unfolding Let_def by metis
qed

lemma mature_candidate:
  assumes "ledger_ok l" and "0 < mature_owed m l a"
  obtains c where "c \<in> set (getMaturePendingTotals m l)" and "c_minerAddress c = a"
proof -
  let ?rs = "filter (\<lambda>r. is_pending r \<and> is_mature m r) (l_rows l)"
  have "\<exists>r \<in> set (l_rows l). l_minerAddress r = a \<and> is_pending r \<and> is_mature m r"
  proof (rule ccontr)
    assume "\<not> ?thesis"
    then have "mature_owed m l a = sum_sats (\<lambda>_. False) (l_rows l)"
      unfolding mature_owed_def by (intro sum_sats_cong) auto
    then show False
      using assms(2) by simp
  qed
  then have "candidate_of ?rs a \<in> set (getMaturePendingTotals m l)"
    by (auto simp: getMaturePendingTotals_def group_by_miner_def)
  then show thesis
    by (rule that) (simp add: candidate_of_def)
qed

text \<open>
  C9. Whoever is due is paid: when the node knows the height, the wallet reports enough and accepts the batch, the next cycle
  is a batch that contains every miner whose mature balance reaches his threshold, with the whole
  of that balance, and his account moves by it, also when blocks are found meanwhile.
\<close>

theorem due_balance_paid:
  fixes h :: jsnum and cfg :: config
  defines "m \<equiv> matureUpToHeight cfg h"
  assumes "ledger_ok l" and "heights_ordered l" and "total_owed l \<le> 2 ^ 53" and "credits_only l (meanwhile l)"
    and "jprop ''blocks'' mi = Number h" and "js_is_finite h" and "\<not> isDryRun cfg"
    and "0 < mature_owed m l a"
    and "js_ge (IntN (mature_owed m l a)) (effective_threshold cfg
           (getOverridesByAddress (map c_minerAddress (getMaturePendingTotals m l)) settings) a)"
    and "getWalletBalanceSats post s = (s1, Inr spendable)"
    and "\<not> js_lt spendable (total_requested (payout_candidates cfg settings h l))"
    and "sendManySats post big cfg (payout_batch (payout_candidates cfg settings h l)) s1 = (s2, Inr v)"
  shows "\<exists>l' batch sent_notes.
    runPayoutCycle post big cfg settings mi meanwhile now l s = ((l', s2), BatchSent (val_string v) batch sent_notes) \<and>
    (a, IntN (mature_owed m l a)) \<in> set batch \<and> paid l' a = paid (meanwhile l) a + mature_owed m l a"
proof -
  let ?cs = "payout_candidates cfg settings h l"
  obtain c where c: "c \<in> set (getMaturePendingTotals m l)" "c_minerAddress c = a"
    using assms(2,9) by (rule mature_candidate)
  have sum: "c_totalPendingSats c = IntN (mature_owed m l a)"
    using candidate_total[OF c(1)] mature_owed_nonneg[OF assms(2), of m a] mature_le_owed[OF assms(2), of m a]
      owed_le_total[OF assms(2), of a] assms(4) by (simp add: c(2) js_of_int_safe safe_int_def)
  then have mem: "c \<in> set ?cs"
    using c assms(10) by (simp add: payout_candidates_def Let_def m_def)
  then have inb: "(a, IntN (mature_owed m l a)) \<in> set (payout_batch ?cs)"
    using c(2) sum by (force simp: payout_batch_def)
  have "distinct (map fst (payout_batch ?cs))"
    using distinct_payout_candidates by (simp add: payout_batch_def comp_def)
  then have "batch_sats (payout_batch ?cs) a = mature_owed m l a"
    using inb by (simp add: batch_sats_def)
  then have "paid (mark_batch now (val_string v) ?cs (meanwhile l)) a = paid (meanwhile l) a + mature_owed m l a"
    using mark_batch_effect[OF distinct_payout_candidates] claims_batch[OF assms(2-5) order_refl distinct_payout_candidates]
    by simp
  moreover have "?cs \<noteq> []"
    using mem by auto
  ultimately show ?thesis
    using inb assms(6-8,11-13) by (simp add: runPayoutCycle_def Let_def)
qed

theorem due_balance_paid_witness:
  "let mw = insert_credit 2 ''a'' 5 199;
       res = runPayoutCycle paying_node (\<lambda>_. []) Map.empty [] (Obj [(''blocks'', Number (Num 200))]) mw 9 example_ledger
               (wallet_client_init Map.empty, 0)
   in \<exists>l' s' batch sent_notes. res = ((l', s'), BatchSent (Some ''txid'') batch sent_notes) \<and>
        (''a'', IntN 250000) \<in> set batch \<and> paid l' ''a'' = paid (mw example_ledger) ''a'' + 250000"
proof -
  let ?mw = "insert_credit 2 ''a'' 5 199" and ?s = "(wallet_client_init Map.empty, 0 :: nat)"
  let ?b = "getWalletBalanceSats paying_node ?s"
  let ?sent = "sendManySats paying_node (\<lambda>_. []) Map.empty (payout_batch (payout_candidates Map.empty [] (Num 200) example_ledger)) (fst ?b)"
  have ok: "ledger_ok example_ledger" "heights_ordered example_ledger" "total_owed example_ledger \<le> 2 ^ 53"
    unfolding example_ledger_def
    by (intro ledger_ok_insert ledger_ok_empty, simp_all add: step_simps)
       (simp_all add: heights_ordered_def insert_credit_def empty_ledger_def total_owed_def)
  have co: "credits_only example_ledger (?mw example_ledger)"
    by (rule credits_only_insert) simp_all
  have fin: "js_is_finite (Num 200)" "\<not> isDryRun Map.empty"
    by code_simp+
  have due: "mature_owed (matureUpToHeight Map.empty (Num 200)) example_ledger ''a'' = 250000"
    by code_simp
  have thr: "js_ge (IntN 250000) (effective_threshold Map.empty (getOverridesByAddress (map c_minerAddress
      (getMaturePendingTotals (matureUpToHeight Map.empty (Num 200)) example_ledger)) []) ''a'')"
    by code_simp
  have "snd ?b = Inr (Num 1000000000)" and "snd ?sent = Inr (String ''txid'')"
    by code_simp+
  then have bal: "?b = (fst ?b, Inr (Num 1000000000))" and sent: "?sent = (fst ?sent, Inr (String ''txid''))"
    by (metis prod.collapse)+
  have enough: "\<not> js_lt (Num 1000000000) (total_requested (payout_candidates Map.empty [] (Num 200) example_ledger))"
    by code_simp
  have "jprop ''blocks'' (Obj [(''blocks'', Number (Num 200))]) = Number (Num 200)"
    by simp
  from due_balance_paid[where meanwhile = ?mw and a = "''a''" and settings = "[]",
      OF ok co this fin, unfolded due, OF _ thr bal enough sent]
  show ?thesis
    unfolding Let_def by fastforce
qed

text \<open>
  The conversation of one reconciliation: the node is asked for one transaction after the other, and each
  answer is what it gave in the state the questions before had left it in.
\<close>

fun ask_confirmations ::
  "'w node \<Rightarrow> string list \<Rightarrow> wallet_client \<times> 'w \<Rightarrow> (string \<times> jsval fallible) list \<times> wallet_client \<times> 'w" where
  "ask_confirmations post [] s = ([], s)"
| "ask_confirmations post (tx # txs) s =
     (case getConfirmations post tx s of (s1, r) \<Rightarrow>
        (case ask_confirmations post txs s1 of (answers, s2) \<Rightarrow> ((tx, r) # answers, s2)))"

definition enough :: "jsnum \<Rightarrow> jsval fallible \<Rightarrow> bool" where
  "enough required r \<longleftrightarrow> (case r of Inl e \<Rightarrow> False | Inr c \<Rightarrow> js_ge (val_num c) required)"

definition reported :: "jsnum \<Rightarrow> (string \<times> jsval fallible) list \<Rightarrow> string list" where
  "reported required answers = map fst (filter (\<lambda>(tx, r). enough required r) answers)"

lemma reported_Cons [simp]:
  "reported required ((tx, r) # xs) = (if enough required r then [tx] else []) @ reported required xs"
  by (simp add: reported_def)

lemma set_reported: "tx \<in> set (reported required answers) \<longleftrightarrow> (\<exists>c. (tx, Inr c) \<in> set answers \<and> js_ge (val_num c) required)"
proof (induction answers)
  case (Cons x answers)
  then show ?case
    by (cases x; cases "snd x") (auto simp: enough_def)
qed (simp add: reported_def)

lemma reconcile_txids_answers:
  "ask_confirmations post txs s = (answers, s') \<Longrightarrow>
     reconcile_txids post required now txs l s = (fold (markConfirmed now) (reported required answers) l, s')"
proof (induction txs arbitrary: l s answers)
  case (Cons tx txs)
  then show ?case
    by (auto simp: enough_def split: prod.splits sum.splits)
qed (simp add: reported_def)

lemma reconcile_txids_fold:
  assumes "reconcile_txids post required now txs l s = (l', s')"
  obtains cs where "l' = fold (markConfirmed now) cs l"
  using assms reconcile_txids_answers by (metis prod.collapse prod.inject)

lemma fold_markConfirmed_balances:
  "owed (fold (markConfirmed now) cs l) a = owed l a \<and> paid (fold (markConfirmed now) cs l) a = paid l a"
  by (induction cs arbitrary: l) (simp_all add: step_simps)

lemma fold_markConfirmed_ok: "ledger_ok l \<Longrightarrow> ledger_ok (fold (markConfirmed now) cs l)"
  by (induction cs arbitrary: l) (simp_all add: ledger_ok_markConfirmed)

lemma fold_markConfirmed_rows:
  "l_rows (fold (markConfirmed now) cs l) =
     map (\<lambda>r. if l_status r = SENT \<and> l_txid r \<in> Some ` set cs then r\<lparr>l_status := CONFIRMED, l_updatedAt := now\<rparr> else r)
       (l_rows l)"
proof (induction cs arbitrary: l)
  case (Cons tx cs)
  then show ?case
    by (auto simp: markConfirmed_def update_where_def)
qed (simp add: map_idI)

lemma asked_of: "ask_confirmations post txs s = (answers, s') \<Longrightarrow> map fst answers = txs"
  by (induction txs arbitrary: s answers) (auto split: prod.splits)

text \<open>
  C12. Only confirmed batches are marked confirmed: a reconciliation asks the node once for every transaction of a sent
  row and changes exactly the sent rows for whose transaction the answer it got to that question reports at least the
  required number of confirmations; every other row stays as it is, also when its question failed, and no
  balance moves.
\<close>

theorem only_confirmed_batches_confirmed:
  assumes "reconcileSentPayouts post cfg now l s = (l', s')"
  shows "\<exists>answers. ask_confirmations post (getDistinctSentTxids l) s = (answers, s') \<and>
           l_rows l' = map (\<lambda>r. if l_status r = SENT \<and>
                                   (\<exists>tx c. l_txid r = Some tx \<and> (tx, Inr c) \<in> set answers \<and>
                                      js_ge (val_num c) (getConfirmationsRequired cfg))
                                then r\<lparr>l_status := CONFIRMED, l_updatedAt := now\<rparr> else r) (l_rows l) \<and>
           map fst answers = getDistinctSentTxids l \<and> owed l' a = owed l a \<and> paid l' a = paid l a"
proof -
  obtain answers where ask: "ask_confirmations post (getDistinctSentTxids l) s = (answers, s')"
    and l': "l' = fold (markConfirmed now) (reported (getConfirmationsRequired cfg) answers) l"
    using assms reconcile_txids_answers unfolding reconcileSentPayouts_def by (metis prod.collapse prod.inject)
  have in_reported: "l_txid r \<in> Some ` set (reported (getConfirmationsRequired cfg) answers) \<longleftrightarrow>
      (\<exists>tx c. l_txid r = Some tx \<and> (tx, Inr c) \<in> set answers \<and> js_ge (val_num c) (getConfirmationsRequired cfg))" for r
    by (auto simp: image_iff set_reported)
  show ?thesis
    by (rule exI[of _ answers])
      (simp only: ask asked_of[OF ask] l' fold_markConfirmed_rows in_reported fold_markConfirmed_balances)
qed

text \<open>A node for which a transaction has two confirmations when it is asked the third time, and one before.\<close>

definition maturing_node :: "nat node" where
  "maturing_node r k =
     (k + 1, Inr (Obj [(''result'', Obj [(''confirmations'', Number (if k < 2 then Num 0 else Num 2))]), (''error'', Null)]))"

theorem only_confirmed_batches_confirmed_witness:
  "let l = markSentUpTo 5 ''b'' 2 (Some ''t2'') (markSentUpTo 5 ''a'' 1 (Some ''t1'') example_ledger);
       l' = fst (reconcileSentPayouts maturing_node Map.empty 9 l (wallet_client_init Map.empty, 1))
   in map l_status (l_rows l') = [SENT, CONFIRMED] \<and> owed l' ''a'' = owed l ''a'' \<and> paid l' ''a'' = paid l ''a''"
proof -
  let ?l = "markSentUpTo 5 ''b'' 2 (Some ''t2'') (markSentUpTo 5 ''a'' 1 (Some ''t1'') example_ledger)"
  let ?res = "reconcileSentPayouts maturing_node Map.empty 9 ?l (wallet_client_init Map.empty, 1)"
  have "map l_status (l_rows (fst ?res)) = [SENT, CONFIRMED]"
    by code_simp
  then show ?thesis
    using only_confirmed_batches_confirmed[of maturing_node Map.empty 9 ?l "(wallet_client_init Map.empty, 1)" "fst ?res" "snd ?res" "''a''"]
    unfolding Let_def by auto
qed

section \<open>Two gaps\<close>

text \<open>\<open>mute post\<close>: every request is answered, but with a body that has neither a result nor an error.\<close>

definition mute :: "'w node \<Rightarrow> bool" where
  "mute post \<longleftrightarrow> (\<forall>rq w. \<exists>w' body. post rq w = (w', Inr body) \<and> rpc_outcome body = Inr Undefined)"

lemma mute_call: "mute post \<Longrightarrow> \<exists>s'. callRpc post m ps s = (s', Inr Undefined)"
proof -
  assume m: "mute post"
  obtain wc w where s: "s = (wc, w)" by fastforce
  obtain w' body where "post (rpc_request (wc_rpcRequestId wc + 1) m ps) w = (w', Inr body)" and "rpc_outcome body = Inr Undefined"
    using m unfolding mute_def by blast
  then show ?thesis
    by (simp add: callRpc_def s Let_def)
qed

lemma mute_send: "mute post \<Longrightarrow> \<exists>s'. sendManySats post big cfg batch s = (s', Inr Undefined)"
proof -
  assume m: "mute post"
  have send: "\<exists>s'. sendManyWithFeeFallback post cfg am s = (s', Inr Undefined)" for am s
    using mute_call[OF m, of "''sendmany''" "sendmany_params am" s] by (auto simp: sendManyWithFeeFallback_def)
  show ?thesis
  proof (cases "wc_walletPassphrase (fst s)")
    case None
    then show ?thesis
      using send by (simp add: sendManySats_def)
  next
    case (Some p)
    obtain s1 where "callRpc post ''walletpassphrase'' [String p, Number (wc_walletUnlockSeconds (fst s))] s = (s1, Inr Undefined)"
      using mute_call[OF m] by blast
    moreover obtain s2 where "sendManyWithFeeFallback post cfg (amounts_of big batch) s1 = (s2, Inr Undefined)"
      using send by blast
    ultimately show ?thesis
      using Some by (simp add: sendManySats_def Let_def)
  qed
qed

text \<open>
  C13. A wallet whose answers are empty claims the batch all the same: when the node has told the height and there are
  candidates, but every request to the wallet is answered with a body that has neither a result nor an
  error (what an HTTP 401 or 503 with an empty or plain text is to this client, which accepts every status), then
  the balance is no number, no comparison with it holds the batch back, and the cycle marks the rows of its batch as sent
  although no transaction exists, whether the wallet is encrypted or not.
\<close>

theorem empty_answers_claim_batch:
  assumes "mute post" and "\<not> isDryRun cfg" and "jprop ''blocks'' mi = Number h" and "js_is_finite h"
    and "payout_candidates cfg settings h l \<noteq> []"
  shows "let cs = payout_candidates cfg settings h l
         in \<exists>s' sent_notes. runPayoutCycle post big cfg settings mi id now l s =
              ((mark_batch now None cs l, s'), BatchSent None (payout_batch cs) sent_notes)"
proof -
  obtain s1 where bal: "getWalletBalanceSats post s = (s1, Inr NaN)"
    using mute_call[OF assms(1), of "''getbalance''" "[]" s] by (auto simp: getWalletBalanceSats_def sats_of_coins_def)
  obtain s2 where "sendManySats post big cfg (payout_batch (payout_candidates cfg settings h l)) s1 = (s2, Inr Undefined)"
    using mute_send[OF assms(1)] by blast
  then show ?thesis
    using assms(2-5) bal by (simp add: runPayoutCycle_def Let_def)
qed

text \<open>A proxy that answers everything with the text of an HTTP error, and an encrypted wallet behind it.\<close>

definition error_page :: "nat node" where
  "error_page r k = (k, Inr (String ''503 Service Unavailable''))"

theorem empty_answers_claim_batch_witness:
  "let cs = payout_candidates Map.empty [] (Num 200) example_ledger
   in \<exists>s' sent_notes. runPayoutCycle error_page (\<lambda>_. []) Map.empty [] (Obj [(''blocks'', Number (Num 200))]) id 9 example_ledger
        (wallet_client_init (Map.empty(''WALLET_PASSPHRASE'' \<mapsto> ''pw'')), 0) =
        ((mark_batch 9 None cs example_ledger, s'), BatchSent None (payout_batch cs) sent_notes)"
proof (rule empty_answers_claim_batch)
  show "mute error_page"
    by (simp add: mute_def error_page_def rpc_outcome_def get_jprop_def)
  show "\<not> isDryRun Map.empty" "js_is_finite (Num 200)" "payout_candidates Map.empty [] (Num 200) example_ledger \<noteq> []"
    by code_simp+
qed simp

end
