(* ===== verification/Difficulty.thy ===== *)
theory Difficulty
  imports FloatSums JsString "HOL-Library.Word"
begin

text \<open>
  The difficulty of a header (\<open>src/utils/difficulty.utils.ts\<close>, and the same two methods of
  \<open>StratumV1Client\<close>): the double-SHA256 hash, a parameter here, is read as a little-endian
  256-bit number in double arithmetic, and the difficulty-one target divided by it. The lemmas
  compare the double with the number it stands for.
\<close>

type_synonym bytes = "8 word list"

section \<open>The code\<close>

definition TRUE_DIFF_ONE :: jsnum where
  "TRUE_DIFF_ONE = fl (2695953529101131 * 10 ^ 52)"

text \<open>The loop runs from the last byte, the most significant one, down to the first.\<close>

definition le_step :: "jsnum \<Rightarrow> 8 word \<Rightarrow> jsnum" where
  "le_step n b = js_add (js_mul n (Num 256)) (IntN (uint b))"

definition le256todouble :: "bytes \<Rightarrow> jsnum" where
  "le256todouble target = foldl le_step (Num 0) (rev target)"

definition to_hex :: "bytes \<Rightarrow> string" where
  "to_hex bs = concat (map (\<lambda>b. [digit_char (uint b div 16), digit_char (uint b mod 16)]) bs)"

definition difficulty_of_target :: "jsnum \<Rightarrow> jsnum" where
  "difficulty_of_target target = (if js_eq target (Num 0) then PosInf else js_div TRUE_DIFF_ONE target)"

definition calculateDifficulty :: "(bytes \<Rightarrow> bytes) \<Rightarrow> bytes \<Rightarrow> jsnum \<times> string" where
  "calculateDifficulty hash256 header =
     (let hashResult = hash256 header
      in (difficulty_of_target (le256todouble hashResult), to_hex hashResult))"

section \<open>The number of a hash\<close>

definition be_value :: "bytes \<Rightarrow> int" where
  "be_value bs = foldl (\<lambda>n b. n * 256 + uint b) 0 bs"

definition hash_value :: "bytes \<Rightarrow> int" where
  "hash_value bs = be_value (rev bs)"

lemma be_value_snoc [simp]: "be_value (bs @ [b]) = be_value bs * 256 + uint b"
  by (simp add: be_value_def)

lemma be_value_Nil [simp]: "be_value [] = 0"
  by (simp add: be_value_def)

lemma uint_byte: "0 \<le> uint (b :: 8 word)" "uint (b :: 8 word) < 256"
  using uint_lt2p[of b] by simp_all

lemma byte_rat: "0 \<le> (of_int (uint b) :: rat)" "(of_int (uint b) :: rat) \<le> 255" for b :: "8 word"
proof -
  have "(of_int (uint b) :: rat) \<le> of_int 255"
    unfolding of_int_le_iff using uint_byte(2)[of b] by simp
  then show "(of_int (uint b) :: rat) \<le> 255"
    by simp
  show "0 \<le> (of_int (uint b) :: rat)"
    unfolding of_int_0_le_iff by simp
qed

lemma be_value_bounds: "0 \<le> be_value bs \<and> be_value bs < 256 ^ length bs"
proof (induction bs rule: rev_induct)
  case (snoc b bs)
  then have "be_value bs * 256 + 256 \<le> 256 ^ length bs * 256"
    by linarith
  then show ?case
    using snoc uint_byte[of b] by simp
qed simp

section \<open>The double of a hash\<close>

text \<open>Without overflow the loop stays finite: its value as a rational.\<close>

definition dval :: "bytes \<Rightarrow> rat" where
  "dval bs = foldl (\<lambda>n b. rnd (n * 256 + of_int (uint b))) 0 bs"

lemma dval_snoc [simp]: "dval (bs @ [b]) = rnd (dval bs * 256 + of_int (uint b))"
  by (simp add: dval_def)

lemma dval_Nil [simp]: "dval [] = 0"
  by (simp add: dval_def)

lemma dval_double: "is_double (dval bs)"
  by (induction bs rule: rev_induct) (use is_double_of_int[of 0] in \<open>auto simp: rnd_is_double\<close>)

lemma is_double_times_256: "is_double x \<Longrightarrow> is_double (x * 256)"
proof -
  assume "is_double x"
  then obtain m k where "x = of_int m * 2 powi k" "\<bar>m\<bar> \<le> 2 ^ 53" "-1074 \<le> k"
    by (auto simp: is_double_def)
  moreover have "(2::rat) powi (k + 8) = 2 powi k * 256"
    by (subst pow2_add) (simp add: power_int_def)
  ultimately have "x * 256 = of_int m * 2 powi (k + 8)" "\<bar>m\<bar> \<le> 2 ^ 53" "-1074 \<le> k + 8"
    by simp_all
  then show "is_double (x * 256)"
    unfolding is_double_def by blast
qed

lemma dval_bounds:
  "0 \<le> dval bs \<and> (1 - eps) ^ length bs * of_int (be_value bs) \<le> dval bs \<and>
   dval bs \<le> (1 + eps) ^ length bs * of_int (be_value bs)"
proof (induction bs rule: rev_induct)
  case (snoc b bs)
  let ?n = "length bs" and ?d = "dval bs" and ?v = "of_int (be_value bs) :: rat" and ?b = "of_int (uint b) :: rat"
  have b: "0 \<le> ?b"
    by (rule byte_rat)
  have bd: "is_double ?b"
    by (rule is_double_of_int) (use uint_byte[of b] in simp)
  have "is_double (?d * 256)"
    by (rule is_double_times_256) (rule dval_double)
  then have "\<bar>rnd (?d * 256 + ?b) - (?d * 256 + ?b)\<bar> \<le> eps * \<bar>?d * 256 + ?b\<bar>"
    using bd by (rule rnd_add_error)
  then have err: "(1 - eps) * (?d * 256 + ?b) \<le> rnd (?d * 256 + ?b)" "rnd (?d * 256 + ?b) \<le> (1 + eps) * (?d * 256 + ?b)"
    using snoc b by (auto simp: abs_le_iff algebra_simps)
  have le1: "(1 - eps) ^ ?n \<le> 1" and ge1: "1 \<le> (1 + eps) ^ ?n"
    using eps_bounds by (auto intro: power_le_one one_le_power)
  have "(1 - eps) ^ ?n * ?b \<le> ?b" and "?b \<le> (1 + eps) ^ ?n * ?b"
    using le1 ge1 b mult_right_mono[OF le1 b] mult_right_mono[OF ge1 b] by simp_all
  then have lo: "(1 - eps) ^ ?n * (?v * 256 + ?b) \<le> ?d * 256 + ?b"
    and hi: "?d * 256 + ?b \<le> (1 + eps) ^ ?n * (?v * 256 + ?b)"
    using snoc by (simp_all add: algebra_simps)
  have "(1 - eps) * ((1 - eps) ^ ?n * (?v * 256 + ?b)) \<le> rnd (?d * 256 + ?b)"
    using mult_left_mono[OF lo, of "1 - eps"] eps_bounds err(1) by linarith
  moreover have "rnd (?d * 256 + ?b) \<le> (1 + eps) * ((1 + eps) ^ ?n * (?v * 256 + ?b))"
    using mult_left_mono[OF hi, of "1 + eps"] eps_bounds err(2) by linarith
  moreover have "0 \<le> rnd (?d * 256 + ?b)"
    using snoc b by (intro rnd_nonneg) simp
  ultimately show ?case
    by (simp add: mult.assoc)
qed simp

lemma is_double_power2: "is_double (2 ^ k)"
  using is_double_pow2[of "int k"] by simp

lemma dval_crude: "dval bs \<le> 2 ^ (9 * length bs)"
proof (induction bs rule: rev_induct)
  case (snoc b bs)
  let ?N = "2 ^ (9 * length bs) :: rat"
  note b = byte_rat(2)[of b]
  have "1 \<le> ?N"
    by simp
  then have "dval bs * 256 + of_int (uint b) \<le> ?N * 512"
    using snoc b by linarith
  also have "?N * 512 = 2 ^ (9 * length (bs @ [b]))"
    by (simp add: power_add)
  finally have "rnd (dval bs * 256 + of_int (uint b)) \<le> 2 ^ (9 * length (bs @ [b]))"
    by (rule rnd_le_double) (rule is_double_power2)
  then show ?case
    by simp
qed simp

lemma le256_dval:
  assumes "length target \<le> 32"
  shows "le256todouble target = Num (dval (rev target))"
proof -
  have "length bs \<le> 32 \<Longrightarrow> foldl le_step (Num 0) bs = Num (dval bs)" for bs
  proof (induction bs rule: rev_induct)
    case (snoc b bs)
    let ?d = "dval bs"
    have "?d \<le> 2 ^ (9 * length bs)"
      by (rule dval_crude)
    also have "\<dots> \<le> (2::rat) ^ (9 * 32)"
      using snoc.prems by (intro power_increasing) auto
    finally have d: "0 \<le> ?d" "?d \<le> 2 ^ 288"
      using dval_bounds[of bs] by simp_all
    note b = byte_rat[of b]
    have big: "(2::rat) ^ 300 \<le> 2 powi 1000"
      using pow2_mono[of 300 1000] by (simp add: power_int_numeral)
    have "fl (?d * 256) = Num (?d * 256)"
    proof (rule fl_double)
      show "is_double (?d * 256)"
        by (rule is_double_times_256) (rule dval_double)
      have "?d * 256 \<le> 2 ^ 300"
        using d(2) by simp
      then show "\<bar>?d * 256\<bar> \<le> 2 powi 1000"
        using d(1) big by simp
    qed
    moreover have "?d * 256 + of_int (uint b) \<le> 2 ^ 300"
      using d(2) b(2) by simp
    then have "fl (?d * 256 + of_int (uint b)) = Num (rnd (?d * 256 + of_int (uint b)))"
      using d(1) b(1) big by (intro fl_small) simp
    ultimately show ?case
      using snoc by (simp add: le_step_def)
  qed simp
  then show ?thesis
    using assms by (simp add: le256todouble_def)
qed

section \<open>Smaller hashes have larger difficulties\<close>

text \<open>
  Once a digit has been lost to rounding the number is above \<open>2^53\<close>, and then a further digit
  cannot change the rounding: it is below half a unit of the last place.
\<close>

lemma dval_int: "\<exists>n. dval bs = of_int n \<and> 0 \<le> n"
proof (induction bs rule: rev_induct)
  case (snoc b bs)
  then obtain n where n: "dval bs = of_int n" "0 \<le> n" by blast
  obtain m where m: "rnd (of_int (n * 256 + uint b)) = of_int m"
    using rnd_of_int_Ints by blast
  have "(0::rat) \<le> of_int m"
    unfolding m[symmetric] using n(2) by (intro rnd_nonneg) (simp only: of_int_0_le_iff, simp)
  then show ?case
    using m n by (intro exI[of _ m]) (simp only: dval_snoc of_int_add of_int_mult of_int_numeral of_int_0_le_iff)
qed (auto intro: exI[of _ 0])

text \<open>A double of at least \<open>2 ^ 53\<close>, shifted by a byte, is a multiple of its unit in the last place and has room for one more.\<close>

lemma shifted_units:
  assumes "is_double x" and "2 ^ 53 \<le> x"
  obtains e m where "61 \<le> e" and "2 powi e \<le> x * 256" and "x * 256 = of_int m * 2 powi (e - 52)"
    and "x * 256 + 2 powi (e - 52) \<le> 2 powi (e + 1)"
proof -
  define e where "e = flog2 (x * 256)"
  have pos: "0 < x * 256"
    using assms(2) by auto
  have "(2::rat) powi 61 \<le> x * 256"
    using assms(2) by (simp add: power_int_numeral)
  then have e: "61 \<le> e" "2 powi e \<le> x * 256" "x * 256 < 2 powi (e + 1)"
    using flog2_bounds[OF pos] flog2_le_iff[OF pos] by (simp_all add: e_def)
  have "rnd (x * 256) = x * 256" and "ulp_exp (x * 256) = e - 52"
    using assms(1) e(1) pos by (auto simp: ulp_exp_def e_def intro: rnd_exact is_double_times_256)
  then obtain m where m: "x * 256 = of_int m * 2 powi (e - 52)"
    using pos by (metis rnd_def not_less_iff_gr_or_eq)
  have sh: "53 + (e - 52) = e + 1"
    by simp
  have "of_int m * 2 powi (e - 52) < (2::rat) powi (53 + (e - 52))"
    unfolding sh using e(3) m by simp
  then have "of_int m < (2::rat) powi 53"
    unfolding pow2_add by (simp only: mult_less_cancel_right_pos pow2_pos)
  then have "of_int m < (of_int (2 ^ 53) :: rat)"
    by (simp add: power_int_numeral)
  then have "m + 1 \<le> 2 ^ 53"
    unfolding of_int_less_iff by simp
  then have "of_int (m + 1) * 2 powi (e - 52) \<le> of_int (2 ^ 53) * (2 powi (e - 52) :: rat)"
    by (intro mult_right_mono) (simp_all only: of_int_le_iff pow2_pos less_imp_le)
  also have "\<dots> = 2 powi (53 + (e - 52))"
    unfolding pow2_add by (simp add: power_int_numeral)
  finally have "x * 256 + 2 powi (e - 52) \<le> 2 powi (e + 1)"
    unfolding sh using m by (simp add: algebra_simps)
  with e m show thesis
    using that by blast
qed

lemma large_digit:
  assumes "is_double x" and "2 ^ 53 \<le> x" and "0 \<le> b" and "b \<le> 255"
  shows "rnd (x * 256 + b) = x * 256"
proof -
  let ?y = "x * 256 + b"
  obtain e m where e: "61 \<le> e" "2 powi e \<le> x * 256" and m: "x * 256 = of_int m * 2 powi (e - 52)"
    and top: "x * 256 + 2 powi (e - 52) \<le> 2 powi (e + 1)"
    by (rule shifted_units[OF assms(1,2)])
  have pos: "0 < ?y"
    using assms(2,3) by auto
  have u: "(512::rat) \<le> 2 powi (e - 52)"
    using pow2_mono[of 9 "e - 52"] e(1) by (simp add: power_int_numeral)
  have "?y < 2 powi (e + 1)" and "2 powi e \<le> ?y"
    using top u e(2) assms(3,4) by linarith+
  then have ulp: "ulp_exp ?y = e - 52"
    using flog2_eqI[of e ?y] e(1) pos by (simp add: ulp_exp_def)
  have "b / 2 powi (e - 52) \<le> 255 / 512"
    using assms(3,4) u by (intro frac_le) auto
  moreover have "0 \<le> b / 2 powi (e - 52)"
    using assms(3) by simp
  moreover have "?y / 2 powi (e - 52) = of_int m + b / 2 powi (e - 52)"
    using m by (simp add: add_divide_distrib)
  ultimately have "round_half_even (?y / 2 powi (e - 52)) = m"
    by (intro round_half_even_near) (unfold abs_less_iff, linarith)
  then have "rnd ?y = of_int m * 2 powi (e - 52)"
    using pos by (simp add: rnd_def Let_def ulp del: distrib_right)
  then show ?thesis
    using m by simp
qed

lemma rnd_int_less:
  assumes "x < y" and "x = of_int m" and "y = of_int n" and "0 \<le> x"
  shows "rnd x < rnd y \<or> (rnd x = rnd y \<and> 2 ^ 53 \<le> rnd y)"
proof (cases "n \<le> 2 ^ 53")
  case True
  have "m < n" and "0 \<le> m"
    using assms by simp_all
  then show ?thesis
    using True assms by (simp add: rnd_of_int)
next
  case False
  then have "(of_int (2 ^ 53) :: rat) \<le> of_int n"
    unfolding of_int_le_iff by simp
  then have "2 ^ 53 \<le> y"
    by (simp add: assms(3))
  then have "2 ^ 53 \<le> rnd y"
    by (rule double_le_rnd[OF _ is_double_power2])
  then show ?thesis
    using rnd_mono[of x y] assms(1) by auto
qed

lemma dval_snoc_less:
  assumes "dval bs = of_int n" and "dval cs = of_int m" and "0 \<le> n"
    and "n * 256 + uint b < m * 256 + uint c"
  shows "dval (bs @ [b]) < dval (cs @ [c]) \<or> (dval (bs @ [b]) = dval (cs @ [c]) \<and> 2 ^ 53 \<le> dval (cs @ [c]))"
proof -
  let ?x = "dval bs * 256 + of_int (uint b)" and ?y = "dval cs * 256 + of_int (uint c)"
  have xy: "?x = of_int (n * 256 + uint b)" "?y = of_int (m * 256 + uint c)" "0 \<le> ?x"
    using assms(1-3) byte_rat[of b] by simp_all
  then have "?x < ?y"
    using assms(4) unfolding xy of_int_less_iff by simp
  from rnd_int_less[OF this xy] show ?thesis
    by simp
qed

lemma dval_mono_aux:
  assumes "length bs = length cs" and "be_value bs \<le> be_value cs"
  shows "dval bs < dval cs \<or> (dval bs = dval cs \<and> (be_value bs = be_value cs \<or> 2 ^ 53 \<le> dval cs))"
  using assms
proof (induction bs arbitrary: cs rule: rev_induct)
  case (snoc b bs)
  obtain cs' c where cs: "cs = cs' @ [c]" "length bs = length cs'"
    using snoc.prems(1) by (cases cs rule: rev_cases) auto
  have le: "be_value bs * 256 + uint b \<le> be_value cs' * 256 + uint c"
    using snoc.prems(2) cs by simp
  then have "be_value bs \<le> be_value cs'"
    using uint_byte[of b] uint_byte[of c] by linarith
  note IH = snoc.IH[OF cs(2) this]
  obtain n n' where n: "dval bs = of_int n" "0 \<le> n" and n': "dval cs' = of_int n'" "0 \<le> n'"
    using dval_int by metis
  note step = dval_snoc_less[OF n(1) n'(1) n(2)]
  consider "dval bs < dval cs'" | "dval bs = dval cs'" "2 ^ 53 \<le> dval cs'"
    | "dval bs = dval cs'" "be_value bs = be_value cs'" "uint b < uint c"
    | "dval bs = dval cs'" "be_value bs = be_value cs'" "uint b = uint c"
    using IH le by fastforce
  then show ?case
  proof cases
    case 1
    then have "n + 1 \<le> n'"
      using n n' by simp
    then have "n * 256 + uint b < n' * 256 + uint c"
      using uint_byte[of b] uint_byte[of c] by linarith
    from step[OF this] show ?thesis
      by (auto simp: cs)
  next
    case 2
    then have "dval (bs @ [b]) = dval cs' * 256" and "dval cs = dval cs' * 256"
      using large_digit[OF dval_double] byte_rat by (simp_all add: cs)
    with 2(2) show ?thesis
      by simp
  next
    case 3
    then have "n * 256 + uint b < n' * 256 + uint c"
      using n n' by simp
    from step[OF this] show ?thesis
      by (auto simp: cs)
  qed (simp add: cs)
qed simp

lemma dval_mono: "length bs = length cs \<Longrightarrow> be_value bs \<le> be_value cs \<Longrightarrow> dval bs \<le> dval cs"
  using dval_mono_aux[of bs cs] by auto

lemma dval_pos: "0 < be_value bs \<Longrightarrow> 0 < dval bs"
proof -
  assume "0 < be_value bs"
  then have "0 < (1 - eps) ^ length bs * (of_int (be_value bs) :: rat)"
    using eps_bounds by simp
  then show "0 < dval bs"
    using dval_bounds[of bs] by linarith
qed

definition one_target :: rat where
  "one_target = rnd (2695953529101131 * 10 ^ 52)"

lemma one_target_near:
  "(1 - eps) * (2695953529101131 * 10 ^ 52) \<le> one_target"
  "one_target \<le> (1 + eps) * (2695953529101131 * 10 ^ 52)"
  unfolding one_target_def by (rule rnd_near; simp add: pow2_m100)+

lemma one_target_pos: "0 < one_target"
  using one_target_near(1) eps_bounds
  by (intro less_le_trans[OF _ one_target_near(1)]) simp

lemma TRUE_DIFF_ONE_Num: "TRUE_DIFF_ONE = Num one_target"
proof -
  have "(2695953529101131 * 10 ^ 52 :: rat) \<le> 2 ^ 300"
    by simp
  also have "\<dots> \<le> 2 powi 1000"
    using pow2_mono[of 300 1000] by (simp add: power_int_numeral)
  finally show ?thesis
    unfolding TRUE_DIFF_ONE_def one_target_def by (intro fl_small) simp
qed

lemma one_target_bounds: "2 ^ 224 \<le> 2 * one_target" "one_target \<le> 2 ^ 300"
proof -
  have "(2::rat) ^ 224 \<le> 2 * ((1 - eps) * (2695953529101131 * 10 ^ 52))"
    by (simp add: eps_def)
  then show "2 ^ 224 \<le> 2 * one_target"
    using one_target_near(1) by linarith
  have "(1 + eps) * (2695953529101131 * 10 ^ 52) \<le> 2 ^ 300"
    by (simp add: eps_def)
  then show "one_target \<le> 2 ^ 300"
    using one_target_near(2) by linarith
qed

lemma difficulty_of_hash:
  assumes "length h \<le> 32"
  shows "difficulty_of_target (le256todouble h) =
           (if hash_value h = 0 then PosInf else Num (rnd (one_target / dval (rev h))))"
proof (cases "hash_value h = 0")
  case True
  then have "dval (rev h) = 0"
    using dval_bounds[of "rev h"] by (simp add: hash_value_def)
  then show ?thesis
    using True by (simp add: difficulty_of_target_def le256_dval[OF assms] js_eq_def)
next
  case False
  then have "0 < be_value (rev h)"
    using be_value_bounds[of "rev h"] by (simp add: hash_value_def)
  then have pos: "0 < dval (rev h)"
    by (rule dval_pos)
  obtain n where n: "dval (rev h) = of_int n"
    using dval_int by metis
  then have "1 \<le> dval (rev h)"
    using pos by simp
  then have "one_target / dval (rev h) \<le> one_target"
    using one_target_pos by (simp add: divide_le_eq)
  also have "\<dots> \<le> 2 powi 1000"
    using one_target_bounds(2) pow2_mono[of 300 1000] by (simp add: power_int_numeral)
  finally have "fl (one_target / dval (rev h)) = Num (rnd (one_target / dval (rev h)))"
    using pos one_target_pos by (intro fl_small) simp
  then show ?thesis
    using False pos by (simp add: difficulty_of_target_def le256_dval[OF assms] js_eq_def TRUE_DIFF_ONE_Num)
qed

text \<open>
  A smaller hash is never rated lower: for two hashes of 32 bytes, read as little-endian
  numbers, the difficulty computed for the smaller one is at least that of the larger one (the
  zero hash is rated infinite), although the 256-bit numbers are accumulated in a double.
\<close>

theorem difficulty_antimono:
  assumes "length (hash256 a) = 32" and "length (hash256 b) = 32"
    and "hash_value (hash256 a) \<le> hash_value (hash256 b)"
  shows "js_le (fst (calculateDifficulty hash256 b)) (fst (calculateDifficulty hash256 a))"
proof (cases "hash_value (hash256 a) = 0")
  case True
  then show ?thesis
    using assms(1,2) by (simp add: calculateDifficulty_def difficulty_of_hash Let_def)
next
  case False
  then have pos: "0 < dval (rev (hash256 a))" and nz: "hash_value (hash256 b) \<noteq> 0"
    using be_value_bounds[of "rev (hash256 a)"] assms(3) by (auto simp: hash_value_def intro: dval_pos)
  have "dval (rev (hash256 a)) \<le> dval (rev (hash256 b))"
    using assms by (intro dval_mono) (simp_all add: hash_value_def)
  then have "one_target / dval (rev (hash256 b)) \<le> one_target / dval (rev (hash256 a))"
    using pos one_target_pos by (intro divide_left_mono) auto
  then show ?thesis
    using assms(1,2) False nz rnd_mono by (simp add: calculateDifficulty_def difficulty_of_hash Let_def)
qed

theorem difficulty_antimono_witness:
  "js_le (fst (calculateDifficulty (\<lambda>x. x @ replicate 31 0) [7]))
         (fst (calculateDifficulty (\<lambda>x. x @ replicate 31 0) [3]))"
  by (rule difficulty_antimono) (simp_all add: hash_value_def be_value_def)

text \<open>The accumulated double is within 32 relative roundings of the hash's number.\<close>

lemma dval_near_hash:
  assumes "length h = 32" and "hash_value h \<noteq> 0"
  shows "0 < dval (rev h)" and "(1 - 32 * eps) * of_int (hash_value h) \<le> dval (rev h)"
    and "(1 - 32 * eps) * dval (rev h) \<le> of_int (hash_value h)"
proof -
  let ?x = "dval (rev h)" and ?V = "of_int (hash_value h) :: rat"
  have V: "0 < hash_value h"
    using assms be_value_bounds[of "rev h"] by (simp add: hash_value_def)
  show x: "0 < ?x"
    using V by (intro dval_pos) (simp add: hash_value_def)
  have e: "(1 - 32 * eps) \<le> (1 - eps) ^ 32"
    using one_minus_eps_power[of 32] by simp
  then have "(1 - 32 * eps) * ?V \<le> (1 - eps) ^ 32 * ?V"
    using V by (intro mult_right_mono) auto
  then show "(1 - 32 * eps) * ?V \<le> ?x"
    using dval_bounds[of "rev h"] assms(1) by (simp add: hash_value_def)
  have "(1 - 32 * eps) * ?x \<le> (1 - eps) ^ 32 * ?x"
    using e x by (intro mult_right_mono) auto
  also have "\<dots> \<le> (1 - eps) ^ 32 * ((1 + eps) ^ 32 * ?V)"
    using dval_bounds[of "rev h"] assms(1) eps_bounds by (intro mult_left_mono) (auto simp: hash_value_def)
  also have "\<dots> = ((1 - eps) * (1 + eps)) ^ 32 * ?V"
    by (simp only: power_mult_distrib mult.assoc)
  also have "\<dots> \<le> 1 * ?V"
    using V eps_bounds by (intro mult_right_mono power_le_one mult_nonneg_nonneg)
      (simp_all add: algebra_simps)
  finally show "(1 - 32 * eps) * ?x \<le> ?V" by simp
qed

lemma quotient_near:
  assumes "length h = 32" and "hash_value h \<noteq> 0"
  defines "q \<equiv> one_target / dval (rev h)"
  shows "0 \<le> q" and "(1 - eps) * q \<le> rnd q" and "rnd q \<le> (1 + eps) * q"
proof -
  have x: "0 < dval (rev h)"
    using assms by (intro dval_near_hash)
  then show "0 \<le> q"
    using one_target_pos by (simp add: q_def)
  have "dval (rev h) \<le> 2 ^ 288"
    using dval_crude[of "rev h"] assms(1) by simp
  then have "1 / 2 ^ 100 * dval (rev h) \<le> one_target"
    using one_target_bounds(1) by simp
  then have "2 powi (-100) \<le> q"
    using x by (simp add: q_def pow2_m100 pos_le_divide_eq)
  then show "(1 - eps) * q \<le> rnd q" "rnd q \<le> (1 + eps) * q"
    by (rule rnd_near)+
qed

lemma rounded_quotient_bounds:
  assumes "length h = 32" and "hash_value h \<noteq> 0"
  defines "q \<equiv> one_target / dval (rev h)" and "T \<equiv> 2695953529101131 * 10 ^ 52"
  shows "rnd q * of_int (hash_value h) \<le> (1 + 64 * eps) * T"
    and "(1 - 64 * eps) * T \<le> rnd q * of_int (hash_value h)"
proof -
  let ?x = "dval (rev h)" and ?V = "of_int (hash_value h) :: rat"
  note x = dval_near_hash[OF assms(1,2)] and r = quotient_near[OF assms(1,2), folded q_def]
  have q: "q * ?x = one_target"
    using x(1) by (simp add: q_def)
  have e32: "0 < 1 - 32 * eps"
    by (simp add: eps_def)
  have "(1 - 32 * eps) * (rnd q * ?V) = rnd q * ((1 - 32 * eps) * ?V)"
    by (simp add: mult_ac)
  also have "\<dots> \<le> rnd q * ?x"
    using x(2) rnd_nonneg[OF r(1)] by (rule mult_left_mono)
  also have "\<dots> \<le> (1 + eps) * q * ?x"
    using r(3) x(1) by (intro mult_right_mono) auto
  also have "\<dots> = (1 + eps) * one_target"
    by (simp add: mult.assoc q)
  also have "\<dots> \<le> (1 + eps) * ((1 + eps) * T)"
    using one_target_near(2) eps_bounds by (intro mult_left_mono) (auto simp: T_def)
  also have "\<dots> \<le> (1 - 32 * eps) * ((1 + 64 * eps) * T)"
    by (simp add: eps_def T_def)
  finally show "rnd q * ?V \<le> (1 + 64 * eps) * T"
    using e32 by (simp only: mult_le_cancel_left_pos)
  have "(1 - 64 * eps) * T \<le> (1 - 32 * eps) * ((1 - eps) * ((1 - eps) * T))"
    by (simp add: eps_def T_def)
  also have "\<dots> \<le> (1 - 32 * eps) * ((1 - eps) * one_target)"
    using one_target_near(1) eps_bounds e32 by (intro mult_left_mono) (auto simp: T_def)
  also have "\<dots> = ((1 - eps) * q) * ((1 - 32 * eps) * ?x)"
    by (simp add: mult_ac flip: q)
  also have "\<dots> \<le> ((1 - eps) * q) * ?V"
    using x(3) r(1) eps_bounds by (intro mult_left_mono) auto
  also have "\<dots> \<le> rnd q * ?V"
    using r(2) be_value_bounds(1)[of "rev h"] by (intro mult_right_mono) (simp_all add: hash_value_def)
  finally show "(1 - 64 * eps) * T \<le> rnd q * ?V" .
qed

text \<open>
  C15. The difficulty of a non-zero 32-byte hash is the difficulty-one target divided by the hash's
  number, with a relative error below \<open>2^-47\<close> from all 65 roundings together.
\<close>

theorem difficulty_accurate:
  assumes "length (hash256 a) = 32" and "hash_value (hash256 a) \<noteq> 0"
  shows "\<exists>d. fst (calculateDifficulty hash256 a) = Num d \<and>
           \<bar>d * of_int (hash_value (hash256 a)) - 2695953529101131 * 10 ^ 52\<bar> \<le> 2695953529101131 * 10 ^ 52 / 2 ^ 47"
proof -
  let ?T = "2695953529101131 * 10 ^ 52 :: rat" and ?V = "of_int (hash_value (hash256 a)) :: rat"
  let ?q = "one_target / dval (rev (hash256 a))"
  have "64 * eps * ?T = ?T / 2 ^ 47"
    by (simp add: eps_def)
  then have "\<bar>rnd ?q * ?V - ?T\<bar> \<le> ?T / 2 ^ 47"
    using rounded_quotient_bounds[OF assms]
    by (simp only: abs_le_iff distrib_right left_diff_distrib mult_1_left) linarith
  then show ?thesis
    using assms by (simp add: calculateDifficulty_def Let_def difficulty_of_hash)
qed

theorem difficulty_accurate_witness:
  "\<exists>d. fst (calculateDifficulty (\<lambda>x. x @ replicate 31 0) [7]) = Num d \<and>
     \<bar>d * of_int (hash_value ([7] @ replicate 31 0)) - 2695953529101131 * 10 ^ 52\<bar> \<le> 2695953529101131 * 10 ^ 52 / 2 ^ 47"
proof (rule difficulty_accurate)
  show "hash_value ([7] @ replicate 31 0) \<noteq> 0"
    by code_simp
qed simp

end
