(* ===== verification/ClientStatistics.thy ===== *)
theory ClientStatistics
  imports JsNumber
begin

text \<open>
  The statistics table (\<open>src/ORM/client-statistics\<close>): one row per session and ten-minute slot with
  the credited difficulty and the number of accepted shares. \<open>sql_sum\<close> is SQLite's \<open>SUM\<close> over a
  real column (its order of addition is the database's), \<open>to_iso\<close> is \<open>toISOString\<close>.
\<close>

record session_key =
  k_address :: string
  k_clientName :: string
  k_sessionId :: string

record statistics_row =
  r_key :: session_key
  r_time :: int
  r_shares :: jsnum
  r_acceptedCount :: int
  r_createdAt :: int
  r_updatedAt :: int

type_synonym statistics_table = "statistics_row list"

section \<open>Writing\<close>

definition insert_statistics :: "int \<Rightarrow> session_key \<Rightarrow> int \<Rightarrow> jsnum \<Rightarrow> int \<Rightarrow> statistics_table \<Rightarrow> statistics_table" where
  "insert_statistics now key time sh n t =
     t @ [\<lparr>r_key = key, r_time = time, r_shares = sh, r_acceptedCount = n, r_createdAt = now, r_updatedAt = now\<rparr>]"

definition update_statistics :: "int \<Rightarrow> session_key \<Rightarrow> int \<Rightarrow> jsnum \<Rightarrow> int \<Rightarrow> statistics_table \<Rightarrow> statistics_table" where
  "update_statistics now key time sh n t =
     update_where (\<lambda>r. r_key r = key \<and> r_time r = time)
       (\<lambda>r. r\<lparr>r_shares := sh, r_acceptedCount := n, r_updatedAt := now\<rparr>) t"

definition deleteOldStatistics :: "int \<Rightarrow> statistics_table \<Rightarrow> statistics_table" where
  "deleteOldStatistics now t = filter (\<lambda>r. \<not> r_time r < now - 86400000) t"

section \<open>Charts\<close>

definition chart :: "(jsnum list \<Rightarrow> jsnum) \<Rightarrow> (int \<Rightarrow> string) \<Rightarrow> (jsnum \<Rightarrow> jsnum) \<Rightarrow> statistics_row list \<Rightarrow> (string \<times> jsnum) list" where
  "chart sql_sum to_iso val rs =
     butlast (map (\<lambda>s. (to_iso s, val (sql_sum (map r_shares (filter (\<lambda>r. r_time r = s) rs)))))
                (take 144 (sort (remdups (map r_time rs)))))"

definition slot_rate :: "jsnum \<Rightarrow> jsnum" where
  "slot_rate s = js_div (js_mul s (Num 4294967296)) (Num 600)"

text \<open>SQL's \<open>ROUND\<close>: to the nearest integer, halves away from zero.\<close>

fun sql_round :: "jsnum \<Rightarrow> jsnum" where
  "sql_round (Num a) = IntN (if 0 \<le> a then \<lfloor>a + 1 / 2\<rfloor> else - \<lfloor>- a + 1 / 2\<rfloor>)"
| "sql_round v = v"

definition recent :: "int \<Rightarrow> statistics_row \<Rightarrow> bool" where
  "recent now r \<longleftrightarrow> now - 86400000 < r_time r"

definition getChartDataForSite ::
  "(jsnum list \<Rightarrow> jsnum) \<Rightarrow> (int \<Rightarrow> string) \<Rightarrow> int \<Rightarrow> statistics_table \<Rightarrow> (string \<times> jsnum) list" where
  "getChartDataForSite sql_sum to_iso now t =
     chart sql_sum to_iso (\<lambda>s. sql_round (slot_rate s)) (filter (recent now) t)"

definition getChartDataForAddress ::
  "(jsnum list \<Rightarrow> jsnum) \<Rightarrow> (int \<Rightarrow> string) \<Rightarrow> int \<Rightarrow> string \<Rightarrow> statistics_table \<Rightarrow> (string \<times> jsnum) list" where
  "getChartDataForAddress sql_sum to_iso now address t =
     chart sql_sum to_iso slot_rate (filter (\<lambda>r. k_address (r_key r) = address \<and> recent now r) t)"

definition getChartDataForGroup ::
  "(jsnum list \<Rightarrow> jsnum) \<Rightarrow> (int \<Rightarrow> string) \<Rightarrow> int \<Rightarrow> string \<Rightarrow> string \<Rightarrow> statistics_table \<Rightarrow> (string \<times> jsnum) list" where
  "getChartDataForGroup sql_sum to_iso now address clientName t =
     chart sql_sum to_iso slot_rate
       (filter (\<lambda>r. k_address (r_key r) = address \<and> k_clientName (r_key r) = clientName \<and> recent now r) t)"

definition getChartDataForSession ::
  "(jsnum list \<Rightarrow> jsnum) \<Rightarrow> (int \<Rightarrow> string) \<Rightarrow> int \<Rightarrow> session_key \<Rightarrow> statistics_table \<Rightarrow> (string \<times> jsnum) list" where
  "getChartDataForSession sql_sum to_iso now key t =
     chart sql_sum to_iso slot_rate (filter (\<lambda>r. r_key r = key \<and> recent now r) t)"

section \<open>Hash rates\<close>

definition getHashRateForGroup ::
  "(jsnum list \<Rightarrow> jsnum) \<Rightarrow> int \<Rightarrow> string \<Rightarrow> string \<Rightarrow> statistics_table \<Rightarrow> jsnum" where
  "getHashRateForGroup sql_sum now address clientName t =
     (let rs = filter (\<lambda>r. k_address (r_key r) = address \<and> k_clientName (r_key r) = clientName \<and>
                           now - 3600000 < r_time r) t
      in slot_rate (if rs = [] then Num 0 else sql_sum (map r_shares rs)))"

definition getHashRateForSession :: "session_key \<Rightarrow> statistics_table \<Rightarrow> jsnum" where
  "getHashRateForSession key t =
     (case take 2 (sort_key (\<lambda>r. - r_time r) (filter (\<lambda>r. r_key r = key) t)) of
        [] \<Rightarrow> Num 0
      | [latest] \<Rightarrow>
          (let ms = r_updatedAt latest - r_createdAt latest
           in if ms < 60000 then Num 0
              else js_div (js_mul (r_shares latest) (Num 4294967296)) (js_div (IntN ms) (Num 1000)))
      | latest # second # _ \<Rightarrow>
          (let ms = r_updatedAt latest - r_createdAt second
           in if ms < 60000 then Num 0
              else js_div (js_mul (js_add (r_shares latest) (r_shares second)) (Num 4294967296))
                     (js_div (IntN ms) (Num 1000))))"

section \<open>Accounting\<close>

record accounting_view =
  a_totalCreditedDifficulty :: jsnum
  a_totalAcceptedShares :: jsnum
  a_creditedDifficultyLastHour :: jsnum
  a_acceptedSharesLast10Minutes :: jsnum
  a_hashRateLast10Minutes :: jsnum
  a_hashRateLastHour :: jsnum

definition real_sum :: "(jsnum list \<Rightarrow> jsnum) \<Rightarrow> jsnum list \<Rightarrow> jsnum" where
  "real_sum sql_sum xs = (if xs = [] then Num 0 else sql_sum xs)"

definition getAccounting ::
  "(jsnum list \<Rightarrow> jsnum) \<Rightarrow> int \<Rightarrow> (session_key \<Rightarrow> bool) \<Rightarrow> statistics_table \<Rightarrow> accounting_view" where
  "getAccounting sql_sum now whereClause t =
     (let rs = filter (\<lambda>r. whereClause (r_key r)) t;
          hour = real_sum sql_sum (map (\<lambda>r. if now - 3600000 \<le> r_time r then r_shares r else Num 0) rs);
          ten = real_sum sql_sum (map (\<lambda>r. if now - 600000 \<le> r_time r then r_shares r else Num 0) rs)
      in \<lparr>a_totalCreditedDifficulty = real_sum sql_sum (map r_shares rs),
          a_totalAcceptedShares = js_of_int (sum_list (map r_acceptedCount rs)),
          a_creditedDifficultyLastHour = hour,
          a_acceptedSharesLast10Minutes =
            js_of_int (sum_list (map (\<lambda>r. if now - 600000 \<le> r_time r then r_acceptedCount r else 0) rs)),
          a_hashRateLast10Minutes = js_div (js_mul ten (Num 4294967296)) (Num 600),
          a_hashRateLastHour = js_div (js_mul hour (Num 4294967296)) (Num 3600)\<rparr>)"

definition getAccountingForPool :: "(jsnum list \<Rightarrow> jsnum) \<Rightarrow> int \<Rightarrow> statistics_table \<Rightarrow> accounting_view" where
  "getAccountingForPool sql_sum now t = getAccounting sql_sum now (\<lambda>k. True) t"

definition getAccountingForAddress :: "(jsnum list \<Rightarrow> jsnum) \<Rightarrow> int \<Rightarrow> string \<Rightarrow> statistics_table \<Rightarrow> accounting_view" where
  "getAccountingForAddress sql_sum now address t = getAccounting sql_sum now (\<lambda>k. k_address k = address) t"

definition getAccountingForGroup :: "(jsnum list \<Rightarrow> jsnum) \<Rightarrow> int \<Rightarrow> string \<Rightarrow> string \<Rightarrow> statistics_table \<Rightarrow> accounting_view" where
  "getAccountingForGroup sql_sum now address clientName t =
     getAccounting sql_sum now (\<lambda>k. k_address k = address \<and> k_clientName k = clientName) t"

definition getAccountingForSession :: "(jsnum list \<Rightarrow> jsnum) \<Rightarrow> int \<Rightarrow> session_key \<Rightarrow> statistics_table \<Rightarrow> accounting_view" where
  "getAccountingForSession sql_sum now key t = getAccounting sql_sum now (\<lambda>k. k = key) t"

section \<open>Slots of a session\<close>

text \<open>Rows of one session have different slots; what is stored for the slots other than one.\<close>

definition session_rows :: "session_key \<Rightarrow> statistics_table \<Rightarrow> statistics_row list" where
  "session_rows key t = filter (\<lambda>r. r_key r = key) t"

definition stored_count :: "session_key \<Rightarrow> (int \<Rightarrow> bool) \<Rightarrow> statistics_table \<Rightarrow> int" where
  "stored_count key p t = sum_list (map r_acceptedCount (filter (\<lambda>r. r_key r = key \<and> p (r_time r)) t))"

lemma stored_count_Nil [simp]: "stored_count key p [] = 0"
  by (simp add: stored_count_def)

lemma stored_count_insert [step_simps]:
  "stored_count key p (insert_statistics now key' time sh n t) =
     stored_count key p t + (if key' = key \<and> p time then n else 0)"
  by (simp add: stored_count_def insert_statistics_def)

lemma stored_count_update_other [step_simps]:
  "\<not> p time \<Longrightarrow> stored_count key p (update_statistics now key' time sh n t) = stored_count key p t"
  by (induction t) (auto simp: stored_count_def update_statistics_def)

lemma stored_count_split:
  "stored_count key p t = stored_count key (\<lambda>s. p s \<and> s \<noteq> time) t + stored_count key (\<lambda>s. p s \<and> s = time) t"
  by (induction t) (auto simp: stored_count_def)

lemma stored_count_update_unique:
  "stored_count key (\<lambda>s. s = time) (update_statistics now key time sh n t) =
     n * int (length (filter (\<lambda>r. r_key r = key \<and> r_time r = time) t))"
  by (induction t) (auto simp: stored_count_def update_statistics_def algebra_simps)

definition slot_rows :: "session_key \<Rightarrow> int \<Rightarrow> statistics_table \<Rightarrow> nat" where
  "slot_rows key s t = length (filter (\<lambda>r. r_key r = key \<and> r_time r = s) t)"

lemma slot_rows_insert [step_simps]:
  "slot_rows key s (insert_statistics now key' time sh n t) = slot_rows key s t + (if key' = key \<and> time = s then 1 else 0)"
  by (simp add: slot_rows_def insert_statistics_def)

lemma slot_rows_update [step_simps]: "slot_rows key s (update_statistics now key' time sh n t) = slot_rows key s t"
  by (induction t) (auto simp: slot_rows_def update_statistics_def)

end
