(* ===== verification/MinerStatistics.thy ===== *)
theory MinerStatistics
  imports ClientStatistics FloatSums "HOL-Library.Word" "HOL-Library.Monad_Syntax"
begin

unbundle bit_operations_syntax

text \<open>
  The statistics of one connection (\<open>src/models/StratumV1ClientStatistics.ts\<close>): shares are counted
  in memory per ten-minute slot and written to the statistics table when a slot begins, when it
  ends, and at most once a minute in between; the recent submissions drive the suggested
  difficulty. \<open>now\<close> is the clock of a call. \<open>addShares\<close> is the call that nothing interrupts;
  \<open>ShareCounting\<close> takes it apart at its awaits.
\<close>

record miner_stats =
  t_shares :: jsnum
  t_acceptedCount :: int
  t_submissionCacheStart :: int
  t_submissionCache :: "(int \<times> jsnum) list"
  t_currentTimeSlot :: "int option"
  t_lastSave :: int
  t_hashRate :: jsnum
  t_previousTimeSlotTime :: int
  t_currentTimeSlotTime :: int
  t_previousShares :: jsnum

definition new_stats :: "int \<Rightarrow> miner_stats" where
  "new_stats now =
     \<lparr>t_shares = Num 0, t_acceptedCount = 0, t_submissionCacheStart = now, t_submissionCache = [],
      t_currentTimeSlot = None, t_lastSave = 0, t_hashRate = Num 0, t_previousTimeSlotTime = 0,
      t_currentTimeSlotTime = 0, t_previousShares = Num 0\<rparr>"

section \<open>Adding a share\<close>

text \<open>
  \<open>Math.floor(now / coeff) * coeff\<close> on a clock value; for clocks of the next millennia it is the
  integer computation (\<open>time_slot_div\<close>).
\<close>

definition time_slot :: "int \<Rightarrow> jsnum" where
  "time_slot now = js_mul (js_floor (js_div (IntN now) (Num 600000))) (Num 600000)"

definition slot_of :: "int \<Rightarrow> int" where
  "slot_of now = (case time_slot now of Num a \<Rightarrow> \<lfloor>a\<rfloor> | _ \<Rightarrow> 0)"

definition push_submission :: "int \<Rightarrow> jsnum \<Rightarrow> (int \<times> jsnum) list \<Rightarrow> (int \<times> jsnum) list" where
  "push_submission now d cache = (if 30 < length cache then drop 1 cache else cache) @ [(now, d)]"

definition addShares ::
  "int \<Rightarrow> session_key \<Rightarrow> jsnum \<Rightarrow> miner_stats \<times> statistics_table \<Rightarrow> miner_stats \<times> statistics_table" where
  "addShares now key submissionDifficulty st =
     (case st of (s0, t) \<Rightarrow>
        let s = s0\<lparr>t_submissionCache := push_submission now submissionDifficulty (t_submissionCache s0)\<rparr>;
            timeSlot = slot_of now
        in case t_currentTimeSlot s of
             None \<Rightarrow>
               (let s1 = s\<lparr>t_previousTimeSlotTime := now, t_currentTimeSlotTime := now,
                           t_currentTimeSlot := Some timeSlot,
                           t_shares := js_add (t_shares s) submissionDifficulty,
                           t_acceptedCount := t_acceptedCount s + 1\<rparr>
                in (s1\<lparr>t_lastSave := now\<rparr>,
                    insert_statistics now key timeSlot (t_shares s1) (t_acceptedCount s1) t))
           | Some slot \<Rightarrow>
               if slot \<noteq> timeSlot then
                 (let t1 = update_statistics now key slot (t_shares s) (t_acceptedCount s) t
                  in (s\<lparr>t_previousShares := t_shares s, t_previousTimeSlotTime := t_currentTimeSlotTime s,
                        t_currentTimeSlotTime := now, t_currentTimeSlot := Some timeSlot,
                        t_shares := submissionDifficulty, t_acceptedCount := 1, t_lastSave := now\<rparr>,
                      insert_statistics now key timeSlot submissionDifficulty 1 t1))
               else if t_lastSave s < now - 60000 then
                 (let s1 = s\<lparr>t_shares := js_add (t_shares s) submissionDifficulty,
                             t_acceptedCount := t_acceptedCount s + 1\<rparr>
                  in (s1\<lparr>t_lastSave := now\<rparr>,
                      update_statistics now key slot (t_shares s1) (t_acceptedCount s1) t))
               else
                 (let sh = js_add (t_shares s) submissionDifficulty;
                      ms = js_sub (IntN now) (IntN (t_previousTimeSlotTime s))
                  in (s\<lparr>t_shares := sh, t_acceptedCount := t_acceptedCount s + 1,
                        t_hashRate := (if js_gt sh (Num 0)
                           then js_div (js_mul (js_add (t_previousShares s) sh) (Num 4294967296))
                                  (js_div ms (Num 1000))
                           else t_hashRate s)\<rparr>, t)))"

section \<open>The suggested difficulty\<close>

definition MIN_DIFF :: jsnum where
  "MIN_DIFF = fl (1 / 100000)"

text \<open>The five shifts that count (\<open>x >> 32\<close> is \<open>x >> 0\<close>), on 32-bit integers.\<close>

definition smear :: "jsnum \<Rightarrow> jsnum" where
  "smear v =
     (let x = js_bitor v (js_sar v 1);
          x = js_bitor x (js_sar x 2);
          x = js_bitor x (js_sar x 4);
          x = js_bitor x (js_sar x 8);
          x = js_bitor x (js_sar x 16)
      in js_bitor x (js_sar x 32))"

definition top_bit :: "jsnum \<Rightarrow> jsnum" where
  "top_bit v = js_sub (smear v) (js_sar (smear v) 1)"

text \<open>
  The recursion need not end: the outer \<open>None\<close> is the endless recursion (a stack overflow), the
  inner one is \<open>null\<close>, which a division reads as 0.
\<close>

partial_function (option) nearestPowerOfTwo :: "jsnum \<Rightarrow> jsnum option option" where
  "nearestPowerOfTwo val =
     (if js_eq val (Num 0) then Some None
      else if js_lt val MIN_DIFF then Some (Some MIN_DIFF)
      else let res = top_bit val
           in if js_eq res (Num 0) \<and> js_lt (js_mul val (Num 100)) MIN_DIFF then Some (Some MIN_DIFF)
              else if js_eq res (Num 0)
                   then Option.bind (nearestPowerOfTwo (js_mul val (Num 100)))
                          (\<lambda>r. Some (Some (js_div (case r of None \<Rightarrow> Num 0 | Some v \<Rightarrow> v) (Num 100))))
                   else Some (Some res))"

definition getSuggestedDifficulty :: "int \<Rightarrow> jsnum \<Rightarrow> miner_stats \<Rightarrow> jsnum option option" where
  "getSuggestedDifficulty now clientDifficulty s =
     (if length (t_submissionCache s) < 5 then
        (if js_gt (js_div (IntN (now - t_submissionCacheStart s)) (Num 1000)) (Num 60)
         then nearestPowerOfTwo (js_div clientDifficulty (Num 6))
         else Some None)
      else
        (let summed = foldl (\<lambda>p c. js_add p (snd c)) (Num 0) (t_submissionCache s);
             diffSeconds = js_div (IntN (fst (last (t_submissionCache s)) - fst (hd (t_submissionCache s)))) (Num 1000);
             targetDifficulty = js_mul (js_div summed diffSeconds) (Num 10)
         in if js_lt (js_mul clientDifficulty (Num 2)) targetDifficulty \<or>
               js_gt (js_div clientDifficulty (Num 2)) targetDifficulty
            then nearestPowerOfTwo targetDifficulty
            else Some None))"

section \<open>Slots\<close>

lemma time_slot_div:
  assumes "0 \<le> now" and "now \<le> 2 ^ 52"
  shows "slot_of now = now div 600000 * 600000"
proof -
  let ?x = "of_int now / 600000 :: rat" and ?q = "now div 600000"
  have N: "(of_int now :: rat) \<le> of_int (2 ^ 52)"
    unfolding of_int_le_iff by (rule assms(2))
  have x0: "0 \<le> ?x"
    using assms(1) by simp
  have eq: "(of_int now :: rat) = of_int ?q * 600000 + of_int (now mod 600000)"
    by (metis div_mult_mod_eq of_int_add of_int_mult of_int_numeral)
  have m: "(of_int (now mod 600000) :: rat) \<le> of_int 599999"
    unfolding of_int_le_iff using pos_mod_bound[of 600000 now] by simp
  have m0: "0 \<le> (of_int (now mod 600000) :: rat)"
    by simp
  have q0: "0 \<le> ?q"
    using assms(1) by (simp add: pos_imp_zdiv_nonneg_iff)
  then have q: "0 \<le> ?q" "?q \<le> now"
    using div_mult_mod_eq[of now 600000] pos_mod_sign[of 600000 now] by linarith+
  have "of_int ?q \<le> ?x"
    using eq m0 by simp
  then have lo: "of_int ?q \<le> rnd ?x"
    using q assms by (intro double_le_rnd is_double_of_int) auto
  have "\<bar>rnd ?x - ?x\<bar> \<le> eps * (2 ^ 52 / 600000)"
    using N x0 by (intro rnd_abs_error) auto
  moreover have "eps * (2 ^ 52 / 600000) = 1 / 1200000"
    by (simp add: eps_def)
  ultimately have "rnd ?x \<le> ?x + 1 / 1200000"
    by linarith
  also have "?x \<le> of_int ?q + 599999 / 600000"
    using eq m by simp
  finally have hi: "rnd ?x < of_int ?q + 1"
    by linarith
  have fl: "\<lfloor>rnd ?x\<rfloor> = ?q"
    unfolding floor_eq_iff using lo hi by blast
  have "\<bar>?x\<bar> \<le> \<bar>of_int now\<bar>"
    using x0 by simp
  then have "fl ?x = Num (rnd ?x)"
    using safe_int_abs_le[of now] assms by (intro fl_small) (simp add: safe_int_def)
  moreover have "?q * 600000 \<le> now"
    using div_mult_mod_eq[of now 600000] pos_mod_sign[of 600000 now] by linarith
  then have "js_mul (IntN ?q) (IntN 600000) = IntN (?q * 600000)"
    using q assms by (intro js_mul_int) (simp add: safe_int_def)
  ultimately have "time_slot now = IntN (?q * 600000)"
    by (simp add: time_slot_def fl)
  then show ?thesis
    unfolding slot_of_def by (simp only: jsnum.case floor_of_int)
qed

lemma slot_of_mono: "0 \<le> a \<Longrightarrow> a \<le> b \<Longrightarrow> b \<le> 2 ^ 52 \<Longrightarrow> slot_of a \<le> slot_of b"
  by (simp add: time_slot_div zdiv_mono1)

lemma absent_slot: "(\<And>r. r \<in> set t \<Longrightarrow> r_key r = key \<Longrightarrow> r_time r \<noteq> u) \<Longrightarrow> slot_rows key u t = 0"
  by (auto simp: slot_rows_def filter_empty_conv)

lemma absent_count: "(\<And>r. r \<in> set t \<Longrightarrow> r_key r = key \<Longrightarrow> \<not> p (r_time r)) \<Longrightarrow> stored_count key p t = 0"
proof -
  assume a: "\<And>r. r \<in> set t \<Longrightarrow> r_key r = key \<Longrightarrow> \<not> p (r_time r)"
  have "filter (\<lambda>r. r_key r = key \<and> p (r_time r)) t = []"
    using a by (auto simp: filter_empty_conv)
  then show "stored_count key p t = 0"
    by (simp add: stored_count_def)
qed

lemma set_update_statistics:
  "r \<in> set (update_statistics now key time sh n t) \<Longrightarrow> \<exists>r' \<in> set t. r_key r = r_key r' \<and> r_time r = r_time r'"
  by (auto simp: update_statistics_def set_update_where)

lemma ball_insert_statistics:
  "(\<forall>r \<in> set (insert_statistics now key time sh n t). P r) \<longleftrightarrow>
     (\<forall>r \<in> set t. P r) \<and>
     P \<lparr>r_key = key, r_time = time, r_shares = sh, r_acceptedCount = n, r_createdAt = now, r_updatedAt = now\<rparr>"
  by (auto simp: insert_statistics_def)

lemma update_unique:
  "slot_rows key u t = 1 \<Longrightarrow> stored_count key (\<lambda>v. v = u) (update_statistics now key u sh n t) = n"
  by (simp add: stored_count_update_unique slot_rows_def)

section \<open>The nearest power of two\<close>

lemma nearestPowerOfTwo_infinity: "nearestPowerOfTwo PosInf = None"
proof -
  have top: "top_bit PosInf = Num 0"
    by code_simp
  have inf: "js_mul PosInf (Num 100) = PosInf"
    by (simp add: js_signed_inf_def)
  have min: "\<not> js_lt PosInf MIN_DIFF"
    by code_simp
  have "v \<noteq> PosInf" if "nearestPowerOfTwo v = Some y" for v y
  proof (rule nearestPowerOfTwo.raw_induct[where P = "\<lambda>v y. v \<noteq> PosInf", OF _ that])
    fix f v y
    assume IH: "\<And>v y. f v = Some y \<Longrightarrow> v \<noteq> PosInf"
      and eq: "(if js_eq v (Num 0) then Some None
         else if js_lt v MIN_DIFF then Some (Some MIN_DIFF)
         else let res = top_bit v
           in if js_eq res (Num 0) \<and> js_lt (js_mul v (Num 100)) MIN_DIFF then Some (Some MIN_DIFF)
              else if js_eq res (Num 0)
                   then Option.bind (f (js_mul v (Num 100)))
                          (\<lambda>r. Some (Some (js_div (case r of None \<Rightarrow> Num 0 | Some v \<Rightarrow> v) (Num 100))))
                   else Some (Some res)) = Some y"
    have "f PosInf = None"
      using IH by (cases "f PosInf") auto
    then show "v \<noteq> PosInf"
      using eq top inf min by (auto simp: js_eq_def Let_def)
  qed
  then show ?thesis
    by (cases "nearestPowerOfTwo PosInf") auto
qed

text \<open>
  C17. Shares within one millisecond crash the retargeting: when the cached submissions of a
  connection (at least five, of positive finite total) all carry the same time, the suggested
  difficulty recurses without end, whatever the session difficulty.
\<close>

theorem retarget_diverges_on_burst:
  assumes "5 \<le> length (t_submissionCache s)" and "\<forall>c \<in> set (t_submissionCache s). fst c = stamp"
    and "foldl (\<lambda>p c. js_add p (snd c)) (Num 0) (t_submissionCache s) = Num tot" and "0 < tot"
    and "d = Num x" and "js_is_finite (js_mul d (Num 2))"
  shows "getSuggestedDifficulty now d s = None"
proof -
  have ne: "t_submissionCache s \<noteq> []"
    using assms(1) by auto
  then have "fst (last (t_submissionCache s)) = stamp" and "fst (hd (t_submissionCache s)) = stamp"
    using assms(2) by auto
  then have "js_div (IntN (fst (last (t_submissionCache s)) - fst (hd (t_submissionCache s)))) (Num 1000) = Num 0"
    by simp
  moreover have "js_div (Num tot) (Num 0) = PosInf" and "js_mul PosInf (Num 10) = PosInf"
    using assms(4) by (simp_all add: js_signed_inf_def)
  moreover obtain y where "js_mul d (Num 2) = Num y"
    using assms(6) by (cases "js_mul d (Num 2)") auto
  then have "js_lt (js_mul d (Num 2)) PosInf"
    by simp
  ultimately show ?thesis
    using assms(1,3) by (simp add: getSuggestedDifficulty_def Let_def nearestPowerOfTwo_infinity)
qed

theorem retarget_diverges_on_burst_witness:
  "getSuggestedDifficulty 9 (Num 64) ((new_stats 0)\<lparr>t_submissionCache := replicate 5 (7, Num 64)\<rparr>) = None"
proof (rule retarget_diverges_on_burst[where stamp = 7 and tot = 320 and x = 64])
  show "foldl (\<lambda>p c. js_add p (snd c)) (Num 0)
          (t_submissionCache ((new_stats 0)\<lparr>t_submissionCache := replicate 5 (7, Num 64)\<rparr>)) = Num 320"
    by code_simp
  show "js_is_finite (js_mul (Num 64) (Num 2))"
    by code_simp
qed (simp_all add: new_stats_def)

section \<open>The result is within a factor of two\<close>

declare js_trunc_int [simp] to_of_int32 [simp]

definition sm :: "nat \<Rightarrow> 32 word \<Rightarrow> 32 word" where
  "sm k x = x OR signed_drop_bit k x"

lemma smear_word: "smear v = of_int32 (sm 16 (sm 8 (sm 4 (sm 2 (sm 1 (to_int32 v))))))"
  by (simp add: smear_def Let_def js_bitor_def js_sar_def sm_def signed_drop_bit_0)

lemma sm_bits:
  fixes w x :: "32 word"
  assumes "\<not> bit w 31" and "\<And>i. bit x i \<longleftrightarrow> (\<exists>j<n. bit w (i + j))" and "0 < n"
  shows "bit (sm n x) i \<longleftrightarrow> (\<exists>j < 2 * n. bit w (i + j))"
proof -
  have w31: "bit w i \<Longrightarrow> i < 31" for i
    using bit_imp_le_length[of w i] assms(1) by (cases "i = 31") auto
  have x31: "bit x i \<Longrightarrow> i < 31" for i
    using assms(2)[of i] w31 by (meson add_lessD1)
  have "bit (signed_drop_bit n x) i \<longleftrightarrow> bit x (i + n)"
  proof (cases "32 - n \<le> i \<and> i < 32")
    case True
    then have "bit (signed_drop_bit n x) i = bit x (Suc 30)"
      by (simp add: bit_signed_drop_bit_iff)
    then show ?thesis
      using x31[of "Suc 30"] x31[of "i + n"] True by auto
  next
    case False
    have "bit (signed_drop_bit n x) i = bit x (if 32 - n \<le> i \<and> i < 32 then Suc 30 else n + i)"
      by (simp add: bit_signed_drop_bit_iff)
    then show ?thesis
      using False by (simp add: add.commute)
  qed
  then have "bit (sm n x) i \<longleftrightarrow> (\<exists>j<n. bit w (i + j)) \<or> (\<exists>j<n. bit w (i + n + j))"
    by (simp add: sm_def bit_or_iff assms(2))
  also have "\<dots> \<longleftrightarrow> (\<exists>j < 2 * n. bit w (i + j))"
  proof (safe)
    fix j assume "j < 2 * n" "bit w (i + j)" "\<not> (\<exists>j<n. bit w (i + n + j))"
    then show "\<exists>j<n. bit w (i + j)"
      by (cases "j < n") (auto dest!: spec[of _ "j - n"])
  next
    fix j assume "j < n" "bit w (i + j)"
    then show "\<exists>j < 2 * n. bit w (i + j)"
      by (intro exI[of _ j]) simp
  next
    fix j assume "j < n" "bit w (i + n + j)"
    then show "\<exists>j < 2 * n. bit w (i + j)"
      by (intro exI[of _ "n + j"]) (simp add: add.assoc)
  qed
  finally show ?thesis .
qed

lemma smear_mask:
  assumes "bit w k" and "\<And>i. k < i \<Longrightarrow> \<not> bit w i" and "k < 31"
  shows "sm 16 (sm 8 (sm 4 (sm 2 (sm 1 w)))) = mask (Suc k)"
proof (rule bit_word_eqI)
  fix i
  have w: "\<not> bit w 31"
    using assms(2,3) by simp
  have b0: "bit w i \<longleftrightarrow> (\<exists>j<1. bit w (i + j))" for i
    by simp
  note b1 = sm_bits[OF w b0, simplified]
  note b2 = sm_bits[OF w b1, simplified]
  note b3 = sm_bits[OF w b2, simplified]
  note b4 = sm_bits[OF w b3, simplified]
  note b5 = sm_bits[OF w b4, simplified]
  have "(\<exists>j<32. bit w (i + j)) \<longleftrightarrow> i \<le> k"
  proof
    assume "i \<le> k"
    then show "\<exists>j<32. bit w (i + j)"
      using assms(1,3) by (intro exI[of _ "k - i"]) simp
  next
    assume "\<exists>j<32. bit w (i + j)"
    then obtain j where "bit w (i + j)" by blast
    then have "\<not> k < i + j"
      using assms(2) by blast
    then show "i \<le> k"
      by simp
  qed
  then show "bit (sm 16 (sm 8 (sm 4 (sm 2 (sm 1 w))))) i \<longleftrightarrow> bit (mask (Suc k) :: 32 word) i"
    using assms(3) by (simp add: b5 bit_mask_iff) (auto simp: less_Suc_eq_le)
qed

lemma sint_mask: "k \<le> 31 \<Longrightarrow> sint (mask k :: 32 word) = 2 ^ k - 1"
proof -
  assume "k \<le> 31"
  have "(2::int) ^ k \<le> 2 ^ 31"
    using \<open>k \<le> 31\<close> by (rule power_increasing) simp
  then have "(2::int) ^ k - 1 < 2 ^ 31" and "0 \<le> (2::int) ^ k - 1"
    by simp_all
  moreover have "(mask k :: 32 word) = word_of_int (2 ^ k - 1)"
    by (simp add: mask_eq_exp_minus_1)
  moreover have "sint (word_of_int n :: 32 word) = n" if "0 \<le> n" "n < 2 ^ 31" for n
    using that by (simp add: sint_uint uint_word_of_int take_bit_int_eq_self signed_take_bit_int_eq_self)
  ultimately show "sint (mask k :: 32 word) = 2 ^ k - 1"
    by (simp only:)
qed

lemma signed_drop_mask: "k < 31 \<Longrightarrow> signed_drop_bit 1 (mask (Suc k) :: 32 word) = mask k"
  by (rule bit_word_eqI) (auto simp: bit_signed_drop_bit_iff bit_mask_iff)

lemma power_bracket: "1 \<le> m \<Longrightarrow> \<exists>k. 2 ^ k \<le> m \<and> m < 2 * 2 ^ k" for m :: int
  using ex_power_ivl1[of 2 "nat m"]
  by (auto simp: le_nat_iff nat_less_iff)

lemma top_bit_power:
  assumes "1 \<le> a" and "a < 2 ^ 31"
  obtains k where "top_bit (Num a) = Num (2 ^ k)" and "2 ^ k \<le> a" and "a < 2 * 2 ^ k" and "k < 31"
proof -
  let ?m = "\<lfloor>a\<rfloor>" and ?w = "word_of_int \<lfloor>a\<rfloor> :: 32 word"
  have m: "1 \<le> ?m" "?m < 2 ^ 31"
    using assms by (simp_all add: floor_less_iff)
  obtain k where k: "2 ^ k \<le> ?m" "?m < 2 * 2 ^ k"
    using power_bracket[OF m(1)] by blast
  have "(2::int) ^ k < 2 ^ 31"
    using k(1) m(2) by linarith
  then have k31: "k < 31"
    by (rule power_less_imp_less_exp[rotated]) simp
  have bit: "bit ?w i \<longleftrightarrow> i < 32 \<and> bit ?m i" for i
    by (simp add: bit_word_of_int_iff)
  have "?m div 2 ^ k = 1"
    using k by (intro int_div_pos_eq[where r = "?m - 2 ^ k"]) auto
  then have "bit ?w k"
    using k31 by (simp add: bit bit_int_def)
  moreover have "\<not> bit ?w i" if "k < i" for i
  proof -
    have "(2::int) * 2 ^ k \<le> 2 ^ i"
      using that power_increasing[of "Suc k" i "2::int"] by simp
    then have "?m div 2 ^ i = 0"
      using k(2) m(1) by simp
    then show ?thesis
      by (simp add: bit bit_int_def)
  qed
  ultimately have "sm 16 (sm 8 (sm 4 (sm 2 (sm 1 ?w)))) = mask (Suc k)"
    using k31 by (rule smear_mask)
  moreover have "to_int32 (Num a) = ?w"
    using assms(1) by simp
  ultimately have "smear (Num a) = of_int32 (mask (Suc k))"
    by (simp only: smear_word)
  moreover from this have "js_sar (smear (Num a)) 1 = of_int32 (mask k)"
    using signed_drop_mask[OF k31] by (simp add: js_sar_def)
  ultimately have "smear (Num a) = IntN (2 ^ Suc k - 1)" and "js_sar (smear (Num a)) 1 = IntN (2 ^ k - 1)"
    using k31 sint_mask[of "Suc k"] sint_mask[of k] by (simp_all add: of_int32_def)
  moreover have "js_sub (IntN (2 ^ Suc k - 1)) (IntN (2 ^ k - 1)) = IntN (2 ^ Suc k - 1 - (2 ^ k - 1))"
    using \<open>2 ^ k < 2 ^ 31\<close> by (intro js_sub_int) (simp add: safe_int_def)
  ultimately have "top_bit (Num a) = IntN (2 ^ k)"
    by (simp add: top_bit_def)
  moreover have "(2::rat) ^ k \<le> a"
    using k(1) by (simp add: le_floor_iff)
  moreover have "a < 2 * (2::rat) ^ k"
    using k(2) by (simp add: floor_less_iff)
  ultimately show thesis
    using that k31 by simp
qed

subsection \<open>The recursion for difficulties below one\<close>

definition near_target :: "nat \<Rightarrow> rat \<Rightarrow> bool" where
  "near_target n v \<longleftrightarrow> (\<exists>r. nearestPowerOfTwo (Num v) = Some (Some (Num r)) \<and>
     v / 2 * (1 - eps) ^ n \<le> r \<and> r \<le> v * (1 + eps) ^ n)"

lemma MIN_DIFF_near: "\<exists>m. MIN_DIFF = Num m \<and> 1 / 100001 \<le> m \<and> m \<le> 1 / 99999"
proof -
  have "(1::rat) \<le> 2 powi 1000"
    using pow2_mono[of 0 1000] by simp
  then have "MIN_DIFF = Num (rnd (1 / 100000))"
    unfolding MIN_DIFF_def by (intro fl_small) simp
  moreover have "(1 - eps) * (1 / 100000) \<le> rnd (1 / 100000)" and "rnd (1 / 100000) \<le> (1 + eps) * (1 / 100000)"
    by (rule rnd_near; simp add: pow2_m100)+
  ultimately show ?thesis
    by (intro exI[of _ "rnd (1 / 100000)"]) (simp add: eps_def)
qed

lemma not_below_min: "1 / 99999 \<le> v \<Longrightarrow> \<not> js_lt (Num v) MIN_DIFF"
proof -
  obtain m where m: "MIN_DIFF = Num m" "m \<le> 1 / 99999"
    using MIN_DIFF_near by blast
  moreover have "js_lt (Num v) MIN_DIFF \<longleftrightarrow> v < m"
    by (subst m(1)) simp
  moreover assume "1 / 99999 \<le> v"
  ultimately show "\<not> js_lt (Num v) MIN_DIFF"
    by linarith
qed

lemma nearestPowerOfTwo_top:
  assumes "1 \<le> v" and "v < 2 ^ 31"
  shows "\<exists>k. nearestPowerOfTwo (Num v) = Some (Some (Num (2 ^ k))) \<and> 2 ^ k \<le> v \<and> v < 2 * 2 ^ k"
proof -
  obtain k where k: "top_bit (Num v) = Num (2 ^ k)" "2 ^ k \<le> v" "v < 2 * 2 ^ k"
    using assms by (rule top_bit_power)
  then show ?thesis
    using assms(1) not_below_min[of v] by (subst nearestPowerOfTwo.simps) (simp add: js_eq_def)
qed

lemma top_bit_small: "0 \<le> v \<Longrightarrow> v < 1 \<Longrightarrow> top_bit (Num v) = Num 0"
proof -
  assume v: "0 \<le> v" "v < 1"
  then have "\<lfloor>v\<rfloor> = 0"
    by (simp add: floor_eq_iff)
  then have "to_int32 (Num v) = 0"
    using v by simp
  moreover have "sm 16 (sm 8 (sm 4 (sm 2 (sm 1 0)))) = 0"
    by (simp add: sm_def)
  ultimately have "smear (Num v) = of_int32 0"
    by (simp only: smear_word)
  then show ?thesis
    by (simp add: top_bit_def js_sar_def js_sub_def of_int32_def)
qed

lemma hundred_bounds:
  assumes "1 / 99999 \<le> v" and "v < 2 ^ 31"
  shows "js_mul (Num v) (Num 100) = Num (rnd (v * 100))"
    and "(1 - eps) * (v * 100) \<le> rnd (v * 100)" and "rnd (v * 100) \<le> (1 + eps) * (v * 100)"
proof -
  have "v * 100 \<le> 2 ^ 100"
    using assms(2) by simp
  also have "\<dots> \<le> 2 powi 1000"
    using pow2_mono[of 100 1000] by (simp add: power_int_numeral)
  finally show "js_mul (Num v) (Num 100) = Num (rnd (v * 100))"
    using assms(1) by (simp add: fl_small)
  have "2 powi (-100) \<le> v * 100"
    using assms(1) by (simp add: pow2_m100)
  then show "(1 - eps) * (v * 100) \<le> rnd (v * 100)" and "rnd (v * 100) \<le> (1 + eps) * (v * 100)"
    by (rule rnd_near)+
qed

text \<open>Going down by a hundred, rounding, and up again costs two roundings.\<close>

lemma hundredth_bounds:
  assumes "(1 - eps) * (v * 100) \<le> w" and "w \<le> (1 + eps) * (v * 100)"
    and "w / 2 * (1 - eps) ^ n \<le> r" and "r \<le> w * (1 + eps) ^ n"
    and "(1 - eps) * (r / 100) \<le> s" and "s \<le> (1 + eps) * (r / 100)"
  shows "v / 2 * (1 - eps) ^ (n + 2) \<le> s" and "s \<le> v * (1 + eps) ^ (n + 2)"
proof -
  note e = eps_bounds
  have "(1 - eps) * (v * 100) / 2 * (1 - eps) ^ n \<le> w / 2 * (1 - eps) ^ n"
    using assms(1) e by (intro mult_right_mono divide_right_mono) auto
  then have "(1 - eps) * (v * 100) / 2 * (1 - eps) ^ n \<le> r"
    using assms(3) by linarith
  then have "(1 - eps) * (((1 - eps) * (v * 100) / 2 * (1 - eps) ^ n) / 100) \<le> (1 - eps) * (r / 100)"
    using e by (intro mult_left_mono divide_right_mono) auto
  also have "(1 - eps) * (((1 - eps) * (v * 100) / 2 * (1 - eps) ^ n) / 100) = v / 2 * (1 - eps) ^ (n + 2)"
    by (simp add: power_add power2_eq_square)
  finally show "v / 2 * (1 - eps) ^ (n + 2) \<le> s"
    using assms(5) by (rule order_trans)
  have "w * (1 + eps) ^ n \<le> (1 + eps) * (v * 100) * (1 + eps) ^ n"
    using assms(2) e by (intro mult_right_mono) auto
  with assms(4) have "r \<le> (1 + eps) * (v * 100) * (1 + eps) ^ n"
    by (rule order_trans)
  then have "(1 + eps) * (r / 100) \<le> (1 + eps) * (((1 + eps) * (v * 100) * (1 + eps) ^ n) / 100)"
    using e by (intro mult_left_mono divide_right_mono) auto
  also have "(1 + eps) * (((1 + eps) * (v * 100) * (1 + eps) ^ n) / 100) = v * (1 + eps) ^ (n + 2)"
    by (simp add: power_add power2_eq_square)
  finally show "s \<le> v * (1 + eps) ^ (n + 2)"
    by (rule order_trans[OF assms(6)])
qed

lemma near_target_range:
  assumes "1 / 100000 \<le> w" and "w \<le> 200" and "n \<le> 10"
    and "w / 2 * (1 - eps) ^ n \<le> r" and "r \<le> w * (1 + eps) ^ n"
  shows "1 / 1000000 \<le> r" and "r \<le> 1000"
proof -
  have "(9 / 10 :: rat) \<le> (1 - eps) ^ n"
    using one_minus_eps_power[of n] assms(3) by (simp add: eps_def)
  then have "w / 2 * (9 / 10) \<le> w / 2 * (1 - eps) ^ n"
    using assms(1) by (intro mult_left_mono) auto
  then show "1 / 1000000 \<le> r"
    using assms(1,4) by linarith
  have "(1 + eps) ^ n \<le> (1 + eps) ^ 10"
    using eps_bounds assms(3) by (intro power_increasing) auto
  also have "\<dots> \<le> (11 / 10) ^ 10"
    by (rule power_mono) (simp_all add: eps_def)
  also have "\<dots> \<le> 3"
    by (simp add: power_divide)
  finally have "r \<le> w * 3"
    using assms(5) mult_left_mono[of "(1 + eps) ^ n" 3 w] assms(1) by linarith
  then show "r \<le> 1000"
    using assms(2) by linarith
qed

lemma near_target_step:
  assumes "1 / 99999 \<le> v" and "v < 1" and "near_target n (rnd (v * 100))" and "n \<le> 10"
  shows "near_target (n + 2) v"
proof -
  let ?w = "rnd (v * 100)"
  have w: "js_mul (Num v) (Num 100) = Num ?w" "(1 - eps) * (v * 100) \<le> ?w" "?w \<le> (1 + eps) * (v * 100)"
    using hundred_bounds[of v] assms(1,2) by auto
  obtain r where r: "nearestPowerOfTwo (Num ?w) = Some (Some (Num r))"
    "?w / 2 * (1 - eps) ^ n \<le> r" "r \<le> ?w * (1 + eps) ^ n"
    using assms(3) by (auto simp: near_target_def)
  have "1 / 99999 \<le> (1 - eps) * (v * 100)" and "(1 + eps) * (v * 100) \<le> 200"
    using assms(1,2) by (simp_all add: eps_def)
  then have w0: "1 / 99999 \<le> ?w" "?w \<le> 200"
    using w(2,3) by linarith+
  have r01: "1 / 1000000 \<le> r" "r \<le> 1000"
    using near_target_range[OF _ w0(2) assms(4) r(2,3)] w0(1) by auto
  have "(1::rat) \<le> 2 powi 1000"
    using pow2_mono[of 0 1000] by simp
  then have "fl (r / 100) = Num (rnd (r / 100))"
    using r01 pow2_mono[of 100 1000] by (intro fl_small) (simp add: power_int_numeral)
  moreover have "\<not> js_lt (Num ?w) MIN_DIFF"
    by (rule not_below_min[OF w0(1)])
  ultimately have "nearestPowerOfTwo (Num v) = Some (Some (Num (rnd (r / 100))))"
    using assms(1,2) not_below_min[of v] top_bit_small[of v] w(1) r(1)
    by (subst nearestPowerOfTwo.simps) (auto simp: js_eq_def)
  moreover have "2 powi (-100) \<le> r / 100"
    using r01(1) by (simp add: pow2_m100)
  note hundredth_bounds[OF w(2,3) r(2,3) rnd_near(1,2)[OF this]]
  ultimately show ?thesis
    unfolding near_target_def by blast
qed

lemma near_target_mono:
  assumes "near_target m v" and "m \<le> n" and "0 \<le> v"
  shows "near_target n v"
proof -
  have "(1 - eps) ^ n \<le> (1 - eps) ^ m" and "(1 + eps) ^ m \<le> (1 + eps) ^ n"
    using assms(2) eps_bounds by (auto intro: power_decreasing power_increasing)
  then have "v / 2 * (1 - eps) ^ n \<le> v / 2 * (1 - eps) ^ m" and "v * (1 + eps) ^ m \<le> v * (1 + eps) ^ n"
    using assms(3) by (auto intro: mult_left_mono)
  then show ?thesis
    using assms(1) unfolding near_target_def by (meson order_trans)
qed

lemma near_target_top: "1 \<le> v \<Longrightarrow> v < 2 ^ 31 \<Longrightarrow> near_target 0 v"
  using nearestPowerOfTwo_top[of v] by (auto simp: near_target_def)

lemma near_target_chain:
  assumes "1 / 99999 \<le> v" and "v < 1" and "near_target n (rnd (v * 100)) \<or> 1 \<le> rnd (v * 100)" and "n \<le> 10"
  shows "near_target (n + 2) v"
proof -
  have "rnd (v * 100) < 2 ^ 31"
    using hundred_bounds(3)[of v] assms(1,2) by (simp add: eps_def)
  moreover have "0 \<le> rnd (v * 100)"
    using assms(1) by (intro rnd_nonneg) simp
  ultimately have "near_target n (rnd (v * 100))"
    using assms(3) near_target_top near_target_mono[of 0 "rnd (v * 100)" n] by auto
  then show ?thesis
    using assms by (intro near_target_step) auto
qed

lemma near_target_below_one:
  assumes "1 / 99999 \<le> v" and "v < 1"
  shows "near_target 6 v"
proof -
  have step: "100 * u * (1 - eps) \<le> rnd (u * 100)" if "1 / 99999 \<le> u" "u < 1" for u
    using hundred_bounds(2)[of u] that by (simp add: mult_ac)
  have n1: "near_target 2 u" if "1 / 99 \<le> u" "u < 1" for u
  proof -
    have "1 \<le> 100 * u * (1 - eps)"
      using that(1) by (simp add: eps_def)
    then show ?thesis
      using near_target_chain[of u 0] step[of u] that by (simp add: numeral_2_eq_2)
  qed
  have n2: "near_target 4 u" if "1 / 9800 \<le> u" "u < 1" for u
  proof -
    have "1 / 99 \<le> 100 * u * (1 - eps)"
      using that(1) by (simp add: eps_def)
    then show ?thesis
      using near_target_chain[of u 2] step[of u] n1[of "rnd (u * 100)"] that by force
  qed
  have "1 / 9800 \<le> 100 * v * (1 - eps)"
    using assms(1) by (simp add: eps_def)
  then show ?thesis
    using near_target_chain[of v 4] step[of v] n2[of "rnd (v * 100)"] assms by force
qed

text \<open>
  The suggested difficulty ends and is near its target: for every target from \<open>1/99999\<close> up to
  \<open>2^31\<close> the recursion returns a number at most the target and at least half of it (up to six
  roundings), and from 1 on exactly the largest power of two not above the target.
\<close>

theorem suggested_difficulty_near:
  assumes "1 / 99999 \<le> v" and "v < 2 ^ 31"
  shows "\<exists>r. nearestPowerOfTwo (Num v) = Some (Some (Num r)) \<and>
     v / 2 * (1 - eps) ^ 6 \<le> r \<and> r \<le> v * (1 + eps) ^ 6 \<and>
     (if 1 \<le> v then \<exists>k. r = 2 ^ k \<and> r \<le> v \<and> v < 2 * r else True)"
proof (cases "1 \<le> v")
  case True
  then obtain k where k: "nearestPowerOfTwo (Num v) = Some (Some (Num (2 ^ k)))" "2 ^ k \<le> v" "v < 2 * 2 ^ k"
    using nearestPowerOfTwo_top assms by blast
  have "near_target 6 v"
  proof (rule near_target_mono)
    show "near_target 0 v"
      by (rule near_target_top[OF True assms(2)])
    show "(0::nat) \<le> 6" and "0 \<le> v"
      using True by simp_all
  qed
  then obtain r where r: "nearestPowerOfTwo (Num v) = Some (Some (Num r))"
    "v / 2 * (1 - eps) ^ 6 \<le> r" "r \<le> v * (1 + eps) ^ 6"
    unfolding near_target_def by blast
  have "Num r = Num (2 ^ k)"
    using r(1) unfolding k(1) by (simp only: option.inject)
  then have "r = 2 ^ k"
    by (simp only: jsnum.inject)
  then have "if 1 \<le> v then \<exists>k. r = 2 ^ k \<and> r \<le> v \<and> v < 2 * r else True"
    using k(2,3) by (simp only: if_P[OF True]) blast
  then show ?thesis
    using r by blast
next
  case False
  then show ?thesis
    using near_target_below_one[of v] assms by (simp add: near_target_def)
qed

theorem suggested_difficulty_near_witness:
  "\<exists>r. nearestPowerOfTwo (Num 3000) = Some (Some (Num r)) \<and>
     3000 / 2 * (1 - eps) ^ 6 \<le> r \<and> r \<le> 3000 * (1 + eps) ^ 6 \<and>
     (if 1 \<le> (3000 :: rat) then \<exists>k. r = 2 ^ k \<and> r \<le> 3000 \<and> 3000 < 2 * r else True)"
proof -
  have lo: "(1::rat) / 99999 \<le> 3000" and hi: "(3000::rat) < 2 ^ 31"
    by simp_all
  show ?thesis
    using suggested_difficulty_near[OF lo hi] by assumption
qed

end
