(* ===== verification/Buffers.thy ===== *)
theory Buffers
  imports Difficulty JsString
begin

text \<open>
  The \<open>Buffer\<close> operations the job code uses: hexadecimal text, copying into a buffer, writing a
  32-bit number. A write outside its range throws.
\<close>

section \<open>The operations\<close>

text \<open>\<open>Buffer.from(s, 'hex')\<close> stops at the first pair that is not hexadecimal.\<close>

fun from_hex :: "string \<Rightarrow> bytes" where
  "from_hex (a # b # s) =
     (if digit_val a < 16 \<and> digit_val b < 16 then word_of_int (16 * digit_val a + digit_val b) # from_hex s else [])"
| "from_hex _ = []"

fun le_bytes :: "nat \<Rightarrow> int \<Rightarrow> bytes" where
  "le_bytes 0 v = []"
| "le_bytes (Suc n) v = word_of_int v # le_bytes n (v div 256)"

text \<open>\<open>src.copy(dst, off)\<close> copies what fits; \<open>dst.set(src, off)\<close> throws when it does not fit.\<close>

definition copy_at :: "bytes \<Rightarrow> nat \<Rightarrow> bytes \<Rightarrow> bytes" where
  "copy_at src off dst = take off dst @ take (length dst - off) src @ drop (off + length src) dst"

definition set_at :: "bytes \<Rightarrow> nat \<Rightarrow> bytes \<Rightarrow> bytes fallible" where
  "set_at src off dst =
     (if length dst < off + length src then Inl (mk_error ''offset is out of bounds'') else Inr (copy_at src off dst))"

text \<open>
  The range check of a 32-bit write throws on a value outside the range; \<open>NaN\<close> passes it and is
  written as zero.
\<close>

definition write_32 :: "int \<Rightarrow> int \<Rightarrow> jsnum \<Rightarrow> nat \<Rightarrow> bytes \<Rightarrow> bytes fallible" where
  "write_32 lo hi v off dst =
     (if js_gt v (IntN hi) \<or> js_lt v (IntN lo) then Inl (mk_error ''ERR_OUT_OF_RANGE'')
      else Inr (copy_at (le_bytes 4 (case v of Num a \<Rightarrow> js_trunc a | _ \<Rightarrow> 0)) off dst))"

definition writeUInt32LE :: "jsnum \<Rightarrow> nat \<Rightarrow> bytes \<Rightarrow> bytes fallible" where
  "writeUInt32LE = write_32 0 4294967295"

definition writeInt32LE :: "jsnum \<Rightarrow> nat \<Rightarrow> bytes \<Rightarrow> bytes fallible" where
  "writeInt32LE = write_32 (- 2147483648) 2147483647"

section \<open>Lengths and positions\<close>

lemma length_le_bytes [simp]: "length (le_bytes n v) = n"
  by (induction n arbitrary: v) simp_all

lemma length_copy_at [simp]: "off \<le> length dst \<Longrightarrow> length (copy_at src off dst) = length dst"
  by (simp add: copy_at_def)

lemma copy_at_fits:
  "off + length src \<le> length dst \<Longrightarrow>
     copy_at src off dst = take off dst @ src @ drop (off + length src) dst"
  by (simp add: copy_at_def)

lemma set_at_fits [simp]: "off + length src \<le> length dst \<Longrightarrow> set_at src off dst = Inr (copy_at src off dst)"
  by (simp add: set_at_def)

text \<open>The \<open>n\<close> bytes from position \<open>off\<close> on.\<close>

definition field_at :: "nat \<Rightarrow> nat \<Rightarrow> bytes \<Rightarrow> bytes" where
  "field_at off n h = take n (drop off h)"

lemma field_at_copy_same:
  "off + length src \<le> length dst \<Longrightarrow> n = length src \<Longrightarrow> field_at off n (copy_at src off dst) = src"
  by (simp add: field_at_def copy_at_fits)

lemma field_at_copy_other:
  assumes "off + length src \<le> length dst" and "p + n \<le> off \<or> off + length src \<le> p"
  shows "field_at p n (copy_at src off dst) = field_at p n dst"
proof (rule nth_equalityI)
  show "length (field_at p n (copy_at src off dst)) = length (field_at p n dst)"
    using assms(1) by (simp add: field_at_def)
next
  fix i
  assume "i < length (field_at p n (copy_at src off dst))"
  then have "i < n" and "p + i < length dst"
    using assms(1) by (simp_all add: field_at_def) linarith
  then show "field_at p n (copy_at src off dst) ! i = field_at p n dst ! i"
    using assms by (auto simp: field_at_def copy_at_fits nth_append)
qed

section \<open>Numbers and texts of bytes\<close>

text \<open>The little-endian value written is the value read.\<close>

lemma hash_value_Cons: "hash_value (b # bs) = uint b + 256 * hash_value bs"
  by (simp add: hash_value_def)

lemma hash_value_Nil [simp]: "hash_value [] = 0"
  by (simp add: hash_value_def)

lemma le_bytes_value: "hash_value (le_bytes n v) = v mod 256 ^ n"
proof (induction n arbitrary: v)
  case (Suc n)
  have "hash_value (le_bytes (Suc n) v) = v mod 256 + 256 * (v div 256 mod 256 ^ n)"
    using Suc by (simp add: hash_value_Cons uint_word_of_int)
  also have "\<dots> = v mod (256 * 256 ^ n)"
    by (subst zmod_zmult2_eq) simp_all
  finally show ?case by simp
qed simp

lemma le_bytes_inject: "n = 4 \<Longrightarrow> le_bytes n v = le_bytes n w \<Longrightarrow> v mod 2 ^ 32 = w mod 2 ^ 32"
  using le_bytes_value[of n v] le_bytes_value[of n w] by simp

lemma to_hex_Cons: "to_hex (b # bs) = digit_char (uint b div 16) # digit_char (uint b mod 16) # to_hex bs"
  by (simp add: to_hex_def)

lemma to_hex_Nil [simp]: "to_hex [] = []"
  by (simp add: to_hex_def)

lemma to_hex_append: "to_hex (as @ bs) = to_hex as @ to_hex bs"
  by (simp add: to_hex_def)

lemma from_to_hex [simp]: "from_hex (to_hex bs) = bs"
proof (induction bs)
  case (Cons b bs)
  define m n where "m = uint b div 16" and "n = uint b mod 16"
  have bounds: "0 \<le> m" "m < 16" "0 \<le> n" "n < 16"
    using uint_byte[of b] unfolding m_def n_def by linarith+
  have "16 * m + n = uint b"
    by (simp add: m_def n_def)
  then have b: "word_of_int (16 * m + n) = b"
    by simp
  show ?case
    unfolding to_hex_Cons m_def[symmetric] n_def[symmetric]
    using Cons bounds b by simp
qed simp

end
