(* ===== verification/MiningJob.thy ===== *)
theory MiningJob
  imports Buffers Config JsValue
begin

text \<open>
  A mining job (\<open>src/models/MiningJob.ts\<close>): the coinbase transaction that pays the pool and
  carries the node's required outputs, its split into the two halves sent to the miner, and the
  block header rebuilt from a submitted share. The Bitcoin library the code calls (\<open>bitcoinjs-lib\<close>,
  \<open>merkle-lib\<close>) is the record \<open>bitcoin_lib\<close> of functions, a parameter of every definition.
\<close>

section \<open>Transactions, blocks, templates\<close>

record tx_in =
  ti_hash :: bytes
  ti_index :: int
  ti_script :: bytes
  ti_sequence :: int
  ti_witness :: "bytes list"

record tx_out =
  to_script :: bytes
  to_value :: jsnum

record transaction =
  tx_version :: int
  tx_locktime :: jsnum
  tx_ins :: "tx_in list"
  tx_outs :: "tx_out list"

record block =
  bl_version :: jsnum
  bl_prevHash :: bytes
  bl_merkleRoot :: "bytes option"
  bl_timestamp :: jsnum
  bl_bits :: jsnum
  bl_nonce :: jsnum
  bl_transactions :: "transaction list"
  bl_witnessCommit :: "bytes option"

record block_data =
  bd_id :: string
  bd_creation :: int
  bd_coinbasevalue :: jsnum
  bd_networkDifficulty :: jsnum
  bd_height :: jsnum
  bd_clearJobs :: bool

record job_template =
  jt_block :: block
  jt_merkle_branch :: "string list"
  jt_required_outputs :: "tx_out list option"
  jt_script_sig_prefix :: "bytes option"
  jt_blockData :: block_data

text \<open>
  The library: double SHA-256; the serialisation without witness, which throws on values outside
  their fields; the weights; the script of an address; the minimal script number; \<open>OP_RETURN\<close> with
  one push; the check \<open>addOutput\<close> makes of a value; decoding; the id hash without witness; the
  proof of the first leaf of a Merkle tree; the witness root; the text of a block.
\<close>

record bitcoin_lib =
  b_hash256 :: "bytes \<Rightarrow> bytes"
  b_serialize :: "transaction \<Rightarrow> bytes fallible"
  b_reparse :: "transaction \<Rightarrow> transaction fallible"
  b_tx_weight :: "transaction \<Rightarrow> int"
  b_block_weight :: "block \<Rightarrow> int"
  b_output_script :: "string \<Rightarrow> network \<Rightarrow> bytes fallible"
  b_script_number :: "jsnum \<Rightarrow> bytes"
  b_op_return :: "bytes \<Rightarrow> bytes"
  b_value_ok :: "jsnum \<Rightarrow> bool"
  b_tx_from_hex :: "string \<Rightarrow> transaction fallible"
  b_tx_hash :: "transaction \<Rightarrow> bytes"
  b_merkle_proof :: "bytes list \<Rightarrow> bytes option list"
  b_witness_root :: "transaction list \<Rightarrow> bytes fallible"
  b_block_hex :: "block \<Rightarrow> string"
  b_block_id :: "block \<Rightarrow> string"

record address_object =
  ao_address :: string
  ao_percent :: jsnum

record mining_job =
  mj_jobId :: string
  mj_jobTemplateId :: string
  mj_creation :: int
  mj_jobVersion :: jsnum
  mj_coinbaseTransaction :: transaction
  mj_coinbasePart1 :: bytes
  mj_coinbasePart2 :: bytes
  mj_merkleBranch :: "bytes list"

section \<open>The coinbase\<close>

definition add_output :: "bitcoin_lib \<Rightarrow> bytes \<Rightarrow> jsnum \<Rightarrow> transaction \<Rightarrow> transaction fallible" where
  "add_output lib script v tx =
     (if b_value_ok lib v then Inr (tx\<lparr>tx_outs := tx_outs tx @ [\<lparr>to_script = script, to_value = v\<rparr>]\<rparr>)
      else Inl (mk_error ''Expected property 1 of type Satoshi''))"

definition getPaymentScript :: "bitcoin_lib \<Rightarrow> network \<Rightarrow> string \<Rightarrow> bytes" where
  "getPaymentScript lib nw address = (case b_output_script lib address nw of Inl e \<Rightarrow> [] | Inr s \<Rightarrow> s)"

definition empty_coinbase :: transaction where
  "empty_coinbase =
     \<lparr>tx_version = 2, tx_locktime = Num 0,
      tx_ins = [\<lparr>ti_hash = replicate 32 0, ti_index = 4294967295, ti_script = [], ti_sequence = 4294967294,
                 ti_witness = []\<rparr>], tx_outs = []\<rparr>"

definition payout_amount :: "jsnum \<Rightarrow> address_object \<Rightarrow> jsnum" where
  "payout_amount reward a = js_floor (js_mul (js_div (ao_percent a) (Num 100)) reward)"

fun add_payouts ::
  "bitcoin_lib \<Rightarrow> network \<Rightarrow> jsnum \<Rightarrow> address_object list \<Rightarrow> jsnum \<times> transaction \<Rightarrow> (jsnum \<times> transaction) fallible" where
  "add_payouts lib nw reward [] s = Inr s"
| "add_payouts lib nw reward (a # as) (rewardBalance, tx) =
     fbind (add_output lib (getPaymentScript lib nw (ao_address a)) (payout_amount reward a) tx)
       (\<lambda>tx'. add_payouts lib nw reward as (js_sub rewardBalance (payout_amount reward a), tx'))"

definition createCoinbaseTransaction ::
  "bitcoin_lib \<Rightarrow> network \<Rightarrow> address_object list \<Rightarrow> jsnum \<Rightarrow> transaction fallible" where
  "createCoinbaseTransaction lib nw addresses reward =
     fbind (add_payouts lib nw reward addresses (reward, empty_coinbase)) (\<lambda>(rewardBalance, tx).
       case tx_outs tx of
         [] \<Rightarrow> Inl (mk_error ''Cannot read properties of undefined'')
       | o1 # os \<Rightarrow> Inr (tx\<lparr>tx_outs := o1\<lparr>to_value := js_add (to_value o1) rewardBalance\<rparr> # os,
                            tx_ins := map (\<lambda>i. i\<lparr>ti_witness := [replicate 32 0]\<rparr>) (tx_ins tx)\<rparr>))"

text \<open>The scriptSig: the node's prefix as it is, or the pushed height, padded to two bytes.\<close>

definition height_script :: "bitcoin_lib \<Rightarrow> jsnum \<Rightarrow> bytes" where
  "height_script lib height =
     (let heightEncoded = b_script_number lib height;
          scriptSig = word_of_int (int (length heightEncoded)) # heightEncoded
      in if length scriptSig < 2 then scriptSig @ [0] else scriptSig)"

definition script_sig :: "bitcoin_lib \<Rightarrow> job_template \<Rightarrow> bytes" where
  "script_sig lib t =
     (case jt_script_sig_prefix t of
        Some p \<Rightarrow> if p \<noteq> [] then p else height_script lib (bd_height (jt_blockData t))
      | None \<Rightarrow> height_script lib (bd_height (jt_blockData t)))"

fun add_outputs :: "bitcoin_lib \<Rightarrow> tx_out list \<Rightarrow> transaction \<Rightarrow> transaction fallible" where
  "add_outputs lib [] tx = Inr tx"
| "add_outputs lib (x # xs) tx = fbind (add_output lib (to_script x) (to_value x) tx) (add_outputs lib xs)"

definition segwitMagic :: bytes where
  "segwitMagic = [0xaa, 0x21, 0xa9, 0xed]"

definition add_required_outputs :: "bitcoin_lib \<Rightarrow> job_template \<Rightarrow> transaction \<Rightarrow> transaction fallible" where
  "add_required_outputs lib t tx =
     (let requiredOutputs = (case jt_required_outputs t of None \<Rightarrow> [] | Some xs \<Rightarrow> xs)
      in if requiredOutputs \<noteq> [] then add_outputs lib requiredOutputs tx
         else case bl_witnessCommit (jt_block t) of
                None \<Rightarrow> Inr tx
              | Some c \<Rightarrow> add_output lib (b_op_return lib (segwitMagic @ c)) (Num 0) tx)"

text \<open>The transaction of a job before its weight is checked.\<close>

definition job_coinbase :: "bitcoin_lib \<Rightarrow> network \<Rightarrow> address_object list \<Rightarrow> job_template \<Rightarrow> transaction fallible" where
  "job_coinbase lib nw payoutInformation t =
     fbind (createCoinbaseTransaction lib nw payoutInformation (bd_coinbasevalue (jt_blockData t))) (\<lambda>tx.
       add_required_outputs lib t
         (tx\<lparr>tx_locktime := js_sub (bd_height (jt_blockData t)) (Num 1),
             tx_ins := map (\<lambda>i. i\<lparr>ti_script := script_sig lib t\<rparr>) (tx_ins tx)\<rparr>))"

definition new_mining_job ::
  "bitcoin_lib \<Rightarrow> network \<Rightarrow> int \<Rightarrow> string \<Rightarrow> address_object list \<Rightarrow> job_template \<Rightarrow> mining_job fallible" where
  "new_mining_job lib nw now jobId payoutInformation t =
     fbind (job_coinbase lib nw payoutInformation t) (\<lambda>tx.
       if b_tx_weight lib tx + b_block_weight lib (jt_block t) > 4000000
       then Inl (mk_error ''Block weight exceeds the maximum allowed weight'')
       else fbind (b_serialize lib tx) (\<lambda>full.
         let coinbaseSplitOffset = 41 + 1 + length (script_sig lib t)
         in Inr \<lparr>mj_jobId = jobId, mj_jobTemplateId = bd_id (jt_blockData t), mj_creation = now,
                 mj_jobVersion = bl_version (jt_block t), mj_coinbaseTransaction = tx,
                 mj_coinbasePart1 = take coinbaseSplitOffset full,
                 mj_coinbasePart2 = drop coinbaseSplitOffset full,
                 mj_merkleBranch = map from_hex (jt_merkle_branch t)\<rparr>))"

section \<open>The header of a share\<close>

text \<open>One 64-byte buffer is reused: the running root in its first half, the branch in its second.\<close>

fun merkle_loop :: "bitcoin_lib \<Rightarrow> bytes \<Rightarrow> bytes list \<Rightarrow> bytes fallible" where
  "merkle_loop lib bothMerkles [] = Inr bothMerkles"
| "merkle_loop lib bothMerkles (b # bs) =
     fbind (set_at b 32 bothMerkles) (\<lambda>m.
       fbind (set_at (b_hash256 lib m) 0 m) (\<lambda>m'. merkle_loop lib m' bs))"

definition calculateMerkleRootHash :: "bitcoin_lib \<Rightarrow> bytes \<Rightarrow> bytes list \<Rightarrow> bytes fallible" where
  "calculateMerkleRootHash lib newRoot merkleBranches =
     fbind (set_at newRoot 0 (replicate 64 0)) (\<lambda>m.
       fbind (merkle_loop lib m merkleBranches) (\<lambda>m'. Inr (take 32 m')))"

definition rolled_version :: "jsnum \<Rightarrow> jsnum \<Rightarrow> jsnum" where
  "rolled_version version versionMask =
     (if \<not> js_eq versionMask (Num 0) then js_bitxor version versionMask else version)"

definition assembleHeader ::
  "bitcoin_lib \<Rightarrow> mining_job \<Rightarrow> job_template \<Rightarrow> jsnum \<Rightarrow> jsnum \<Rightarrow> bytes \<Rightarrow> jsnum \<Rightarrow> bytes fallible" where
  "assembleHeader lib job t versionMask nonce coinbaseSerialized timestamp =
     fbind (calculateMerkleRootHash lib (b_hash256 lib coinbaseSerialized) (mj_merkleBranch job)) (\<lambda>merkleRoot.
       fbind (writeInt32LE (rolled_version (mj_jobVersion job) versionMask) 0 (replicate 80 0)) (\<lambda>h.
         let h = copy_at merkleRoot 36 (copy_at (bl_prevHash (jt_block t)) 4 h)
         in fbind (writeUInt32LE timestamp 68 h) (\<lambda>h.
              fbind (writeUInt32LE (bl_bits (jt_block t)) 72 h) (\<lambda>h.
                writeUInt32LE nonce 76 h))))"

definition buildHeaderBuffer ::
  "bitcoin_lib \<Rightarrow> mining_job \<Rightarrow> job_template \<Rightarrow> jsnum \<Rightarrow> jsnum \<Rightarrow> jsnum \<Rightarrow> bytes fallible" where
  "buildHeaderBuffer lib job t versionMask nonce timestamp =
     assembleHeader lib job t versionMask nonce (mj_coinbasePart1 job @ mj_coinbasePart2 job) timestamp"

definition buildHeaderBufferWithCoinbaseSuffix ::
  "bitcoin_lib \<Rightarrow> mining_job \<Rightarrow> job_template \<Rightarrow> jsnum \<Rightarrow> jsnum \<Rightarrow> bytes \<Rightarrow> jsnum \<Rightarrow> bytes fallible" where
  "buildHeaderBufferWithCoinbaseSuffix lib job t versionMask nonce coinbaseSuffix timestamp =
     assembleHeader lib job t versionMask nonce
       (if coinbaseSuffix \<noteq> [] then mj_coinbasePart1 job @ coinbaseSuffix else mj_coinbasePart1 job) timestamp"

definition buildHeaderBufferWithCoinbasePrefix ::
  "bitcoin_lib \<Rightarrow> mining_job \<Rightarrow> job_template \<Rightarrow> jsnum \<Rightarrow> jsnum \<Rightarrow> bytes \<Rightarrow> jsnum \<Rightarrow> bytes fallible" where
  "buildHeaderBufferWithCoinbasePrefix lib job t versionMask nonce coinbasePrefix timestamp =
     assembleHeader lib job t versionMask nonce
       (if coinbasePrefix \<noteq> [] then coinbasePrefix @ mj_coinbasePart1 job else mj_coinbasePart1 job) timestamp"

definition splice_script :: "bytes \<Rightarrow> transaction \<Rightarrow> transaction" where
  "splice_script extraBytes tx =
     tx\<lparr>tx_ins := (case tx_ins tx of [] \<Rightarrow> [] | i # is \<Rightarrow> i\<lparr>ti_script := ti_script i @ extraBytes\<rparr> # is)\<rparr>"

definition buildHeaderBufferWithScriptSigSplice ::
  "bitcoin_lib \<Rightarrow> mining_job \<Rightarrow> job_template \<Rightarrow> jsnum \<Rightarrow> jsnum \<Rightarrow> bytes \<Rightarrow> jsnum \<Rightarrow> bytes fallible" where
  "buildHeaderBufferWithScriptSigSplice lib job t versionMask nonce extraBytes timestamp =
     fbind (b_reparse lib (mj_coinbaseTransaction job)) (\<lambda>cloned.
       fbind (b_serialize lib (splice_script extraBytes cloned)) (\<lambda>splicedCoinbase.
         assembleHeader lib job t versionMask nonce splicedCoinbase timestamp))"

definition copyAndUpdateBlock ::
  "bitcoin_lib \<Rightarrow> mining_job \<Rightarrow> job_template \<Rightarrow> jsnum \<Rightarrow> jsnum \<Rightarrow> jsnum \<Rightarrow> block fallible" where
  "copyAndUpdateBlock lib job t versionMask nonce timestamp =
     fbind (b_reparse lib (mj_coinbaseTransaction job)) (\<lambda>coinbase.
       let txs = (case bl_transactions (jt_block t) of [] \<Rightarrow> [coinbase] | _ # rest \<Rightarrow> coinbase # rest)
       in fbind (calculateMerkleRootHash lib (b_tx_hash lib coinbase) (mj_merkleBranch job)) (\<lambda>merkleRoot.
            Inr ((jt_block t)\<lparr>bl_version := rolled_version (mj_jobVersion job) versionMask,
                              bl_transactions := txs, bl_nonce := nonce,
                              bl_merkleRoot := Some merkleRoot, bl_timestamp := timestamp\<rparr>)))"

section \<open>What the miner is told\<close>

text \<open>
  Four-byte groups are reversed; a read past the end of the buffer is \<open>undefined\<close>, stored as zero,
  and a write past it is ignored.
\<close>

fun swapEndianWords :: "bytes \<Rightarrow> bytes" where
  "swapEndianWords (a # b # c # d # bs) = d # c # b # a # swapEndianWords bs"
| "swapEndianWords [a, b, c] = [0, c, b]"
| "swapEndianWords [a, b] = [0, 0]"
| "swapEndianWords [a] = [0]"
| "swapEndianWords [] = []"

text \<open>The template numbers are integers; \<open>toString(16)\<close> puts a sign before a negative one.\<close>

definition num_hex :: "jsnum \<Rightarrow> string" where
  "num_hex v =
     (case v of
        Num a \<Rightarrow> if a < 0 then CHR ''-'' # hex_string \<lfloor>- a\<rfloor> else hex_string \<lfloor>a\<rfloor>
      | NaN \<Rightarrow> ''NaN'' | PosInf \<Rightarrow> ''Infinity'' | NegInf \<Rightarrow> ''-Infinity'')"

text \<open>The object whose \<open>JSON.stringify\<close> is the \<open>mining.notify\<close> line.\<close>

definition notify_message :: "mining_job \<Rightarrow> job_template \<Rightarrow> jsval" where
  "notify_message job t =
     Obj [(''id'', Null), (''method'', String ''mining.notify''),
          (''params'', Arr [String (mj_jobId job),
             String (to_hex (swapEndianWords (bl_prevHash (jt_block t)))),
             String (to_hex (mj_coinbasePart1 job)), String (to_hex (mj_coinbasePart2 job)),
             Arr (map String (jt_merkle_branch t)),
             String (num_hex (mj_jobVersion job)), String (num_hex (bl_bits (jt_block t))),
             String (num_hex (bl_timestamp (jt_block t))), Bool (bd_clearJobs (jt_blockData t))])]"

section \<open>What the code relies on in the library\<close>

text \<open>
  Hashes have 32 bytes; a transaction read back from its own serialisation is the same; its id is
  the hash of the serialisation without witness, which starts, for one input with a script below
  253 bytes, with version, input count, outpoint, script length, script and sequence.
\<close>

definition hash_ok :: "bitcoin_lib \<Rightarrow> bool" where
  "hash_ok lib \<longleftrightarrow> (\<forall>x. length (b_hash256 lib x) = 32)"

definition tx_id_ok :: "bitcoin_lib \<Rightarrow> transaction \<Rightarrow> bool" where
  "tx_id_ok lib tx \<longleftrightarrow> b_reparse lib tx = Inr tx \<and> (\<forall>full. b_serialize lib tx = Inr full \<longrightarrow> b_tx_hash lib tx = b_hash256 lib full)"

definition input_bytes :: "transaction \<Rightarrow> tx_in \<Rightarrow> bytes" where
  "input_bytes tx i =
     le_bytes 4 (tx_version tx) @ [1] @ ti_hash i @ le_bytes 4 (ti_index i) @
     [word_of_int (int (length (ti_script i)))] @ ti_script i"

definition layout_ok :: "bitcoin_lib \<Rightarrow> bool" where
  "layout_ok lib \<longleftrightarrow>
     (\<forall>tx i full. tx_ins tx = [i] \<longrightarrow> length (ti_hash i) = 32 \<longrightarrow> length (ti_script i) < 253 \<longrightarrow>
        b_serialize lib tx = Inr full \<longrightarrow>
        (\<exists>rest. full = input_bytes tx i @ le_bytes 4 (ti_sequence i) @ rest))"

lemma layoutD:
  "layout_ok lib \<Longrightarrow> tx_ins tx = [i] \<Longrightarrow> length (ti_hash i) = 32 \<Longrightarrow> length (ti_script i) < 253 \<Longrightarrow>
     b_serialize lib tx = Inr full \<Longrightarrow> \<exists>rest. full = input_bytes tx i @ le_bytes 4 (ti_sequence i) @ rest"
  unfolding layout_ok_def by blast

section \<open>The coinbase of a job\<close>

definition coinbase_input :: "bytes \<Rightarrow> tx_in" where
  "coinbase_input script =
     \<lparr>ti_hash = replicate 32 0, ti_index = 4294967295, ti_script = script, ti_sequence = 4294967294,
      ti_witness = [replicate 32 0]\<rparr>"

lemma const_bytes:
  "le_bytes 4 2 = [2, 0, 0, 0]" "le_bytes 4 4294967295 = [255, 255, 255, 255]"
  "le_bytes 4 4294967294 = [254, 255, 255, 255]"
  by code_simp+

lemma replicate_4: "replicate 4 x = [x, x, x, x]"
  by (simp add: numeral_eq_Suc)

lemma add_output_tx: "add_output lib s v tx = Inr tx' \<Longrightarrow>
  tx' = tx\<lparr>tx_outs := tx_outs tx @ [\<lparr>to_script = s, to_value = v\<rparr>]\<rparr>"
  by (auto simp: add_output_def split: if_splits)

lemma add_outputs_tx: "add_outputs lib xs tx = Inr tx' \<Longrightarrow> tx' = tx\<lparr>tx_outs := tx_outs tx @ xs\<rparr>"
proof (induction xs arbitrary: tx)
  case (Cons x xs)
  then obtain tx1 where 1: "add_output lib (to_script x) (to_value x) tx = Inr tx1" and 2: "add_outputs lib xs tx1 = Inr tx'"
    by (auto simp: fbind_Inr)
  then show ?case
    using Cons.IH[OF 2] add_output_tx[OF 1] by simp
qed simp

lemma add_payouts_keeps:
  "add_payouts lib nw reward as (b, tx) = Inr (b', tx') \<Longrightarrow> \<exists>xs. tx' = tx\<lparr>tx_outs := tx_outs tx @ xs\<rparr>"
proof (induction as arbitrary: b tx)
  case Nil
  then show ?case
    by (auto intro: exI[of _ "[]"])
next
  case (Cons a as)
  then obtain tx1 where 1: "add_output lib (getPaymentScript lib nw (ao_address a)) (payout_amount reward a) tx = Inr tx1"
    and 2: "add_payouts lib nw reward as (js_sub b (payout_amount reward a), tx1) = Inr (b', tx')"
    by (auto simp: fbind_Inr)
  show ?case
    using Cons.IH[OF 2] add_output_tx[OF 1] by auto
qed

lemma required_outputs_tx:
  "add_required_outputs lib t tx = Inr tx' \<Longrightarrow>
     tx' = tx\<lparr>tx_outs := tx_outs tx' \<rparr> \<and> (\<exists>xs. tx_outs tx' = tx_outs tx @ xs)"
  by (auto simp: add_required_outputs_def Let_def split: if_splits option.splits
      dest!: add_outputs_tx add_output_tx)

lemma create_coinbase_form:
  assumes "createCoinbaseTransaction lib nw pay reward = Inr tx"
  shows "tx_version tx = 2 \<and> tx_ins tx = [coinbase_input []]"
proof -
  obtain b tx1 where 1: "add_payouts lib nw reward pay (reward, empty_coinbase) = Inr (b, tx1)"
    and 2: "(case tx_outs tx1 of [] \<Rightarrow> Inl (mk_error ''Cannot read properties of undefined'')
       | o1 # os \<Rightarrow> Inr (tx1\<lparr>tx_outs := o1\<lparr>to_value := js_add (to_value o1) b\<rparr> # os,
                            tx_ins := map (\<lambda>i. i\<lparr>ti_witness := [replicate 32 0]\<rparr>) (tx_ins tx1)\<rparr>)) = Inr tx"
    using assms by (auto simp: createCoinbaseTransaction_def fbind_Inr)
  from 2 have "tx_version tx = tx_version tx1 \<and> tx_ins tx = map (\<lambda>i. i\<lparr>ti_witness := [replicate 32 0]\<rparr>) (tx_ins tx1)"
    by (cases "tx_outs tx1") auto
  then show ?thesis
    using add_payouts_keeps[OF 1] by (auto simp: empty_coinbase_def coinbase_input_def)
qed

lemma job_coinbase_form:
  assumes "job_coinbase lib nw pay t = Inr tx"
  shows "tx_version tx = 2 \<and> tx_ins tx = [coinbase_input (script_sig lib t)] \<and>
         tx_locktime tx = js_sub (bd_height (jt_blockData t)) (Num 1)"
proof -
  obtain tx1 where
    1: "createCoinbaseTransaction lib nw pay (bd_coinbasevalue (jt_blockData t)) = Inr tx1" and
    2: "add_required_outputs lib t
          (tx1\<lparr>tx_locktime := js_sub (bd_height (jt_blockData t)) (Num 1),
               tx_ins := map (\<lambda>i. i\<lparr>ti_script := script_sig lib t\<rparr>) (tx_ins tx1)\<rparr>) = Inr tx"
    using assms unfolding job_coinbase_def fbind_Inr by blast
  define tx2 where "tx2 = tx1\<lparr>tx_locktime := js_sub (bd_height (jt_blockData t)) (Num 1),
               tx_ins := map (\<lambda>i. i\<lparr>ti_script := script_sig lib t\<rparr>) (tx_ins tx1)\<rparr>"
  obtain xs where "tx = tx2\<lparr>tx_outs := xs\<rparr>"
    using required_outputs_tx[OF 2[folded tx2_def]] by blast
  then show ?thesis
    using create_coinbase_form[OF 1] by (simp add: tx2_def coinbase_input_def)
qed

text \<open>
  C21. The two halves of the coinbase sent to the miner: joined with nothing between them they are
  the serialised transaction; the first half ends with exactly the scriptSig the node asked for (or
  the height push), the second starts with the sequence number; the lock time is the height minus
  one. The script is assumed below 253 bytes (the consensus limit is 100).
\<close>

theorem coinbase_halves:
  assumes "layout_ok lib" and "new_mining_job lib nw now jobId pay t = Inr job"
    and "length (script_sig lib t) < 253"
  shows "b_serialize lib (mj_coinbaseTransaction job) = Inr (mj_coinbasePart1 job @ mj_coinbasePart2 job) \<and>
         mj_coinbasePart1 job = [2, 0, 0, 0, 1] @ replicate 32 0 @ replicate 4 255 @
           [word_of_int (int (length (script_sig lib t)))] @ script_sig lib t \<and>
         take 4 (mj_coinbasePart2 job) = [254, 255, 255, 255] \<and>
         tx_locktime (mj_coinbaseTransaction job) = js_sub (bd_height (jt_blockData t)) (Num 1)"
proof -
  define k where "k = 42 + length (script_sig lib t)"
  obtain tx full where tx: "job_coinbase lib nw pay t = Inr tx" and full: "b_serialize lib tx = Inr full"
    and job: "mj_coinbaseTransaction job = tx" "mj_coinbasePart1 job = take k full" "mj_coinbasePart2 job = drop k full"
    using assms(2) by (auto simp: new_mining_job_def fbind_Inr Let_def k_def split: if_splits)
  note form = job_coinbase_form[OF tx]
  have ins: "tx_ins tx = [coinbase_input (script_sig lib t)]"
    using form by simp
  obtain rest where "full = input_bytes tx (coinbase_input (script_sig lib t)) @
      le_bytes 4 (ti_sequence (coinbase_input (script_sig lib t))) @ rest"
    using layoutD[OF assms(1) ins _ _ full] assms(3) by (auto simp: coinbase_input_def)
  then have rest: "full = input_bytes tx (coinbase_input (script_sig lib t)) @ le_bytes 4 4294967294 @ rest"
    by (simp add: coinbase_input_def)
  have inp: "input_bytes tx (coinbase_input (script_sig lib t)) =
      [2, 0, 0, 0, 1] @ replicate 32 0 @ replicate 4 255 @
           [word_of_int (int (length (script_sig lib t)))] @ script_sig lib t"
    using form by (simp add: input_bytes_def coinbase_input_def const_bytes replicate_4)
  have len: "length (input_bytes tx (coinbase_input (script_sig lib t))) = k"
    by (simp add: inp k_def)
  show ?thesis
  proof (intro conjI)
    show "b_serialize lib (mj_coinbaseTransaction job) = Inr (mj_coinbasePart1 job @ mj_coinbasePart2 job)"
      by (simp add: job full)
    show "mj_coinbasePart1 job = [2, 0, 0, 0, 1] @ replicate 32 0 @ replicate 4 255 @
           [word_of_int (int (length (script_sig lib t)))] @ script_sig lib t"
      unfolding job rest inp[symmetric] by (simp add: len)
    have "mj_coinbasePart2 job = le_bytes 4 4294967294 @ rest"
      unfolding job rest by (simp add: len)
    then show "take 4 (mj_coinbasePart2 job) = [254, 255, 255, 255]"
      by (simp add: const_bytes)
    show "tx_locktime (mj_coinbaseTransaction job) = js_sub (bd_height (jt_blockData t)) (Num 1)"
      by (simp add: job form)
  qed
qed

section \<open>The root over a branch\<close>

text \<open>The reference: hash the running root with each sibling to its right.\<close>

definition fold_branch :: "(bytes \<Rightarrow> bytes) \<Rightarrow> bytes \<Rightarrow> bytes list \<Rightarrow> bytes" where
  "fold_branch H r0 branch = foldl (\<lambda>r b. H (r @ b)) r0 branch"

definition branch_ok :: "bytes list \<Rightarrow> bool" where
  "branch_ok bs \<longleftrightarrow> (\<forall>b \<in> set bs. length b = 32)"

lemma copy_second_half: "length m = 64 \<Longrightarrow> length b = 32 \<Longrightarrow> copy_at b 32 m = take 32 m @ b"
  by (simp add: copy_at_fits)

lemma copy_first_half: "length m = 64 \<Longrightarrow> length r = 32 \<Longrightarrow> take 32 (copy_at r 0 m) = r"
  by (simp add: copy_at_fits)

lemma merkle_loop_fold:
  assumes "hash_ok lib" and "branch_ok bs" and "length m = 64"
  shows "\<exists>m'. merkle_loop lib m bs = Inr m' \<and> length m' = 64 \<and>
              take 32 m' = fold_branch (b_hash256 lib) (take 32 m) bs"
  using assms(2,3)
proof (induction bs arbitrary: m)
  case Nil
  then show ?case
    by (simp add: fold_branch_def)
next
  case (Cons b bs)
  define m1 where "m1 = copy_at b 32 m"
  define m2 where "m2 = copy_at (b_hash256 lib m1) 0 m1"
  have b: "length b = 32" and bs: "branch_ok bs"
    using Cons.prems(1) by (simp_all add: branch_ok_def)
  have H: "length (b_hash256 lib m1) = 32"
    using assms(1) by (simp add: hash_ok_def)
  have m1: "m1 = take 32 m @ b" "length m1 = 64"
    using Cons.prems(2) b by (simp_all add: m1_def copy_second_half)
  have m2: "length m2 = 64" "take 32 m2 = b_hash256 lib (take 32 m @ b)"
    using H m1 by (simp_all add: m2_def copy_first_half)
  have "merkle_loop lib m (b # bs) = merkle_loop lib m2 bs"
    using Cons.prems(2) b H m1(2) by (simp add: m1_def[symmetric] m2_def)
  then show ?case
    using Cons.IH[OF bs m2(1)] by (simp add: fold_branch_def m2(2))
qed

lemma merkle_root_fold:
  assumes "hash_ok lib" and "branch_ok bs" and "length r = 32"
  shows "calculateMerkleRootHash lib r bs = Inr (fold_branch (b_hash256 lib) r bs)"
proof -
  define m where "m = copy_at r 0 (replicate 64 0)"
  have m: "length m = 64" "take 32 m = r"
    using assms(3) by (simp_all add: m_def copy_first_half)
  have "set_at r 0 (replicate 64 0) = Inr m"
    using assms(3) by (simp add: m_def)
  then show ?thesis
    using merkle_loop_fold[OF assms(1,2) m(1)] m(2) by (auto simp: calculateMerkleRootHash_def)
qed

lemma fold_branch_length: "hash_ok lib \<Longrightarrow> length r = 32 \<Longrightarrow> length (fold_branch (b_hash256 lib) r bs) = 32"
  by (induction bs arbitrary: r) (simp_all add: fold_branch_def hash_ok_def)

section \<open>The header\<close>

definition num_int :: "jsnum \<Rightarrow> int" where
  "num_int v = (case v of Num a \<Rightarrow> js_trunc a | _ \<Rightarrow> 0)"

text \<open>The reference: a header is the six fields of the block one after the other.\<close>

definition header_of :: "block \<Rightarrow> bytes" where
  "header_of b =
     le_bytes 4 (num_int (bl_version b)) @ bl_prevHash b @ (case bl_merkleRoot b of None \<Rightarrow> [] | Some r \<Rightarrow> r) @
     le_bytes 4 (num_int (bl_timestamp b)) @ le_bytes 4 (num_int (bl_bits b)) @ le_bytes 4 (num_int (bl_nonce b))"

lemma write_32_Inr:
  "write_32 lo hi v off dst = Inr h \<Longrightarrow> h = copy_at (le_bytes 4 (num_int v)) off dst"
  by (auto simp: write_32_def num_int_def split: if_splits)

lemma copy_at_extend:
  assumes "length p = off" and "length src = k"
  shows "copy_at src off (p @ replicate (k + n) 0) = (p @ src) @ replicate n 0"
  using assms by (simp add: copy_at_fits replicate_add)

lemma assembled_header:
  assumes "hash_ok lib" and "branch_ok (mj_merkleBranch job)" and "length (bl_prevHash (jt_block t)) = 32"
    and "assembleHeader lib job t versionMask nonce cb timestamp = Inr h"
  shows "h = le_bytes 4 (num_int (rolled_version (mj_jobVersion job) versionMask)) @ bl_prevHash (jt_block t) @
             fold_branch (b_hash256 lib) (b_hash256 lib cb) (mj_merkleBranch job) @
             le_bytes 4 (num_int timestamp) @ le_bytes 4 (num_int (bl_bits (jt_block t))) @ le_bytes 4 (num_int nonce)"
proof -
  let ?r = "fold_branch (b_hash256 lib) (b_hash256 lib cb) (mj_merkleBranch job)"
  let ?v = "le_bytes 4 (num_int (rolled_version (mj_jobVersion job) versionMask))"
  let ?p = "bl_prevHash (jt_block t)" and ?t = "le_bytes 4 (num_int timestamp)"
  let ?b = "le_bytes 4 (num_int (bl_bits (jt_block t)))" and ?n = "le_bytes 4 (num_int nonce)"
  have H: "length (b_hash256 lib cb) = 32"
    using assms(1) by (simp add: hash_ok_def)
  then have r: "length ?r = 32"
    using assms(1) by (intro fold_branch_length)
  obtain h0 h1 h2 where 0: "writeInt32LE (rolled_version (mj_jobVersion job) versionMask) 0 (replicate 80 0) = Inr h0"
    and 1: "writeUInt32LE timestamp 68 (copy_at ?r 36 (copy_at ?p 4 h0)) = Inr h1"
    and 2: "writeUInt32LE (bl_bits (jt_block t)) 72 h1 = Inr h2" and 3: "writeUInt32LE nonce 76 h2 = Inr h"
    using assms(4) by (auto simp: assembleHeader_def merkle_root_fold[OF assms(1,2) H] fbind_Inr Let_def)
  have "h0 = ?v @ replicate 76 0"
    using write_32_Inr[OF 0[unfolded writeInt32LE_def]] copy_at_extend[of "[]" 0 ?v 4 76] by simp
  then have "copy_at ?r 36 (copy_at ?p 4 h0) = (?v @ ?p @ ?r) @ replicate 12 0"
    using copy_at_extend[of ?v 4 ?p 32 44] copy_at_extend[of "?v @ ?p" 36 ?r 32 12] r assms(3) by simp
  then have "h1 = (?v @ ?p @ ?r @ ?t) @ replicate 8 0"
    using write_32_Inr[OF 1[unfolded writeUInt32LE_def]] copy_at_extend[of "?v @ ?p @ ?r" 68 ?t 4 8] r assms(3) by simp
  then have "h2 = (?v @ ?p @ ?r @ ?t @ ?b) @ replicate 4 0"
    using write_32_Inr[OF 2[unfolded writeUInt32LE_def]] copy_at_extend[of "?v @ ?p @ ?r @ ?t" 72 ?b 4 4] r assms(3) by simp
  then show ?thesis
    using write_32_Inr[OF 3[unfolded writeUInt32LE_def]] copy_at_extend[of "?v @ ?p @ ?r @ ?t @ ?b" 76 ?n 4 0] r assms(3)
    by simp
qed

text \<open>
  C19. The block submitted to the node is the one the share was judged by: when the header of a
  share was built, the updated block is built too, it has the job's coinbase in front of the
  template's transactions, and its 80-byte header is the one that was hashed.
\<close>

theorem submitted_block_has_judged_header:
  assumes "hash_ok lib" and "tx_id_ok lib (mj_coinbaseTransaction job)"
    and "b_serialize lib (mj_coinbaseTransaction job) = Inr (mj_coinbasePart1 job @ mj_coinbasePart2 job)"
    and "branch_ok (mj_merkleBranch job)" and "length (bl_prevHash (jt_block t)) = 32"
    and "buildHeaderBuffer lib job t versionMask nonce timestamp = Inr h"
  shows "length h = 80 \<and>
         (\<exists>b. copyAndUpdateBlock lib job t versionMask nonce timestamp = Inr b \<and> header_of b = h \<and>
              bl_transactions b = mj_coinbaseTransaction job # drop 1 (bl_transactions (jt_block t)))"
proof -
  let ?cb = "mj_coinbasePart1 job @ mj_coinbasePart2 job"
  have id: "b_reparse lib (mj_coinbaseTransaction job) = Inr (mj_coinbaseTransaction job)"
    "b_tx_hash lib (mj_coinbaseTransaction job) = b_hash256 lib ?cb"
    using assms(2,3) by (auto simp: tx_id_ok_def)
  have H: "length (b_hash256 lib ?cb) = 32"
    using assms(1) by (simp add: hash_ok_def)
  note h = assembled_header[OF assms(1,4,5) assms(6)[unfolded buildHeaderBuffer_def]]
  have r: "length (fold_branch (b_hash256 lib) (b_hash256 lib ?cb) (mj_merkleBranch job)) = 32"
    using assms(1) H by (rule fold_branch_length)
  show ?thesis
    using h r assms(5)
    by (auto simp: copyAndUpdateBlock_def id merkle_root_fold[OF assms(1,4) H] header_of_def split: list.splits)
qed

section \<open>The outputs of the coinbase\<close>

text \<open>What the program always passes: one payee with the whole reward.\<close>

lemma whole_reward:
  assumes "safe_int R" and "0 \<le> R"
  shows "payout_amount (IntN R) \<lparr>ao_address = a, ao_percent = Num 100\<rparr> = IntN R"
proof -
  have "js_div (Num 100) (Num 100) = Num 1"
    using fl_of_int[of 1] by (simp add: safe_int_def)
  then show ?thesis
    using js_mul_int[of 1 R] assms(1) by (simp add: payout_amount_def)
qed

text \<open>
  C22. The coinbase pays the pool and nobody else: its first output is the whole template value, to
  the script of the pool's address; the other outputs are the node's required outputs, unchanged and
  in order; without required outputs there is at most the witness commitment, with value zero.
\<close>

theorem coinbase_pays_pool:
  assumes "new_mining_job lib nw now jobId [\<lparr>ao_address = a, ao_percent = Num 100\<rparr>] t = Inr job"
    and "bd_coinbasevalue (jt_blockData t) = IntN R" and "safe_int R" and "0 \<le> R"
  shows "\<exists>others. tx_outs (mj_coinbaseTransaction job) =
             \<lparr>to_script = getPaymentScript lib nw a, to_value = IntN R\<rparr> # others \<and>
           (case jt_required_outputs t of
              Some (x # xs) \<Rightarrow> others = x # xs
            | _ \<Rightarrow> others = (case bl_witnessCommit (jt_block t) of None \<Rightarrow> []
                   | Some c \<Rightarrow> [\<lparr>to_script = b_op_return lib (segwitMagic @ c), to_value = Num 0\<rparr>]))"
proof -
  let ?h = "bd_height (jt_blockData t)"
  let ?p = "\<lparr>to_script = getPaymentScript lib nw a, to_value = IntN R\<rparr>"
  obtain tx where tx: "job_coinbase lib nw [\<lparr>ao_address = a, ao_percent = Num 100\<rparr>] t = Inr tx"
    and job: "mj_coinbaseTransaction job = tx"
    using assms(1) by (auto simp: new_mining_job_def fbind_Inr Let_def split: if_splits)
  have zero: "js_sub (IntN R) (IntN R) = Num 0" "js_add (IntN R) (Num 0) = IntN R"
    using js_sub_int[of R R] js_add_int[of R 0] assms(3) by (simp_all add: safe_int_def)
  obtain tx1 where 1: "createCoinbaseTransaction lib nw [\<lparr>ao_address = a, ao_percent = Num 100\<rparr>] (IntN R) = Inr tx1"
    and 2: "add_required_outputs lib t
          (tx1\<lparr>tx_locktime := js_sub ?h (Num 1),
               tx_ins := map (\<lambda>i. i\<lparr>ti_script := script_sig lib t\<rparr>) (tx_ins tx1)\<rparr>) = Inr tx"
    using tx assms(2) unfolding job_coinbase_def fbind_Inr by auto
  have "tx_outs tx1 = [?p]"
    using 1 by (auto simp: createCoinbaseTransaction_def fbind_Inr whole_reward[OF assms(3,4)] add_output_def
        empty_coinbase_def zero fl_of_int[OF assms(3)] split: if_splits)
  then show ?thesis
    using 2 by (auto simp: job add_required_outputs_def Let_def split: option.splits list.splits if_splits
        dest!: add_outputs_tx add_output_tx)
qed

section \<open>An example library\<close>

definition example_serialize :: "transaction \<Rightarrow> bytes" where
  "example_serialize tx =
     (case tx_ins tx of
        [i] \<Rightarrow> input_bytes tx i @ le_bytes 4 (ti_sequence i) @
               concat (map (\<lambda>x. le_bytes 8 (num_int (to_value x)) @ to_script x) (tx_outs tx)) @
               le_bytes 4 (num_int (tx_locktime tx))
      | _ \<Rightarrow> [])"

definition example_hash :: "bytes \<Rightarrow> bytes" where
  "example_hash x = le_bytes 32 (foldl (\<lambda>h b. h * 257 + uint b) 1 x)"

definition example_lib :: bitcoin_lib where
  "example_lib =
     \<lparr>b_hash256 = example_hash, b_serialize = (\<lambda>tx. Inr (example_serialize tx)), b_reparse = Inr,
      b_tx_weight = (\<lambda>tx. 400), b_block_weight = (\<lambda>b. 1000),
      b_output_script = (\<lambda>a nw. if a = [] then Inl (mk_error ''invalid'') else Inr [0x51]),
      b_script_number = (\<lambda>v. le_bytes 2 (num_int v)), b_op_return = (\<lambda>d. 0x6a # d),
      b_value_ok = (\<lambda>v. js_le (Num 0) v), b_tx_from_hex = (\<lambda>s. if s = ''bad'' then Inl (mk_error ''invalid'') else Inr empty_coinbase),
      b_tx_hash = (\<lambda>tx. example_hash (example_serialize tx)), b_merkle_proof = (\<lambda>xs. []),
      b_witness_root = (\<lambda>txs. Inr (replicate 32 7)), b_block_hex = (\<lambda>b. []), b_block_id = (\<lambda>b. [])\<rparr>"

definition example_template :: job_template where
  "example_template =
     \<lparr>jt_block = \<lparr>bl_version = Num 536870912, bl_prevHash = replicate 32 9, bl_merkleRoot = None,
                  bl_timestamp = Num 1700000000, bl_bits = Num 545259519, bl_nonce = Num 0,
                  bl_transactions = [empty_coinbase], bl_witnessCommit = Some (replicate 32 7)\<rparr>,
      jt_merkle_branch = [to_hex (replicate 32 5)],
      jt_required_outputs = Some [\<lparr>to_script = [0x6a, 1, 2], to_value = Num 0\<rparr>],
      jt_script_sig_prefix = Some [2, 16, 39],
      jt_blockData = \<lparr>bd_id = ''1'', bd_creation = 0, bd_coinbasevalue = Num 5000000000,
                      bd_networkDifficulty = Num 1, bd_height = Num 10000, bd_clearJobs = True\<rparr>\<rparr>"

definition example_job :: mining_job where
  "example_job =
     (case new_mining_job example_lib ElektronMainnet 0 ''1'' [\<lparr>ao_address = ''pool'', ao_percent = Num 100\<rparr>] example_template of
        Inr j \<Rightarrow> j
      | Inl e \<Rightarrow> \<lparr>mj_jobId = [], mj_jobTemplateId = [], mj_creation = 0, mj_jobVersion = NaN,
                 mj_coinbaseTransaction = empty_coinbase, mj_coinbasePart1 = [], mj_coinbasePart2 = [],
                 mj_merkleBranch = []\<rparr>)"

lemma example_hash_ok: "hash_ok example_lib"
  by (simp add: hash_ok_def example_lib_def example_hash_def)

lemma example_layout: "layout_ok example_lib"
  by (auto simp: layout_ok_def example_lib_def example_serialize_def)

lemma example_tx_id: "tx_id_ok example_lib tx"
  by (simp add: tx_id_ok_def example_lib_def)

lemma example_job_new:
  "new_mining_job example_lib ElektronMainnet 0 ''1'' [\<lparr>ao_address = ''pool'', ao_percent = Num 100\<rparr>] example_template =
     Inr example_job"
  by code_simp

theorem coinbase_halves_witness:
  "b_serialize example_lib (mj_coinbaseTransaction example_job) =
     Inr (mj_coinbasePart1 example_job @ mj_coinbasePart2 example_job) \<and>
   mj_coinbasePart1 example_job = [2, 0, 0, 0, 1] @ replicate 32 0 @ replicate 4 255 @
     [word_of_int (int (length (script_sig example_lib example_template)))] @ script_sig example_lib example_template \<and>
   take 4 (mj_coinbasePart2 example_job) = [254, 255, 255, 255] \<and>
   tx_locktime (mj_coinbaseTransaction example_job) = js_sub (bd_height (jt_blockData example_template)) (Num 1)"
  by (rule coinbase_halves[OF example_layout example_job_new]) (simp add: script_sig_def example_template_def)

lemma example_job_fields:
  "mj_jobVersion example_job = Num 536870912" "mj_merkleBranch example_job = [replicate 32 5]"
  by code_simp+

lemma example_branch: "branch_ok (mj_merkleBranch example_job)" "length (bl_prevHash (jt_block example_template)) = 32"
  by (simp_all add: branch_ok_def example_job_fields example_template_def)

lemma example_header:
  "\<exists>h. buildHeaderBuffer example_lib example_job example_template (Num 0) (Num 7) (Num 1700000005) = Inr h"
proof -
  have H: "length (b_hash256 example_lib x) = 32" for x
    using example_hash_ok by (simp add: hash_ok_def)
  show ?thesis
    unfolding buildHeaderBuffer_def assembleHeader_def merkle_root_fold[OF example_hash_ok example_branch(1) H]
    by (simp add: writeInt32LE_def writeUInt32LE_def write_32_def example_job_fields rolled_version_def js_eq_def
        example_template_def Let_def)
qed

theorem submitted_block_has_judged_header_witness:
  "\<exists>h. buildHeaderBuffer example_lib example_job example_template (Num 0) (Num 7) (Num 1700000005) = Inr h \<and>
       length h = 80 \<and>
       (\<exists>b. copyAndUpdateBlock example_lib example_job example_template (Num 0) (Num 7) (Num 1700000005) = Inr b \<and>
            header_of b = h \<and>
            bl_transactions b = mj_coinbaseTransaction example_job # drop 1 (bl_transactions (jt_block example_template)))"
proof -
  have 1: "b_serialize example_lib (mj_coinbaseTransaction example_job) =
      Inr (mj_coinbasePart1 example_job @ mj_coinbasePart2 example_job)"
    by code_simp
  obtain h where "buildHeaderBuffer example_lib example_job example_template (Num 0) (Num 7) (Num 1700000005) = Inr h"
    using example_header by blast
  from submitted_block_has_judged_header[OF example_hash_ok example_tx_id 1 example_branch this] this
  show ?thesis by blast
qed

theorem coinbase_pays_pool_witness:
  "\<exists>others. tx_outs (mj_coinbaseTransaction example_job) =
      \<lparr>to_script = getPaymentScript example_lib ElektronMainnet ''pool'', to_value = IntN 5000000000\<rparr> # others \<and>
    (case jt_required_outputs example_template of
       Some (x # xs) \<Rightarrow> others = x # xs
     | _ \<Rightarrow> others = (case bl_witnessCommit (jt_block example_template) of None \<Rightarrow> []
            | Some c \<Rightarrow> [\<lparr>to_script = b_op_return example_lib (segwitMagic @ c), to_value = Num 0\<rparr>]))"
  by (rule coinbase_pays_pool[OF example_job_new]) (simp_all add: example_template_def safe_int_def)

end
