(* ===== verification/StratumJobs.thy ===== *)
theory StratumJobs
  imports MiningJob "HOL-Library.AList"
begin

text \<open>
  The job store (\<open>src/services/stratum-v1-jobs.service.ts\<close>): it turns an answer of
  \<open>getblocktemplate\<close> into a job template, hands out template and job ids and forgets templates and
  jobs when the tip changes or after five minutes. One store is shared by all connections.
\<close>

section \<open>The state\<close>

record gbt =
  g_version :: jsnum
  g_previousblockhash :: string
  g_transactions :: "string list"
  g_coinbasevalue :: jsnum
  g_mintime :: jsnum
  g_bits :: string
  g_height :: jsnum
  g_required_outputs :: "(jsnum \<times> string) list option"
  g_script_sig_prefix :: "string option"

record job_store =
  js_latestJobId :: int
  js_latestJobTemplateId :: int
  js_jobs :: "(string \<times> mining_job) list"
  js_blocks :: "(string \<times> job_template) list"
  js_lastHeight :: "(string \<times> jsnum) list"

definition new_job_store :: job_store where
  "new_job_store = \<lparr>js_latestJobId = 1, js_latestJobTemplateId = 1, js_jobs = [], js_blocks = [], js_lastHeight = []\<rparr>"

section \<open>Ids and lookups\<close>

definition getNextTemplateId :: "job_store \<Rightarrow> string" where
  "getNextTemplateId st = hex_string (js_latestJobTemplateId st)"

definition getNextId :: "job_store \<Rightarrow> string" where
  "getNextId st = hex_string (js_latestJobId st)"

definition getJobById :: "string \<Rightarrow> job_store \<Rightarrow> mining_job option" where
  "getJobById jobId st = map_of (js_jobs st) jobId"

definition getJobTemplateById :: "string \<Rightarrow> job_store \<Rightarrow> job_template option" where
  "getJobTemplateById jobTemplateId st = map_of (js_blocks st) jobTemplateId"

definition addJob :: "mining_job \<Rightarrow> job_store \<Rightarrow> job_store" where
  "addJob job st = st\<lparr>js_jobs := AList.update (mj_jobId job) job (js_jobs st), js_latestJobId := js_latestJobId st + 1\<rparr>"

section \<open>Building a template\<close>

definition pow256 :: "jsnum \<Rightarrow> jsnum" where
  "pow256 e = (case e of Num a \<Rightarrow> fl (2 powi (8 * \<lfloor>a\<rfloor>)) | _ \<Rightarrow> NaN)"

definition calculateNetworkDifficulty :: "jsnum \<Rightarrow> jsnum" where
  "calculateNetworkDifficulty nBits =
     (let mantissa = js_bitand nBits (Num 0x007fffff);
          exponent = js_bitand (js_sar nBits 24) (Num 0xff);
          target = js_mul mantissa (pow256 (js_sub exponent (Num 3)));
          maxTarget = js_mul (fl (2 ^ 208)) (Num 65535)
      in js_div maxTarget target)"

definition convertToLittleEndian :: "string \<Rightarrow> bytes" where
  "convertToLittleEndian hash = rev (from_hex hash)"

definition temp_coinbase :: transaction where
  "temp_coinbase =
     \<lparr>tx_version = 2, tx_locktime = Num 0,
      tx_ins = [\<lparr>ti_hash = replicate 32 0, ti_index = 4294967295, ti_script = [], ti_sequence = 4294967295,
                 ti_witness = [replicate 32 0]\<rparr>], tx_outs = []\<rparr>"

fun parse_transactions :: "bitcoin_lib \<Rightarrow> string list \<Rightarrow> transaction list fallible" where
  "parse_transactions lib [] = Inr []"
| "parse_transactions lib (d # ds) =
     fbind (b_tx_from_hex lib d) (\<lambda>tx. fbind (parse_transactions lib ds) (\<lambda>txs. Inr (tx # txs)))"

text \<open>The proof of the placeholder leaf, without its gaps: leaf, siblings, and last the root.\<close>

definition merkle_branches :: "bitcoin_lib \<Rightarrow> transaction list \<Rightarrow> bytes list" where
  "merkle_branches lib txs = List.map_filter id (b_merkle_proof lib (map (b_tx_hash lib) txs))"

definition merkle_branch :: "bitcoin_lib \<Rightarrow> transaction list \<Rightarrow> string list" where
  "merkle_branch lib txs = map to_hex (drop 1 (butlast (merkle_branches lib txs)))"

definition template_timestamp :: "int \<Rightarrow> gbt \<Rightarrow> jsnum" where
  "template_timestamp now g =
     (let currentTime = js_floor (js_div (IntN now) (Num 1000))
      in if js_gt (g_mintime g) currentTime then g_mintime g else currentTime)"

definition template_block :: "bitcoin_lib \<Rightarrow> int \<Rightarrow> gbt \<Rightarrow> transaction list \<Rightarrow> bytes \<Rightarrow> block" where
  "template_block lib now g txs commit =
     \<lparr>bl_version = g_version g, bl_prevHash = convertToLittleEndian (g_previousblockhash g),
      bl_merkleRoot = (case merkle_branches lib txs of [] \<Rightarrow> None | bs \<Rightarrow> Some (last bs)),
      bl_timestamp = template_timestamp now g, bl_bits = parse_int 16 (g_bits g), bl_nonce = Num 0,
      bl_transactions = txs, bl_witnessCommit = Some commit\<rparr>"

definition required_of :: "gbt \<Rightarrow> tx_out list" where
  "required_of g =
     map (\<lambda>(v, s). \<lparr>to_script = from_hex s, to_value = v\<rparr>) (case g_required_outputs g of None \<Rightarrow> [] | Some xs \<Rightarrow> xs)"

definition prefix_of :: "gbt \<Rightarrow> bytes option" where
  "prefix_of g = (case g_script_sig_prefix g of None \<Rightarrow> None | Some s \<Rightarrow> if s = [] then None else Some (from_hex s))"

definition make_template :: "bitcoin_lib \<Rightarrow> int \<Rightarrow> gbt \<Rightarrow> string \<Rightarrow> bool \<Rightarrow> transaction list \<Rightarrow> bytes \<Rightarrow> job_template" where
  "make_template lib now g i clearJobs txs commit =
     \<lparr>jt_block = template_block lib now g txs commit, jt_merkle_branch = merkle_branch lib txs,
      jt_required_outputs = Some (required_of g), jt_script_sig_prefix = prefix_of g,
      jt_blockData = \<lparr>bd_id = i, bd_creation = now, bd_coinbasevalue = g_coinbasevalue g,
                      bd_networkDifficulty = calculateNetworkDifficulty (parse_int 16 (g_bits g)),
                      bd_height = g_height g, bd_clearJobs = clearJobs\<rparr>\<rparr>"

definition previous_height :: "string \<Rightarrow> job_store \<Rightarrow> jsnum" where
  "previous_height address st = (case map_of (js_lastHeight st) address of None \<Rightarrow> Num 0 | Some h \<Rightarrow> h)"

definition expire :: "int \<Rightarrow> job_store \<Rightarrow> job_store" where
  "expire now st =
     st\<lparr>js_blocks := filter (\<lambda>(k, t). \<not> now - bd_creation (jt_blockData t) > 1000 * 60 * 5) (js_blocks st),
        js_jobs := filter (\<lambda>(k, j). \<not> now - mj_creation j > 1000 * 60 * 5) (js_jobs st)\<rparr>"

text \<open>
  The whole build. The node's answer is the argument \<open>answer\<close>; the last height of the address is
  already replaced when a transaction of the answer fails to decode.
\<close>

definition buildTemplateFor ::
  "bitcoin_lib \<Rightarrow> int \<Rightarrow> string \<Rightarrow> gbt fallible \<Rightarrow> job_store \<Rightarrow> job_store \<times> job_template fallible" where
  "buildTemplateFor lib now coinbaseAddress answer st =
     (case answer of
        Inl e \<Rightarrow> (st, Inl e)
      | Inr g \<Rightarrow>
          let clearJobs = (\<not> js_eq (previous_height coinbaseAddress st) (g_height g));
              st1 = st\<lparr>js_lastHeight := AList.update coinbaseAddress (g_height g) (js_lastHeight st)\<rparr>
          in case parse_transactions lib (g_transactions g) of
               Inl e \<Rightarrow> (st1, Inl e)
             | Inr txs0 \<Rightarrow>
                 let txs = temp_coinbase # txs0
                 in case b_witness_root lib txs of
                      Inl e \<Rightarrow> (st1, Inl e)
                    | Inr commit \<Rightarrow>
                        let i = getNextTemplateId st1;
                            t = make_template lib now g i clearJobs txs commit;
                            st2 = st1\<lparr>js_latestJobTemplateId := js_latestJobTemplateId st1 + 1\<rparr>;
                            st3 = (if clearJobs then st2\<lparr>js_blocks := [], js_jobs := []\<rparr> else expire now st2)
                        in (st3\<lparr>js_blocks := AList.update i t (js_blocks st3)\<rparr>, Inr t))"

section \<open>The store as an interface\<close>

text \<open>
  What a connection relies on when it issues a job: the next id is unused, and a lookup finds the
  job just added, and any other as before.
\<close>

locale job_registry =
  fixes ok :: "'s \<Rightarrow> bool"
    and next_key :: "'s \<Rightarrow> 'k"
    and add :: "'j \<Rightarrow> 's \<Rightarrow> 's"
    and find :: "'k \<Rightarrow> 's \<Rightarrow> 'j option"
    and key_of :: "'j \<Rightarrow> 'k"
  assumes fresh: "ok s \<Longrightarrow> find (next_key s) s = None"
    and add_ok: "ok s \<Longrightarrow> key_of j = next_key s \<Longrightarrow> ok (add j s)"
    and find_add: "find k (add j s) = (if k = key_of j then Some j else find k s)"
begin

text \<open>A run of issues: each job gets the id that is next at its turn.\<close>

fun issue_all :: "('k \<Rightarrow> 'j) list \<Rightarrow> 's \<Rightarrow> 's" where
  "issue_all [] s = s"
| "issue_all (mk # mks) s = issue_all mks (add (mk (next_key s)) s)"

fun issued :: "('k \<Rightarrow> 'j) list \<Rightarrow> 's \<Rightarrow> 'j list" where
  "issued [] s = []"
| "issued (mk # mks) s = mk (next_key s) # issued mks (add (mk (next_key s)) s)"

definition keyed :: "('k \<Rightarrow> 'j) list \<Rightarrow> bool" where
  "keyed mks \<longleftrightarrow> (\<forall>mk \<in> set mks. \<forall>k. key_of (mk k) = k)"

lemma find_issued:
  assumes "ok s" and "keyed mks"
  shows "ok (issue_all mks s) \<and>
         (\<forall>j \<in> set (issued mks s). find (key_of j) s = None \<and> find (key_of j) (issue_all mks s) = Some j) \<and>
         (\<forall>k j. find k s = Some j \<longrightarrow> find k (issue_all mks s) = Some j) \<and> distinct (map key_of (issued mks s))"
  using assms
proof (induction mks arbitrary: s)
  case (Cons mk mks)
  let ?j = "mk (next_key s)" and ?s = "add (mk (next_key s)) s"
  have key: "key_of ?j = next_key s" and mks: "keyed mks"
    using Cons.prems(2) by (simp_all add: keyed_def)
  have ok: "ok ?s"
    by (rule add_ok[OF Cons.prems(1) key])
  note IH = Cons.IH[OF ok mks]
  have ok': "ok (issue_all mks ?s)"
    and found: "\<forall>j \<in> set (issued mks ?s). find (key_of j) ?s = None \<and> find (key_of j) (issue_all mks ?s) = Some j"
    and kept: "\<forall>k i. find k ?s = Some i \<longrightarrow> find k (issue_all mks ?s) = Some i"
    and dist: "distinct (map key_of (issued mks ?s))"
    using IH by blast+
  have j: "find (key_of ?j) ?s = Some ?j"
    by (simp add: find_add)
  have none: "find (key_of ?j) s = None"
    using fresh[OF Cons.prems(1)] by (simp add: key)
  have new: "find (key_of i) s = None \<and> key_of i \<noteq> key_of ?j" if "i \<in> set (issued mks ?s)" for i
  proof -
    have "find (key_of i) ?s = None"
      using found that by blast
    then show ?thesis
      by (auto simp: find_add split: if_splits)
  qed
  have old: "find k ?s = Some i" if "find k s = Some i" for k i
    using that none by (cases "k = key_of ?j") (simp_all add: find_add)
  have "\<forall>i \<in> insert ?j (set (issued mks ?s)).
          find (key_of i) s = None \<and> find (key_of i) (issue_all mks ?s) = Some i"
    using new found none kept j by blast
  moreover have "\<forall>k i. find k s = Some i \<longrightarrow> find k (issue_all mks ?s) = Some i"
    using old kept by blast
  moreover have "key_of ?j \<notin> set (map key_of (issued mks ?s))"
  proof
    assume "key_of ?j \<in> set (map key_of (issued mks ?s))"
    then obtain i where "i \<in> set (issued mks ?s)" and "key_of ?j = key_of i"
      unfolding set_map by (elim imageE)
    with new[of i] show False by argo
  qed
  ultimately show ?case
    unfolding issue_all.simps issued.simps list.set list.map distinct.simps using ok' dist by argo
qed (simp add: keyed_def)

end

section \<open>The invariant of the store\<close>

text \<open>Ids in use are texts of numbers already handed out; an entry is stored under its own id.\<close>

definition used_id :: "int \<Rightarrow> string \<Rightarrow> bool" where
  "used_id m k \<longleftrightarrow> (\<exists>n. 1 \<le> n \<and> n < m \<and> k = hex_string n)"

definition keys_ok :: "('v \<Rightarrow> string) \<Rightarrow> int \<Rightarrow> (string \<times> 'v) list \<Rightarrow> bool" where
  "keys_ok f m xs \<longleftrightarrow> 1 \<le> m \<and> (\<forall>x \<in> set xs. fst x = f (snd x) \<and> used_id m (fst x))"

lemma used_id_mono: "used_id m k \<Longrightarrow> m \<le> n \<Longrightarrow> used_id n k"
  unfolding used_id_def by force

lemma used_id_next: "1 \<le> m \<Longrightarrow> used_id (m + 1) (hex_string m)"
  unfolding used_id_def by force

lemma not_used_id: "1 \<le> m \<Longrightarrow> \<not> used_id m (hex_string m)"
  unfolding used_id_def using hex_string_inject by force

lemma set_AList_update: "x \<in> set (AList.update a b xs) \<Longrightarrow> x = (a, b) \<or> x \<in> set xs"
  by (induction xs) (auto split: if_splits)

lemma keys_ok_update:
  assumes "keys_ok f m xs" and "f v = hex_string m"
  shows "keys_ok f (m + 1) (AList.update (hex_string m) v xs)"
  unfolding keys_ok_def
proof (intro conjI ballI)
  fix x
  assume "x \<in> set (AList.update (hex_string m) v xs)"
  then have "x = (hex_string m, v) \<or> x \<in> set xs"
    by (rule set_AList_update)
  then show "fst x = f (snd x)" and "used_id (m + 1) (fst x)"
    using assms used_id_next[of m] used_id_mono[of m _ "m + 1"] by (auto simp: keys_ok_def)
qed (use assms in \<open>simp add: keys_ok_def\<close>)

lemma keys_ok_filter: "keys_ok f m xs \<Longrightarrow> keys_ok f m (filter p xs)"
  unfolding keys_ok_def by (auto simp del: split_paired_All)

lemma keys_ok_Nil [simp]: "keys_ok f m [] \<longleftrightarrow> 1 \<le> m"
  by (simp add: keys_ok_def)

lemma keys_ok_fresh:
  assumes "keys_ok f m xs"
  shows "map_of xs (hex_string m) = None"
proof (rule ccontr)
  assume "map_of xs (hex_string m) \<noteq> None"
  then obtain v where "(hex_string m, v) \<in> set xs"
    by (auto dest: map_of_SomeD)
  then have "used_id m (hex_string m)" and "1 \<le> m"
    using assms by (auto simp: keys_ok_def)
  then show False
    using not_used_id by blast
qed

definition store_ok :: "job_store \<Rightarrow> bool" where
  "store_ok st \<longleftrightarrow> keys_ok mj_jobId (js_latestJobId st) (js_jobs st) \<and>
     keys_ok (\<lambda>t. bd_id (jt_blockData t)) (js_latestJobTemplateId st) (js_blocks st)"

lemma store_ok_new [simp]: "store_ok new_job_store"
  by (simp add: store_ok_def new_job_store_def)

interpretation jobs: job_registry store_ok getNextId addJob getJobById mj_jobId
  by unfold_locales
    (auto simp: store_ok_def getJobById_def getNextId_def addJob_def update_conv' keys_ok_fresh keys_ok_update)

lemma expire_ok: "store_ok st \<Longrightarrow> store_ok (expire now st)"
  by (simp add: store_ok_def expire_def keys_ok_filter)

lemma make_template_id [simp]: "bd_id (jt_blockData (make_template lib now g i c txs w)) = i"
  by (simp add: make_template_def)

text \<open>What a build returns and leaves, on success.\<close>

definition cleared_or_expired :: "int \<Rightarrow> bool \<Rightarrow> job_store \<Rightarrow> job_store" where
  "cleared_or_expired now c st = (if c then st\<lparr>js_blocks := [], js_jobs := []\<rparr> else expire now st)"

lemma buildTemplateFor_Inr:
  assumes "buildTemplateFor lib now a (Inr g) st = (st', Inr t)"
  obtains txs commit where "parse_transactions lib (g_transactions g) = Inr txs"
    and "b_witness_root lib (temp_coinbase # txs) = Inr commit"
    and "t = make_template lib now g (hex_string (js_latestJobTemplateId st))
               (\<not> js_eq (previous_height a st) (g_height g)) (temp_coinbase # txs) commit"
    and "st' = (let s = cleared_or_expired now (\<not> js_eq (previous_height a st) (g_height g)) st
                in s\<lparr>js_lastHeight := AList.update a (g_height g) (js_lastHeight st),
                     js_latestJobTemplateId := js_latestJobTemplateId st + 1,
                     js_blocks := AList.update (hex_string (js_latestJobTemplateId st)) t (js_blocks s)\<rparr>)"
  using assms that
  by (auto simp: buildTemplateFor_def Let_def getNextTemplateId_def cleared_or_expired_def expire_def split: sum.splits)

lemma keys_ok_pos: "keys_ok f m xs \<Longrightarrow> 1 \<le> m"
  by (simp add: keys_ok_def)

lemma build_ok:
  assumes "store_ok st"
  shows "store_ok (fst (buildTemplateFor lib now a answer st))"
proof -
  have k: "keys_ok mj_jobId (js_latestJobId st) (js_jobs st)"
    "keys_ok (\<lambda>t. bd_id (jt_blockData t)) (js_latestJobTemplateId st) (js_blocks st)"
    using assms by (simp_all add: store_ok_def)
  have one: "keys_ok (\<lambda>t. bd_id (jt_blockData t)) (m + 1) [(hex_string m, make_template lib n g (hex_string m) c txs w)]"
    if "1 \<le> m" for m n g c txs w
    using keys_ok_update[of "\<lambda>t. bd_id (jt_blockData t)" m "[]" "make_template lib n g (hex_string m) c txs w"] that
    by simp
  show ?thesis
    using k k[THEN keys_ok_pos] one
    by (auto simp: buildTemplateFor_def Let_def store_ok_def expire_def keys_ok_update keys_ok_filter
        getNextTemplateId_def split: sum.splits)
qed

section \<open>Runs of the store\<close>

text \<open>
  A connection either fetches a template for the pool address \<open>a\<close> or issues a job under the next
  id. Fetches that fail half way are the third kind of step.
\<close>

inductive store_step :: "bitcoin_lib \<Rightarrow> string \<Rightarrow> job_store \<Rightarrow> job_store \<Rightarrow> bool" for lib a where
  fetch: "buildTemplateFor lib now a (Inr g) st = (st', Inr t) \<Longrightarrow> store_step lib a st st'"
| issue: "mj_jobId j = getNextId st \<Longrightarrow> store_step lib a st (addJob j st)"

inductive any_step :: "bitcoin_lib \<Rightarrow> string \<Rightarrow> job_store \<Rightarrow> job_store \<Rightarrow> bool" for lib a where
  good: "store_step lib a st st' \<Longrightarrow> any_step lib a st st'"
| failed: "buildTemplateFor lib now a answer st = (st', Inl e) \<Longrightarrow> any_step lib a st st'"

inductive_cases store_stepE: "store_step lib a st st'"
inductive_cases any_stepE: "any_step lib a st st'"

lemma build_ok': "buildTemplateFor lib now a answer st = (st', r) \<Longrightarrow> store_ok st \<Longrightarrow> store_ok st'"
  using build_ok[of st lib now a answer] by simp

lemma any_step_ok: "any_step lib a st st' \<Longrightarrow> store_ok st \<Longrightarrow> store_ok st'"
  by (elim any_stepE store_stepE) (auto dest: build_ok' jobs.add_ok)

lemma run_ok: "(any_step lib a)\<^sup>*\<^sup>* new_job_store st \<Longrightarrow> store_ok st"
  by (induction rule: rtranclp_induct) (auto intro: any_step_ok)

text \<open>
  C24. Ids are never reused: in every state the store reaches by fetches (failed ones included) and
  issues, the next job id finds no job, and every job that is found has the id it was found by.
\<close>

theorem job_ids_unique:
  assumes "(any_step lib a)\<^sup>*\<^sup>* new_job_store st"
  shows "getJobById (getNextId st) st = None \<and> (\<forall>k j. getJobById k st = Some j \<longrightarrow> mj_jobId j = k) \<and>
         getJobTemplateById (getNextTemplateId st) st = None"
proof -
  have ok: "store_ok st"
    by (rule run_ok[OF assms])
  then have "\<forall>k j. getJobById k st = Some j \<longrightarrow> mj_jobId j = k"
    by (auto simp: store_ok_def keys_ok_def getJobById_def dest!: map_of_SomeD)
  then show ?thesis
    using jobs.fresh[OF ok] ok
    by (auto simp: store_ok_def getJobTemplateById_def getNextTemplateId_def keys_ok_fresh)
qed

section \<open>Work for the current tip\<close>

definition tip_ok :: "string \<Rightarrow> job_store \<Rightarrow> bool" where
  "tip_ok a st \<longleftrightarrow> (\<forall>x \<in> set (js_blocks st). map_of (js_lastHeight st) a = Some (bd_height (jt_blockData (snd x))))"

lemma js_eq_imp_eq: "js_eq x y \<Longrightarrow> x = y"
  by (auto simp: js_eq_def)

lemma make_template_height [simp]: "bd_height (jt_blockData (make_template lib now g i c txs w)) = g_height g"
  by (simp add: make_template_def)

lemma make_template_clear [simp]: "bd_clearJobs (jt_blockData (make_template lib now g i c txs w)) = c"
  by (simp add: make_template_def)

lemma tip_ok_update:
  assumes "\<forall>x \<in> set bs. bd_height (jt_blockData (snd x)) = h" and "bd_height (jt_blockData t) = h"
  shows "\<forall>x \<in> set (AList.update k t bs). bd_height (jt_blockData (snd x)) = h"
  using assms by (auto dest!: set_AList_update)

lemma fetch_tip_ok:
  assumes "buildTemplateFor lib now a (Inr g) st = (st', Inr t)" and "tip_ok a st"
  shows "tip_ok a st' \<and> map_of (js_lastHeight st') a = Some (g_height g)"
  using assms(1)
proof (rule buildTemplateFor_Inr)
  fix txs commit
  define c where "c = (\<not> js_eq (previous_height a st) (g_height g))"
  define s where "s = cleared_or_expired now c st"
  assume t: "t = make_template lib now g (hex_string (js_latestJobTemplateId st))
               (\<not> js_eq (previous_height a st) (g_height g)) (temp_coinbase # txs) commit"
    and st': "st' = (let s = cleared_or_expired now (\<not> js_eq (previous_height a st) (g_height g)) st
                in s\<lparr>js_lastHeight := AList.update a (g_height g) (js_lastHeight st),
                     js_latestJobTemplateId := js_latestJobTemplateId st + 1,
                     js_blocks := AList.update (hex_string (js_latestJobTemplateId st)) t (js_blocks s)\<rparr>)"
  have "\<forall>x \<in> set (js_blocks s). bd_height (jt_blockData (snd x)) = g_height g"
  proof (cases c)
    case True
    then show ?thesis
      by (simp add: s_def cleared_or_expired_def)
  next
    case False
    then have "previous_height a st = g_height g"
      by (simp add: c_def js_eq_imp_eq)
    then show ?thesis
      using assms(2) False
      by (auto simp: s_def cleared_or_expired_def expire_def tip_ok_def previous_height_def)
  qed
  then have "\<forall>x \<in> set (AList.update (hex_string (js_latestJobTemplateId st)) t (js_blocks s)).
      bd_height (jt_blockData (snd x)) = g_height g"
    by (rule tip_ok_update) (simp add: t)
  then show ?thesis
    unfolding st' tip_ok_def Let_def by (simp add: update_conv' s_def c_def)
qed

lemma issue_tip_ok: "tip_ok a st \<Longrightarrow> tip_ok a (addJob j st)"
  by (simp add: tip_ok_def addJob_def)

text \<open>
  C23. Work for an old tip is not accepted: as long as no fetch fails half way, every template the
  store returns is one for the height of the last answer of the node, so the job of a share is found
  with a template only when that template extends the tip last seen.
\<close>

theorem stored_work_is_current:
  assumes "(store_step lib a)\<^sup>*\<^sup>* new_job_store st" and "getJobTemplateById k st = Some t"
  shows "map_of (js_lastHeight st) a = Some (bd_height (jt_blockData t))"
proof -
  have "tip_ok a st"
    using assms(1)
  proof (induction rule: rtranclp_induct)
    case base
    show ?case
      by (simp add: tip_ok_def new_job_store_def)
  next
    case (step s s')
    then show ?case
      by (elim store_stepE) (auto simp: issue_tip_ok dest: fetch_tip_ok)
  qed
  then show ?thesis
    using assms(2) by (auto simp: tip_ok_def getJobTemplateById_def dest!: map_of_SomeD)
qed

text \<open>
  Only the first connection to see a new tip is told to drop its work: all connections fetch
  for the one pool address, so a second successful fetch at the same height returns a template that
  does not clear jobs, although the first fetch already removed every job issued before.
\<close>

theorem only_first_fetch_clears:
  assumes "buildTemplateFor lib now1 a (Inr g1) st = (st1, Inr t1)" and "tip_ok a st"
    and "buildTemplateFor lib now2 a (Inr g2) st1 = (st2, Inr t2)"
    and "g_height g1 = Num h" and "g_height g2 = Num h" and "previous_height a st \<noteq> Num h"
  shows "bd_clearJobs (jt_blockData t1) \<and> js_jobs st1 = [] \<and> \<not> bd_clearJobs (jt_blockData t2)"
proof -
  have "previous_height a st1 = Num h"
    using fetch_tip_ok[OF assms(1,2)] assms(4) by (simp add: previous_height_def)
  moreover have "\<not> js_eq (previous_height a st) (Num h)"
    using assms(6) js_eq_imp_eq by blast
  ultimately show ?thesis
    using assms(1,3,4,5)
    by (auto elim!: buildTemplateFor_Inr simp: Let_def cleared_or_expired_def js_eq_def)
qed

text \<open>
  A fetch that fails after the new height was noted leaves the old work in use: the next fetch at
  that height does not clear, and a job of the old tip issued less than five minutes ago is still
  found.
\<close>

theorem failed_fetch_keeps_stale_work:
  assumes "buildTemplateFor lib now1 a (Inr g1) st = (st1, Inl e)" and "getJobById k st = Some j"
    and "store_ok st" and "now2 - mj_creation j \<le> 300000"
    and "buildTemplateFor lib now2 a (Inr g2) st1 = (st2, Inr t)"
    and "g_height g1 = Num h" and "g_height g2 = Num h"
  shows "\<not> bd_clearJobs (jt_blockData t) \<and> getJobById k st2 = Some j"
proof -
  have st1: "st1 = st\<lparr>js_lastHeight := AList.update a (Num h) (js_lastHeight st)\<rparr>"
    using assms(1,6) by (auto simp: buildTemplateFor_def Let_def split: sum.splits)
  then have eq: "js_eq (previous_height a st1) (g_height g2)"
    using assms(7) by (simp add: previous_height_def update_conv' js_eq_def)
  have found: "getJobById k (expire now2 st1) = Some j"
  proof -
    have "map_of (filter (\<lambda>(k, j). now2 - mj_creation j \<le> 300000) js) k = Some j" if "map_of js k = Some j" for js
      using that assms(4) by (induction js) (auto split: if_splits)
    then show ?thesis
      using assms(2) by (simp add: getJobById_def expire_def st1 not_less)
  qed
  show ?thesis
    using assms(5)
  proof (rule buildTemplateFor_Inr)
    fix txs commit
    assume "t = make_template lib now2 g2 (hex_string (js_latestJobTemplateId st1))
               (\<not> js_eq (previous_height a st1) (g_height g2)) (temp_coinbase # txs) commit"
      and "st2 = (let s = cleared_or_expired now2 (\<not> js_eq (previous_height a st1) (g_height g2)) st1
                in s\<lparr>js_lastHeight := AList.update a (g_height g2) (js_lastHeight st1),
                     js_latestJobTemplateId := js_latestJobTemplateId st1 + 1,
                     js_blocks := AList.update (hex_string (js_latestJobTemplateId st1)) t (js_blocks s)\<rparr>)"
    then show ?thesis
      using found eq by (simp add: Let_def cleared_or_expired_def getJobById_def)
  qed
qed

section \<open>The Merkle branch\<close>

text \<open>The reference: levels of pairwise hashes, an odd last node paired with itself.\<close>

fun merkle_level :: "(bytes \<Rightarrow> bytes) \<Rightarrow> bytes list \<Rightarrow> bytes list" where
  "merkle_level H (x # y # xs) = H (x @ y) # merkle_level H xs"
| "merkle_level H [x] = [H (x @ x)]"
| "merkle_level H [] = []"

lemma merkle_level_length: "2 \<le> length xs \<Longrightarrow> length (merkle_level H xs) < length xs \<and> merkle_level H xs \<noteq> []"
proof (induction xs rule: merkle_level.induct)
  case (1 H x y xs)
  show ?case
  proof (cases "length xs < 2")
    case True
    then show ?thesis
      by (cases xs) auto
  next
    case False
    then show ?thesis
      using 1 by simp
  qed
qed simp_all

function merkle_root :: "(bytes \<Rightarrow> bytes) \<Rightarrow> bytes list \<Rightarrow> bytes" where
  "merkle_root H xs = (if length xs < 2 then hd xs else merkle_root H (merkle_level H xs))"
  by auto
termination
  by (relation "measure (\<lambda>(H, xs). length xs)") (use merkle_level_length in \<open>auto simp: not_less\<close>)

text \<open>The right siblings on the way from the first leaf to the root.\<close>

function left_siblings :: "(bytes \<Rightarrow> bytes) \<Rightarrow> bytes list \<Rightarrow> bytes list" where
  "left_siblings H xs = (if length xs < 2 then [] else xs ! 1 # left_siblings H (merkle_level H xs))"
  by auto
termination
  by (relation "measure (\<lambda>(H, xs). length xs)") (use merkle_level_length in \<open>auto simp: not_less\<close>)

declare merkle_root.simps [simp del] left_siblings.simps [simp del]

lemma merkle_level_two: "merkle_level H (x # y # xs) = H (x @ y) # merkle_level H xs"
  by simp

lemma siblings_fold: "fold_branch H x (left_siblings H (x # xs)) = merkle_root H (x # xs)"
proof (induction "length xs" arbitrary: x xs rule: less_induct)
  case less
  show ?case
  proof (cases xs)
    case Nil
    then show ?thesis
      by (simp add: left_siblings.simps merkle_root.simps fold_branch_def)
  next
    case (Cons y ys)
    have "length (merkle_level H ys) < length xs"
      using merkle_level_length[of "x # y # ys" H] Cons by simp
    from less[OF this, of "H (x @ y)"] show ?thesis
      by (subst left_siblings.simps, subst merkle_root.simps) (simp add: Cons fold_branch_def)
  qed
qed

lemma siblings_first: "left_siblings H (x # xs) = left_siblings H (z # xs)"
proof (induction "length xs" arbitrary: x z xs rule: less_induct)
  case less
  show ?case
  proof (cases xs)
    case Nil
    then show ?thesis
      by (simp add: left_siblings.simps)
  next
    case (Cons y ys)
    have "length (merkle_level H ys) < length xs"
      using merkle_level_length[of "x # y # ys" H] Cons by simp
    from less[OF this, of "H (x @ y)" "H (z @ y)"] show ?thesis
      by (subst left_siblings.simps, subst (2) left_siblings.simps) (simp add: Cons)
  qed
qed

text \<open>
  What \<open>merkle-lib\<close> documents: the proof of the first leaf is that leaf, its siblings up the tree and
  the root, with gaps in between; for a tree of one leaf it is the root alone.
\<close>

definition proof_ok :: "bitcoin_lib \<Rightarrow> bytes list \<Rightarrow> bool" where
  "proof_ok lib xs \<longleftrightarrow> List.map_filter id (b_merkle_proof lib xs) =
     (if length xs < 2 then [] else [hd xs]) @ left_siblings (b_hash256 lib) xs @ [merkle_root (b_hash256 lib) xs]"

lemma merkle_branch_siblings:
  assumes "proof_ok lib (map (b_tx_hash lib) (tx # txs))"
  shows "map from_hex (merkle_branch lib (tx # txs)) = left_siblings (b_hash256 lib) (z # map (b_tx_hash lib) txs)"
proof -
  have "merkle_branch lib (tx # txs) = map to_hex (left_siblings (b_hash256 lib) (map (b_tx_hash lib) (tx # txs)))"
    using assms by (auto simp: merkle_branch_def merkle_branches_def proof_ok_def left_siblings.simps[of _ "[_]"] butlast_append)
  then show ?thesis
    using siblings_first[of "b_hash256 lib" "b_tx_hash lib tx"] by (simp add: comp_def)
qed

text \<open>
  C20. The branch computed once per template, with a placeholder in place of the coinbase, gives for
  any job's coinbase exactly the Merkle root of the block's real transactions.
\<close>

theorem merkle_branch_correct:
  assumes "buildTemplateFor lib now a (Inr g) st = (st', Inr t)"
    and "parse_transactions lib (g_transactions g) = Inr txs"
    and "proof_ok lib (map (b_tx_hash lib) (temp_coinbase # txs))"
    and "hash_ok lib" and "\<forall>tx. length (b_tx_hash lib tx) = 32"
  shows "calculateMerkleRootHash lib (b_tx_hash lib cb) (map from_hex (jt_merkle_branch t)) =
         Inr (merkle_root (b_hash256 lib) (map (b_tx_hash lib) (cb # txs)))"
proof -
  have "jt_merkle_branch t = merkle_branch lib (temp_coinbase # txs)"
    using assms(1,2) by (auto elim!: buildTemplateFor_Inr simp: make_template_def)
  then have branch: "map from_hex (jt_merkle_branch t) = left_siblings (b_hash256 lib) (b_tx_hash lib cb # map (b_tx_hash lib) txs)"
    using merkle_branch_siblings[OF assms(3)] by simp
  have len: "\<forall>b \<in> set (left_siblings (b_hash256 lib) xs). length b = 32" if "\<forall>b \<in> set xs. length b = 32" for xs
    using that
  proof (induction "length xs" arbitrary: xs rule: less_induct)
    case less
    have lev: "\<forall>b \<in> set (merkle_level (b_hash256 lib) xs). length b = 32"
      using assms(4) by (induction "b_hash256 lib" xs rule: merkle_level.induct) (simp_all add: hash_ok_def)
    show ?case
      using less lev merkle_level_length[of xs "b_hash256 lib"]
      by (subst left_siblings.simps) (auto simp: not_less)
  qed
  have "branch_ok (map from_hex (jt_merkle_branch t))"
    unfolding branch branch_ok_def using assms(5) by (intro len) auto
  then show ?thesis
    using assms(4,5) by (simp add: merkle_root_fold branch siblings_fold)
qed

section \<open>An example run\<close>

definition example_jobs_lib :: bitcoin_lib where
  "example_jobs_lib = example_lib\<lparr>b_merkle_proof := (\<lambda>xs. map Some
     ((if length xs < 2 then [] else [hd xs]) @ left_siblings example_hash xs @ [merkle_root example_hash xs]))\<rparr>"

definition example_gbt :: gbt where
  "example_gbt =
     \<lparr>g_version = Num 536870912, g_previousblockhash = to_hex (replicate 32 9), g_transactions = [''00'', ''01''],
      g_coinbasevalue = Num 5000000000, g_mintime = Num 1600000000, g_bits = ''207fffff'', g_height = Num 10000,
      g_required_outputs = None, g_script_sig_prefix = None\<rparr>"

lemma example_proof_ok: "proof_ok example_jobs_lib xs"
proof -
  have "List.map_filter id (map Some ys) = ys" for ys :: "bytes list"
    by (induction ys) simp_all
  then show ?thesis
    by (simp add: proof_ok_def example_jobs_lib_def example_lib_def del: map_append)
qed

lemma example_jobs_lib_ok: "hash_ok example_jobs_lib" "\<forall>tx. length (b_tx_hash example_jobs_lib tx) = 32"
  by (simp_all add: hash_ok_def example_jobs_lib_def example_lib_def example_hash_def)

lemma example_parse: "parse_transactions example_jobs_lib (g_transactions example_gbt) = Inr [empty_coinbase, empty_coinbase]"
  by (simp add: example_gbt_def example_jobs_lib_def example_lib_def)

lemma example_build: "\<exists>st' t. buildTemplateFor example_jobs_lib now a (Inr example_gbt) st = (st', Inr t)"
proof -
  have "b_witness_root example_jobs_lib txs = Inr (replicate 32 7)" for txs
    by (simp add: example_jobs_lib_def example_lib_def)
  then show ?thesis
    by (simp add: buildTemplateFor_def example_parse Let_def)
qed

lemma tip_ok_new: "tip_ok a new_job_store"
  by (simp add: tip_ok_def new_job_store_def)

theorem merkle_branch_correct_witness:
  "\<exists>st' t. buildTemplateFor example_jobs_lib 0 ''pool'' (Inr example_gbt) new_job_store = (st', Inr t) \<and>
     calculateMerkleRootHash example_jobs_lib (b_tx_hash example_jobs_lib temp_coinbase)
       (map from_hex (jt_merkle_branch t)) =
     Inr (merkle_root (b_hash256 example_jobs_lib)
       (map (b_tx_hash example_jobs_lib) [temp_coinbase, empty_coinbase, empty_coinbase]))"
  using example_build merkle_branch_correct[OF _ example_parse example_proof_ok example_jobs_lib_ok] by blast

theorem job_ids_unique_witness:
  "getJobById (getNextId (addJob example_job new_job_store)) (addJob example_job new_job_store) = None \<and>
   getJobById (mj_jobId example_job) (addJob example_job new_job_store) = Some example_job \<and>
   getJobTemplateById (getNextTemplateId (addJob example_job new_job_store)) (addJob example_job new_job_store) = None"
proof -
  have "mj_jobId example_job = getNextId new_job_store"
    by code_simp
  then have run: "(any_step example_lib ''pool'')\<^sup>*\<^sup>* new_job_store (addJob example_job new_job_store)"
    by (intro r_into_rtranclp any_step.good store_step.issue)
  have "getJobById (mj_jobId example_job) (addJob example_job new_job_store) = Some example_job"
    by (simp add: jobs.find_add)
  then show ?thesis
    using job_ids_unique[OF run] by blast
qed

theorem stored_work_is_current_witness:
  "\<exists>st t. getJobTemplateById ''1'' st = Some t \<and> map_of (js_lastHeight st) ''pool'' = Some (bd_height (jt_blockData t))"
proof -
  obtain st t where b: "buildTemplateFor example_jobs_lib 0 ''pool'' (Inr example_gbt) new_job_store = (st, Inr t)"
    using example_build by blast
  then have run: "(store_step example_jobs_lib ''pool'')\<^sup>*\<^sup>* new_job_store st"
    by (intro r_into_rtranclp store_step.fetch)
  have "hex_string 1 = ''1''"
    by code_simp
  then have "getJobTemplateById ''1'' st = Some t"
    using b by (auto elim!: buildTemplateFor_Inr simp: getJobTemplateById_def Let_def new_job_store_def update_conv')
  then show ?thesis
    using stored_work_is_current[OF run] by blast
qed

theorem only_first_fetch_clears_witness:
  "\<exists>st1 st2 t1 t2. buildTemplateFor example_jobs_lib 0 ''pool'' (Inr example_gbt) new_job_store = (st1, Inr t1) \<and>
     buildTemplateFor example_jobs_lib 5 ''pool'' (Inr example_gbt) st1 = (st2, Inr t2) \<and>
     bd_clearJobs (jt_blockData t1) \<and> js_jobs st1 = [] \<and> \<not> bd_clearJobs (jt_blockData t2)"
proof -
  obtain st1 t1 where 1: "buildTemplateFor example_jobs_lib 0 ''pool'' (Inr example_gbt) new_job_store = (st1, Inr t1)"
    using example_build by blast
  obtain st2 t2 where 2: "buildTemplateFor example_jobs_lib 5 ''pool'' (Inr example_gbt) st1 = (st2, Inr t2)"
    using example_build by blast
  have h: "g_height example_gbt = Num 10000" "previous_height ''pool'' new_job_store \<noteq> Num 10000"
    by (simp_all add: example_gbt_def previous_height_def new_job_store_def)
  show ?thesis
    using only_first_fetch_clears[OF 1 tip_ok_new 2 h(1) h(1) h(2)] 1 2 by blast
qed

theorem failed_fetch_keeps_stale_work_witness:
  "\<exists>st1 st2 t. buildTemplateFor example_jobs_lib 0 ''pool'' (Inr (example_gbt\<lparr>g_transactions := [''bad'']\<rparr>))
       (addJob example_job new_job_store) = (st1, Inl (mk_error ''invalid'')) \<and>
     buildTemplateFor example_jobs_lib 5 ''pool'' (Inr example_gbt) st1 = (st2, Inr t) \<and>
     \<not> bd_clearJobs (jt_blockData t) \<and> getJobById (mj_jobId example_job) st2 = Some example_job"
proof -
  let ?st = "addJob example_job new_job_store"
  have id: "mj_jobId example_job = getNextId new_job_store" and cr: "5 - mj_creation example_job \<le> 300000"
    by code_simp+
  obtain st1 where 1: "buildTemplateFor example_jobs_lib 0 ''pool'' (Inr (example_gbt\<lparr>g_transactions := [''bad'']\<rparr>)) ?st =
      (st1, Inl (mk_error ''invalid''))"
    by (simp add: buildTemplateFor_def Let_def example_jobs_lib_def example_lib_def)
  obtain st2 t where 2: "buildTemplateFor example_jobs_lib 5 ''pool'' (Inr example_gbt) st1 = (st2, Inr t)"
    using example_build by blast
  have h: "g_height (example_gbt\<lparr>g_transactions := [''bad'']\<rparr>) = Num 10000" "g_height example_gbt = Num 10000"
    by (simp_all add: example_gbt_def)
  show ?thesis
  proof -
    have "getJobById (mj_jobId example_job) ?st = Some example_job"
      by (simp add: jobs.find_add)
    from failed_fetch_keeps_stale_work[OF 1 this jobs.add_ok[OF store_ok_new id] cr 2 h] 1 2
    show ?thesis by blast
  qed
qed

end
