(* ===== verification/NetworkTarget.thy ===== *)
theory NetworkTarget
  imports StratumJobs
begin

text \<open>
  The test for a found block compares two doubles: the difficulty of the share's hash and the
  network difficulty computed from the compact target (\<open>calculateNetworkDifficulty\<close>). This theory
  relates it to the rule of the network, which compares the hash with the target as integers.
\<close>

section \<open>The compact target\<close>

definition compact_mantissa :: "int \<Rightarrow> int" where
  "compact_mantissa n = n mod 2 ^ 23"

definition compact_exponent :: "int \<Rightarrow> int" where
  "compact_exponent n = n div 2 ^ 24 mod 256"

definition compact_target :: "int \<Rightarrow> int" where
  "compact_target n = compact_mantissa n * 256 ^ nat (compact_exponent n - 3)"

declare to_int32_int [simp]

lemma of_int32_small: "take_bit 31 w = w \<Longrightarrow> of_int32 w = IntN (uint w)"
proof -
  assume w: "take_bit 31 w = w"
  have "take_bit 31 (uint w) = uint w"
    by (subst (2) w[symmetric]) (simp add: unsigned_take_bit_eq)
  then have "uint w < 2 ^ 31"
    by (metis take_bit_int_less_exp)
  then have "sint w = uint w"
    unfolding sint_uint by (intro signed_take_bit_int_eq_self) (simp_all add: order_trans[of _ 0])
  then show ?thesis
    by (simp add: of_int32_def)
qed

lemma bitand_mask: "k \<le> 31 \<Longrightarrow> to_int32 v = mask k \<Longrightarrow> js_bitand a v = IntN (take_bit k (uint (to_int32 a)))"
  by (simp add: js_bitand_def of_int32_small unsigned_take_bit_eq flip: take_bit_eq_mask)

lemma mantissa_bits: "js_bitand (IntN n) (Num 0x007fffff) = IntN (compact_mantissa n)"
proof -
  have "to_int32 (Num 0x007fffff) = mask 23"
    by (simp add: mask_eq_exp_minus_1)
  then show ?thesis
    by (subst bitand_mask)
      (simp_all add: uint_word_of_int_eq del: js_trunc.simps, simp add: compact_mantissa_def take_bit_eq_mod)
qed

lemma to_int32_of_int32 [simp]: "to_int32 (of_int32 w) = w"
  unfolding of_int32_def to_int32_int by (simp only: of_int_sint scast_id)

lemma exponent_bits: "js_bitand (js_sar (IntN n) 24) (Num 0xff) = IntN (compact_exponent n)"
proof -
  have "take_bit 8 (signed_drop_bit 24 w) = drop_bit 24 w" for w :: "32 word"
    by (rule bit_word_eqI) (auto simp: bit_take_bit_iff bit_signed_drop_bit_iff bit_drop_bit_eq dest: bit_imp_le_length)
  then have "take_bit 8 (uint (signed_drop_bit 24 (word_of_int n :: 32 word))) = uint (drop_bit 24 (word_of_int n :: 32 word))"
    by (simp flip: unsigned_take_bit_eq)
  also have "\<dots> = compact_exponent n"
  proof -
    have "uint (drop_bit 24 (word_of_int n :: 32 word)) = drop_bit 24 (take_bit 32 n)"
      by (simp only: unsigned_drop_bit_eq uint_word_of_int_eq) simp
    also have "\<dots> = take_bit 8 (drop_bit 24 n)"
      by (simp add: drop_bit_take_bit)
    finally show ?thesis
      by (simp add: take_bit_eq_mod drop_bit_eq_div compact_exponent_def)
  qed
  finally have *: "take_bit 8 (uint (signed_drop_bit 24 (word_of_int n :: 32 word))) = compact_exponent n" .
  have "to_int32 (Num 0xff) = mask 8"
    by (simp add: mask_eq_exp_minus_1)
  then show ?thesis
    using bitand_mask[of 8 "Num 0xff" "js_sar (IntN n) 24"]
    unfolding js_sar_def to_int32_of_int32 to_int32_int by (simp add: * del: to_int32.simps)
qed

section \<open>The two constants are the same double\<close>

lemma one_target_exact: "one_target = 65535 * 2 ^ 208"
proof -
  let ?x = "2695953529101131 * 10 ^ 52 :: rat"
  have "flog2 ?x = 223"
    by (rule flog2_eqI) (simp_all add: power_int_def)
  then have u: "ulp_exp ?x = 171"
    by (simp add: ulp_exp_def)
  have "round_half_even (?x / 2 powi 171) = 65535 * 2 ^ 37"
    by (rule round_half_even_near) (simp add: power_int_def)
  then show ?thesis
    unfolding one_target_def rnd_def u by (simp add: power_int_def)
qed

section \<open>The double of a target\<close>

text \<open>A digit string whose prefixes are doubles is accumulated without rounding.\<close>

lemma dval_exact:
  "(\<And>k. k \<le> length bs \<Longrightarrow> is_double (of_int (be_value (take k bs)))) \<Longrightarrow> dval bs = of_int (be_value bs)"
proof (induction bs rule: rev_induct)
  case (snoc b bs)
  have "is_double (of_int (be_value (take k bs)))" if "k \<le> length bs" for k
    using snoc.prems[of k] that by simp
  then have "dval bs = of_int (be_value bs)"
    by (rule snoc.IH)
  moreover have "is_double (of_int (be_value bs) * 256 + of_int (uint b))"
    using snoc.prems[of "Suc (length bs)"] by simp
  ultimately show ?case
    using rnd_exact by simp
qed simp

lemma be_value_append: "be_value (as @ bs) = be_value as * 256 ^ length bs + be_value bs"
  by (induction bs rule: rev_induct) (simp_all add: algebra_simps append_assoc[symmetric] del: append_assoc)

lemma be_value_zeros [simp]: "be_value (replicate n 0) = 0"
  by (induction n) (simp_all add: be_value_def)

lemma double_scaled: "0 \<le> m \<Longrightarrow> m < 2 ^ 53 \<Longrightarrow> is_double (of_int (m * 256 ^ k))"
proof -
  assume m: "0 \<le> m" "m < 2 ^ 53"
  have "(of_int (m * 256 ^ k) :: rat) = of_int m * 2 powi int (8 * k)"
    using power_mult[of "2::rat" 8 k] by (simp add: power_int_def nat_mult_distrib)
  then show ?thesis
    using m unfolding is_double_def by (intro exI[of _ m] exI[of _ "int (8 * k)"]) simp
qed

definition target_bytes :: "int \<Rightarrow> nat \<Rightarrow> bytes" where
  "target_bytes m k = replicate (29 - k) 0 @ [word_of_int (m div 65536), word_of_int (m div 256), word_of_int m] @ replicate k 0"

lemma mantissa_value:
  assumes "0 \<le> m" and "m < 2 ^ 23"
  shows "be_value [word_of_int (m div 65536), word_of_int (m div 256), word_of_int m] = m"
proof -
  have "m div 65536 = m div 256 div 256"
    by (simp flip: zdiv_zmult2_eq)
  then have "65536 * (m div 65536) + m div 256 mod 256 * 256 + m mod 256 = m"
    using mult_div_mod_eq[of 256 m] mult_div_mod_eq[of 256 "m div 256"] by linarith
  then show ?thesis
    using assms by (simp add: be_value_def uint_word_of_int)
qed

lemma short_value: "length bs \<le> 6 \<Longrightarrow> be_value (take i bs) < 2 ^ 53"
proof -
  assume "length bs \<le> 6"
  then have "(256::int) ^ length (take i bs) \<le> 256 ^ 6"
    by (intro power_increasing) auto
  then show ?thesis
    using be_value_bounds[of "take i bs"] by simp
qed

text \<open>Every prefix of a target is a short number or the mantissa followed by zeros.\<close>

lemma target_prefix:
  assumes "0 \<le> m" and "m < 2 ^ 23" and "k \<le> 29"
  shows "is_double (of_int (be_value (take j (target_bytes m k))))"
proof -
  let ?d = "[word_of_int (m div 65536), word_of_int (m div 256), word_of_int m] :: bytes"
  have split: "target_bytes m k = (replicate (29 - k) 0 @ ?d) @ replicate k 0"
    by (simp add: target_bytes_def)
  have len: "length (replicate (29 - k) (0 :: 8 word) @ ?d) = 32 - k"
    using assms(3) by simp
  show ?thesis
  proof (cases "j \<le> 32 - k")
    case True
    then have "take j (target_bytes m k) = take j (replicate (29 - k) 0 @ ?d)"
      unfolding split take_append[of j "replicate (29 - k) 0 @ ?d"] len by simp
    then show ?thesis
      using double_scaled[of "be_value (take (j - (29 - k)) ?d)" 0] short_value[of ?d] be_value_bounds[of "take (j - (29 - k)) ?d"]
      by (simp add: be_value_append del: take_Cons_numeral)
  next
    case False
    then have "take j (replicate (29 - k) 0 @ ?d) = replicate (29 - k) 0 @ ?d"
      using len by (intro take_all) simp
    then have "take j (target_bytes m k) = replicate (29 - k) 0 @ ?d @ replicate (min k (j - (32 - k))) 0"
      unfolding split take_append len take_replicate by (simp add: min.commute)
    then have "be_value (take j (target_bytes m k)) = m * 256 ^ min k (j - (32 - k))"
      by (simp only: be_value_append mantissa_value[OF assms(1,2)]) simp
    then show ?thesis
      using double_scaled[of m "min k (j - (32 - k))"] assms(1,2) by simp
  qed
qed

lemma target_bytes_value:
  assumes "0 \<le> m" and "m < 2 ^ 23" and "k \<le> 29"
  shows "length (target_bytes m k) = 32" and "be_value (target_bytes m k) = m * 256 ^ k"
    and "dval (target_bytes m k) = of_int (m * 256 ^ k)"
proof -
  show "length (target_bytes m k) = 32"
    using assms(3) by (simp add: target_bytes_def)
  show v: "be_value (target_bytes m k) = m * 256 ^ k"
    unfolding target_bytes_def be_value_append mantissa_value[OF assms(1,2)] by simp
  show "dval (target_bytes m k) = of_int (m * 256 ^ k)"
    unfolding v[symmetric] by (intro dval_exact target_prefix assms)
qed

section \<open>No block is missed\<close>

lemma compact_bounds: "0 \<le> compact_mantissa n" "compact_mantissa n < 2 ^ 23" "0 \<le> compact_exponent n"
  by (simp_all add: compact_mantissa_def compact_exponent_def)

lemma network_difficulty:
  assumes "0 < compact_mantissa n" and "3 \<le> compact_exponent n" and "compact_exponent n \<le> 32"
  shows "calculateNetworkDifficulty (IntN n) = Num (rnd (one_target / of_int (compact_target n)))"
proof -
  define m e where "m = compact_mantissa n" and "e = nat (compact_exponent n - 3)"
  note me = m_def e_def
  have e: "e \<le> 29" and m: "0 < m" "m < 2 ^ 23"
    using assms compact_bounds by (simp_all add: me)
  have sub: "js_sub (IntN (compact_exponent n)) (Num 3) = IntN (int e)"
    using js_sub_int[of "compact_exponent n" 3] assms(2,3) by (simp add: me safe_int_def)
  have small: "(2::rat) ^ 232 \<le> 2 powi 1000" "(2::rat) ^ 224 \<le> 2 powi 1000" "(2::rat) ^ 300 \<le> 2 powi 1000"
    using pow2_mono[of 232 1000] pow2_mono[of 224 1000] pow2_mono[of 300 1000] by (simp_all add: power_int_numeral)
  have d: "is_double ((256::rat) ^ e)" "is_double (of_int (m * 256 ^ e))" "is_double (65535 * 2 ^ 208 :: rat)" "is_double (2 ^ 208 :: rat)"
    using double_scaled[of 1 e] double_scaled[of m e] double_scaled[of 65535 26] double_scaled[of 1 26] m by simp_all
  have p: "(256::rat) ^ e \<le> 2 ^ 232"
    using power_increasing[OF e, of "256::rat"] by simp
  have pow: "pow256 (IntN (int e)) = Num (256 ^ e)"
  proof -
    have "(2::rat) powi (8 * int e) = 256 ^ e"
      using power_mult[of "2::rat" 8 e] by (simp add: power_int_def nat_mult_distrib)
    then show ?thesis
      using fl_double[OF d(1)] p small(1) by (simp add: pow256_def)
  qed
  have big: "of_int m * (256::rat) ^ e \<le> 2 ^ 300"
  proof -
    have "of_int m * (256::rat) ^ e \<le> 2 ^ 23 * 2 ^ 232"
      using m p by (intro mult_mono) auto
    then show ?thesis by simp
  qed
  have tgt: "js_mul (IntN m) (Num (256 ^ e)) = Num (of_int m * 256 ^ e)"
    using fl_double[OF d(2)] big small(3) m(1) by simp
  have mx: "js_mul (fl (2 ^ 208)) (Num 65535) = Num one_target"
    using fl_double[OF d(4)] fl_double[OF d(3)] small by (simp add: one_target_exact mult.commute)
  have q: "one_target / (of_int m * 256 ^ e) \<le> 2 powi 1000"
  proof -
    have "(1::rat) \<le> of_int m * 256 ^ e"
      using m(1) one_le_power[of "256::rat" e] mult_mono[of 1 "of_int m :: rat" 1 "256 ^ e"] by simp
    then have "one_target / (of_int m * 256 ^ e) \<le> one_target"
      using one_target_pos by (simp add: divide_le_eq)
    then show ?thesis
      using one_target_bounds(2) small(3) by linarith
  qed
  have "js_div (Num one_target) (Num (of_int m * 256 ^ e)) = Num (rnd (one_target / (of_int m * 256 ^ e)))"
    using fl_small[of "one_target / (of_int m * 256 ^ e)"] q m(1) one_target_pos by simp
  moreover have "of_int (compact_target n) = (of_int m * 256 ^ e :: rat)"
    by (simp add: compact_target_def me)
  moreover have "calculateNetworkDifficulty (IntN n) = js_div (Num one_target) (js_mul (IntN m) (pow256 (IntN (int e))))"
    by (simp only: calculateNetworkDifficulty_def Let_def mantissa_bits exponent_bits sub mx m_def[symmetric])
  ultimately show ?thesis
    by (simp only: pow tgt)
qed

text \<open>
  C18. No block is missed: a share whose hash is at most the network's target, as integers, always
  reaches the network difficulty the code computed from the compact target, although hash, target
  and both difficulties pass through doubles.
\<close>

theorem no_block_missed:
  assumes "length (hash256 h) = 32" and "hash_value (hash256 h) \<le> compact_target n"
    and "0 < compact_mantissa n" and "3 \<le> compact_exponent n" and "compact_exponent n \<le> 32"
  shows "js_ge (fst (calculateDifficulty hash256 h)) (calculateNetworkDifficulty (IntN n))"
proof (cases "hash_value (hash256 h) = 0")
  case True
  then show ?thesis
    using assms(1) by (simp add: calculateDifficulty_def difficulty_of_hash network_difficulty[OF assms(3-5)] Let_def)
next
  case False
  let ?b = "target_bytes (compact_mantissa n) (nat (compact_exponent n - 3))"
  have k: "nat (compact_exponent n - 3) \<le> 29"
    using assms(4,5) by simp
  note b = target_bytes_value[OF compact_bounds(1,2) k]
  have pos: "0 < dval (rev (hash256 h))"
    using False be_value_bounds[of "rev (hash256 h)"] by (intro dval_pos) (simp add: hash_value_def)
  have "dval (rev (hash256 h)) \<le> dval ?b"
    using assms(1,2) b(1,2) by (intro dval_mono) (simp_all add: hash_value_def compact_target_def)
  then have "one_target / of_int (compact_target n) \<le> one_target / dval (rev (hash256 h))"
    using pos one_target_pos by (intro divide_left_mono) (auto simp: b(3) compact_target_def)
  then show ?thesis
    using rnd_mono False assms(1)
    by (simp add: calculateDifficulty_def difficulty_of_hash network_difficulty[OF assms(3-5)] Let_def)
qed

text \<open>The easiest target of a regression test network, and a hash below it.\<close>

theorem no_block_missed_witness:
  "js_ge (fst (calculateDifficulty (\<lambda>x. x @ replicate 31 0) [7])) (calculateNetworkDifficulty (IntN 545259519))"
  by (rule no_block_missed)
    (simp_all add: hash_value_def compact_target_def compact_mantissa_def compact_exponent_def)

end
