(* ===== verification/ClientRegistry.thy ===== *)
theory ClientRegistry
  imports JsNumber
begin

text \<open>
  The table of connected clients (\<open>src/ORM/client\<close>): rows are inserted in batches from a queue, kept
  alive by heartbeats, soft-deleted on disconnect or after five silent minutes, and removed a day
  later. Times of rows are whole seconds, the resolution of the database's \<open>DATETIME\<close>.
\<close>

record partial_client =
  pc_address :: string
  pc_clientName :: string
  pc_sessionId :: string
  pc_userAgent :: string
  pc_startTime :: int

record client_row = partial_client +
  cl_bestDifficulty :: jsnum
  cl_hashRate :: jsnum
  cl_createdAt :: int
  cl_updatedAt :: int
  cl_deletedAt :: "int option"

record client_service =
  cs_rows :: "client_row list"
  cs_queue :: "partial_client list"

definition new_client_service :: client_service where
  "new_client_service = \<lparr>cs_rows = [], cs_queue = []\<rparr>"

abbreviation seconds :: "int \<Rightarrow> int" where
  "seconds ms \<equiv> ms div 1000"

type_synonym client_key = "string \<times> string \<times> string"

definition client_key :: "('a) partial_client_scheme \<Rightarrow> client_key" where
  "client_key c = (pc_address c, pc_clientName c, pc_sessionId c)"

section \<open>Inserting\<close>

definition new_client_row :: "int \<Rightarrow> partial_client \<Rightarrow> client_row" where
  "new_client_row now c =
     \<lparr>pc_address = pc_address c, pc_clientName = pc_clientName c, pc_sessionId = pc_sessionId c,
      pc_userAgent = pc_userAgent c, pc_startTime = pc_startTime c, cl_bestDifficulty = Num 0,
      cl_hashRate = Num 0, cl_createdAt = seconds now, cl_updatedAt = seconds now, cl_deletedAt = None\<rparr>"

definition insert_client :: "partial_client \<Rightarrow> client_service \<Rightarrow> client_service" where
  "insert_client c st = st\<lparr>cs_queue := cs_queue st @ [c]\<rparr>"

text \<open>
  The five-second flush: one \<open>INSERT\<close> of the whole queue, which a duplicate primary key makes fail as
  a whole; the queue is empty afterwards either way.
\<close>

definition insertClients :: "int \<Rightarrow> client_service \<Rightarrow> client_service \<times> client_row list fallible" where
  "insertClients now st =
     (let queueCopy = cs_queue st; st1 = st\<lparr>cs_queue := []\<rparr>
      in if queueCopy = [] then (st1, Inr [])
         else if distinct (map client_key queueCopy) \<and>
                 (\<forall>c \<in> set queueCopy. \<forall>r \<in> set (cs_rows st). client_key r \<noteq> client_key c)
         then (st1\<lparr>cs_rows := cs_rows st @ map (new_client_row now) queueCopy\<rparr>,
               Inr (map (new_client_row now) queueCopy))
         else (st1, Inl (mk_error ''UNIQUE constraint failed'')))"

section \<open>Updating and deleting\<close>

definition heartbeat :: "string \<Rightarrow> string \<Rightarrow> string \<Rightarrow> jsnum \<Rightarrow> int \<Rightarrow> client_service \<Rightarrow> client_service" where
  "heartbeat address clientName sessionId hashRate updatedAt st =
     st\<lparr>cs_rows := update_where (\<lambda>r. client_key r = (address, clientName, sessionId))
        (\<lambda>r. r\<lparr>cl_hashRate := hashRate, cl_deletedAt := None, cl_updatedAt := seconds updatedAt\<rparr>) (cs_rows st)\<rparr>"

definition soft_delete :: "int \<Rightarrow> client_row \<Rightarrow> client_row" where
  "soft_delete now r = r\<lparr>cl_deletedAt := Some (seconds now), cl_updatedAt := seconds now\<rparr>"

definition killDeadClients :: "int \<Rightarrow> client_service \<Rightarrow> client_service" where
  "killDeadClients now st =
     st\<lparr>cs_rows := update_where
          (\<lambda>r. cl_deletedAt r = None \<and> cl_updatedAt r < seconds (now - 5 * 60 * 1000)) (soft_delete now) (cs_rows st)\<rparr>"

definition delete_client :: "int \<Rightarrow> string \<Rightarrow> client_service \<Rightarrow> client_service" where
  "delete_client now sessionId st =
     st\<lparr>cs_rows := update_where (\<lambda>r. pc_sessionId r = sessionId) (soft_delete now) (cs_rows st)\<rparr>"

definition deleteAll_clients :: "int \<Rightarrow> client_service \<Rightarrow> client_service" where
  "deleteAll_clients now st = st\<lparr>cs_rows := map (soft_delete now) (cs_rows st)\<rparr>"

text \<open>The stored text has whole seconds, the bound milliseconds: an equal second counts as earlier.\<close>

definition deleteOldClients :: "int \<Rightarrow> client_service \<Rightarrow> client_service" where
  "deleteOldClients now st =
     st\<lparr>cs_rows := filter (\<lambda>r. case cl_deletedAt r of None \<Rightarrow> True
                               | Some d \<Rightarrow> \<not> d \<le> seconds (now - 24 * 60 * 60 * 1000)) (cs_rows st)\<rparr>"

definition updateBestDifficulty :: "int \<Rightarrow> string \<Rightarrow> jsnum \<Rightarrow> client_service \<Rightarrow> client_service" where
  "updateBestDifficulty now sessionId d st =
     st\<lparr>cs_rows := update_where (\<lambda>r. pc_sessionId r = sessionId)
        (\<lambda>r. r\<lparr>cl_bestDifficulty := d, cl_updatedAt := seconds now\<rparr>) (cs_rows st)\<rparr>"

definition updateBestDifficultyIfHigher :: "int \<Rightarrow> string \<Rightarrow> jsnum \<Rightarrow> client_service \<Rightarrow> client_service" where
  "updateBestDifficultyIfHigher now sessionId d st =
     st\<lparr>cs_rows := update_where (\<lambda>r. pc_sessionId r = sessionId \<and> js_lt (cl_bestDifficulty r) d)
        (\<lambda>r. r\<lparr>cl_bestDifficulty := d, cl_updatedAt := seconds now\<rparr>) (cs_rows st)\<rparr>"

section \<open>Queries\<close>

text \<open>Queries do not see soft-deleted rows.\<close>

definition live :: "client_service \<Rightarrow> client_row list" where
  "live st = filter (\<lambda>r. cl_deletedAt r = None) (cs_rows st)"

definition connectedClientCount :: "client_service \<Rightarrow> nat" where
  "connectedClientCount st = length (live st)"

definition getByAddress :: "string \<Rightarrow> client_service \<Rightarrow> client_row list" where
  "getByAddress address st = filter (\<lambda>r. pc_address r = address) (live st)"

definition getByName :: "string \<Rightarrow> string \<Rightarrow> client_service \<Rightarrow> client_row list" where
  "getByName address clientName st = filter (\<lambda>r. pc_address r = address \<and> pc_clientName r = clientName) (live st)"

definition getBySessionId :: "string \<Rightarrow> string \<Rightarrow> string \<Rightarrow> client_service \<Rightarrow> client_row option" where
  "getBySessionId address clientName sessionId st =
     List.find (\<lambda>r. client_key r = (address, clientName, sessionId)) (live st)"

text \<open>\<open>sql_sum\<close> is SQLite's \<open>SUM\<close>; the order of agents with equal counts is the database's.\<close>

definition getUserAgents :: "(jsnum list \<Rightarrow> jsnum) \<Rightarrow> client_service \<Rightarrow> (string \<times> nat \<times> jsnum \<times> jsnum) list" where
  "getUserAgents sql_sum st =
     sort_key (\<lambda>(ua, n, rest). - int n)
       (map (\<lambda>ua. let rs = filter (\<lambda>r. pc_userAgent r = ua) (live st)
                  in (ua, length rs, foldl js_max (cl_bestDifficulty (hd rs)) (map cl_bestDifficulty rs),
                      sql_sum (map cl_hashRate rs)))
         (remdups (map pc_userAgent (live st))))"

section \<open>Liveness of a row\<close>

definition find_client :: "client_key \<Rightarrow> client_service \<Rightarrow> client_row option" where
  "find_client k st = List.find (\<lambda>r. client_key r = k) (cs_rows st)"

definition clients_ok :: "client_service \<Rightarrow> bool" where
  "clients_ok st \<longleftrightarrow> distinct (map client_key (cs_rows st))"

lemma key_soft_delete [simp, row_simps]: "client_key (soft_delete now r) = client_key r"
  by (simp add: soft_delete_def client_key_def)

lemma key_new_row [simp, row_simps]: "client_key (new_client_row now c) = client_key c"
  by (simp add: new_client_row_def client_key_def)

lemma key_updates [simp, row_simps]:
  "client_key (r\<lparr>cl_hashRate := h, cl_deletedAt := d, cl_updatedAt := u\<rparr>) = client_key r"
  "client_key (r\<lparr>cl_bestDifficulty := b, cl_updatedAt := u\<rparr>) = client_key r"
  by (simp_all add: client_key_def)

lemma clients_ok_update:
  "(\<And>r. client_key (f r) = client_key r) \<Longrightarrow> clients_ok st \<Longrightarrow> clients_ok (st\<lparr>cs_rows := update_where p f (cs_rows st)\<rparr>)"
  by (simp add: clients_ok_def map_update_where_same)

lemma clients_ok_insert: "clients_ok st \<Longrightarrow> clients_ok (fst (insertClients now st))"
proof -
  have "distinct (map client_key (rs @ map (new_client_row now) cs))"
    if "distinct (map client_key rs)" "distinct (map client_key cs)" "\<forall>c \<in> set cs. \<forall>r \<in> set rs. client_key r \<noteq> client_key c"
    for rs and cs :: "partial_client list"
  proof -
    have "client_key ` set rs \<inter> client_key ` set cs = {}"
      using that(3) by blast
    then show ?thesis
      using that(1,2) by (simp add: comp_def image_image)
  qed
  then show "clients_ok st \<Longrightarrow> ?thesis"
    by (simp add: clients_ok_def insertClients_def Let_def)
qed

lemma clients_ok_ops:
  assumes "clients_ok st"
  shows "clients_ok (heartbeat a n s h u st)" "clients_ok (killDeadClients now st)" "clients_ok (delete_client now s st)"
    "clients_ok (updateBestDifficulty now s d st)" "clients_ok (updateBestDifficultyIfHigher now s d st)"
    "clients_ok (deleteOldClients now st)" "clients_ok (insert_client c st)"
  using assms by (auto simp: heartbeat_def killDeadClients_def delete_client_def updateBestDifficulty_def
      updateBestDifficultyIfHigher_def deleteOldClients_def insert_client_def intro: clients_ok_update)
    (auto simp: clients_ok_def distinct_map_filter)

lemma find_update_where:
  "(\<And>r. client_key (f r) = client_key r) \<Longrightarrow>
     List.find (\<lambda>r. client_key r = k) (update_where p f rs) =
     map_option (\<lambda>r. if p r then f r else r) (List.find (\<lambda>r. client_key r = k) rs)"
  by (induction rs) auto

text \<open>
  A client that is heard from stays listed: after a heartbeat of an existing row at time \<open>u\<close> every
  sweep for dead clients up to five minutes later leaves it visible, and a sweep more than five
  minutes and one second later hides it.
\<close>

theorem sweep_kills_only_silent:
  assumes "find_client (a, n, s) st = Some r"
  shows "(now \<le> u + 300000 \<longrightarrow>
            getBySessionId a n s (killDeadClients now (heartbeat a n s h u st)) \<noteq> None) \<and>
         (clients_ok st \<and> u + 301000 \<le> now \<longrightarrow>
            getBySessionId a n s (killDeadClients now (heartbeat a n s h u st)) = None)"
proof -
  define r1 where "r1 = r\<lparr>cl_hashRate := h, cl_deletedAt := None, cl_updatedAt := seconds u\<rparr>"
  let ?kill = "\<lambda>r. cl_deletedAt r = None \<and> cl_updatedAt r < seconds (now - 5 * 60 * 1000)"
  let ?st = "killDeadClients now (heartbeat a n s h u st)"
  define r2 where "r2 = (if ?kill r1 then soft_delete now r1 else r1)"
  have key: "client_key r = (a, n, s)"
    using assms by (auto simp: find_client_def find_Some_iff)
  have "find_client (a, n, s) (heartbeat a n s h u st) = Some r1"
    using assms key by (simp add: find_client_def heartbeat_def find_update_where r1_def)
  then have f: "List.find (\<lambda>r. client_key r = (a, n, s)) (cs_rows ?st) = Some r2"
    by (simp add: find_client_def killDeadClients_def find_update_where r2_def)
  have mem: "r2 \<in> set (cs_rows ?st)" and k2: "client_key r2 = (a, n, s)"
    using f by (auto simp: find_Some_iff)
  have "getBySessionId a n s ?st \<noteq> None" if "now \<le> u + 300000"
  proof -
    have "seconds (now - 5 * 60 * 1000) \<le> seconds u"
      using that by (intro zdiv_mono1) simp_all
    then have "cl_deletedAt r2 = None"
      by (simp add: r2_def r1_def)
    then show ?thesis
      using mem k2 by (auto simp: getBySessionId_def live_def find_None_iff)
  qed
  moreover have "getBySessionId a n s ?st = None" if "clients_ok st" "u + 301000 \<le> now"
  proof -
    have "seconds u < seconds (now - 300000)"
      using that(2) by linarith
    then have del: "cl_deletedAt r2 \<noteq> None"
      by (simp add: r2_def r1_def soft_delete_def)
    have "clients_ok ?st"
      using that(1) by (intro clients_ok_ops)
    then have "x = r2" if "x \<in> set (cs_rows ?st)" "client_key x = (a, n, s)" for x
      using that mem k2 unfolding clients_ok_def distinct_map inj_on_def by metis
    then show ?thesis
      using del by (auto simp: getBySessionId_def live_def find_None_iff)
  qed
  ultimately show ?thesis by blast
qed

definition example_client :: partial_client where
  "example_client =
     \<lparr>pc_address = ''addr'', pc_clientName = ''w'', pc_sessionId = ''0a1b2c3d'', pc_userAgent = ''cpuminer'', pc_startTime = 0\<rparr>"

definition example_clients :: client_service where
  "example_clients = \<lparr>cs_rows = [new_client_row 0 example_client], cs_queue = []\<rparr>"

theorem sweep_kills_only_silent_witness:
  "getBySessionId ''addr'' ''w'' ''0a1b2c3d''
     (killDeadClients 350000 (heartbeat ''addr'' ''w'' ''0a1b2c3d'' (Num 5) 60000 example_clients)) \<noteq> None \<and>
   getBySessionId ''addr'' ''w'' ''0a1b2c3d''
     (killDeadClients 400000 (heartbeat ''addr'' ''w'' ''0a1b2c3d'' (Num 5) 60000 example_clients)) = None"
proof -
  have f: "find_client (''addr'', ''w'', ''0a1b2c3d'') example_clients = Some (new_client_row 0 example_client)"
    and ok: "clients_ok example_clients"
    by (simp_all add: find_client_def example_clients_def new_client_row_def example_client_def client_key_def clients_ok_def)
  show ?thesis
    using sweep_kills_only_silent[OF f, of 350000 60000 "Num 5"] sweep_kills_only_silent[OF f, of 400000 60000 "Num 5"] ok
    by simp
qed

end
