(* ===== verification/AddressSettings.thy ===== *)
theory AddressSettings
  imports JsNumber
begin

text \<open>
  The best share of every address (\<open>src/ORM/address-settings\<close>) and the table of found blocks
  (\<open>src/ORM/blocks\<close>).
\<close>

record address_row =
  as_address :: string
  as_shares :: jsnum
  as_bestDifficulty :: jsnum
  as_bestDifficultyUserAgent :: "string option"
  as_updatedAt :: int

type_synonym address_table = "address_row list"

definition fresh_address :: "int \<Rightarrow> string \<Rightarrow> address_row" where
  "fresh_address now address =
     \<lparr>as_address = address, as_shares = Num 0, as_bestDifficulty = Num 0, as_bestDifficultyUserAgent = None,
      as_updatedAt = now\<rparr>"

section \<open>The operations\<close>

definition find_address :: "string \<Rightarrow> address_table \<Rightarrow> address_row option" where
  "find_address address t = List.find (\<lambda>r. as_address r = address) t"

definition insert_address :: "int \<Rightarrow> string \<Rightarrow> address_table \<Rightarrow> address_table" where
  "insert_address now address t =
     (if \<exists>r \<in> set t. as_address r = address then t else t @ [fresh_address now address])"

text \<open>Creating saves the address: an existing row is left as it is.\<close>

definition getSettings :: "int \<Rightarrow> string \<Rightarrow> bool \<Rightarrow> address_table \<Rightarrow> address_table \<times> address_row option" where
  "getSettings now address createIfNotFound t =
     (case find_address address t of
        None \<Rightarrow> if createIfNotFound
                then (insert_address now address t, Some (fresh_address now address)) else (t, None)
      | Some r \<Rightarrow> (t, Some r))"

definition updateBestDifficulty :: "int \<Rightarrow> string \<Rightarrow> jsnum \<Rightarrow> string \<Rightarrow> address_table \<Rightarrow> address_table" where
  "updateBestDifficulty now address d ua t =
     update_where (\<lambda>r. as_address r = address)
       (\<lambda>r. r\<lparr>as_bestDifficulty := d, as_bestDifficultyUserAgent := Some ua, as_updatedAt := now\<rparr>) t"

definition updateBestDifficultyIfHigher :: "int \<Rightarrow> string \<Rightarrow> jsnum \<Rightarrow> string \<Rightarrow> address_table \<Rightarrow> address_table" where
  "updateBestDifficultyIfHigher now address d ua t =
     update_where (\<lambda>r. as_address r = address \<and> js_lt (as_bestDifficulty r) d)
       (\<lambda>r. r\<lparr>as_bestDifficulty := d, as_bestDifficultyUserAgent := Some ua, as_updatedAt := now\<rparr>)
       (insert_address now address t)"

definition getHighScores :: "address_table \<Rightarrow> (int \<times> jsnum \<times> string option) list" where
  "getHighScores t =
     take 10 (map (\<lambda>r. (as_updatedAt r, as_bestDifficulty r, as_bestDifficultyUserAgent r))
       (foldr (\<lambda>r rs. takeWhile (\<lambda>q. js_gt (as_bestDifficulty q) (as_bestDifficulty r)) rs @ r #
                      dropWhile (\<lambda>q. js_gt (as_bestDifficulty q) (as_bestDifficulty r)) rs)
          (filter (\<lambda>r. js_gt (as_bestDifficulty r) (Num 0)) t) []))"

definition add_address_shares :: "int \<Rightarrow> string \<Rightarrow> jsnum \<Rightarrow> address_table \<Rightarrow> address_table" where
  "add_address_shares now address n t =
     update_where (\<lambda>r. as_address r = address) (\<lambda>r. r\<lparr>as_shares := js_add (as_shares r) n, as_updatedAt := now\<rparr>) t"

definition resetBestDifficultyAndShares :: "int \<Rightarrow> address_table \<Rightarrow> address_table" where
  "resetBestDifficultyAndShares now t =
     map (\<lambda>r. r\<lparr>as_shares := Num 0, as_bestDifficulty := Num 0, as_updatedAt := now\<rparr>) t"

section \<open>Found blocks\<close>

record found_block =
  fb_id :: int
  fb_height :: jsnum
  fb_minerAddress :: string
  fb_worker :: string
  fb_sessionId :: string
  fb_blockData :: string

definition save_block :: "jsnum \<Rightarrow> string \<Rightarrow> string \<Rightarrow> string \<Rightarrow> string \<Rightarrow> found_block list \<Rightarrow> found_block list" where
  "save_block h miner worker sess blockData bs =
     bs @ [\<lparr>fb_id = int (length bs) + 1, fb_height = h, fb_minerAddress = miner,
            fb_worker = worker, fb_sessionId = sess, fb_blockData = blockData\<rparr>]"

definition block_view :: "found_block \<Rightarrow> jsnum \<times> string \<times> string \<times> string" where
  "block_view b = (fb_height b, fb_minerAddress b, fb_worker b, fb_sessionId b)"

definition by_height_desc :: "found_block list \<Rightarrow> found_block list" where
  "by_height_desc bs = foldr (\<lambda>b rs. takeWhile (\<lambda>q. js_gt (fb_height q) (fb_height b)) rs @ b #
                                    dropWhile (\<lambda>q. js_gt (fb_height q) (fb_height b)) rs) bs []"

definition getFoundBlocks :: "found_block list \<Rightarrow> (jsnum \<times> string \<times> string \<times> string) list" where
  "getFoundBlocks bs = map block_view (by_height_desc bs)"

definition getFoundBlocksByAddress :: "string \<Rightarrow> found_block list \<Rightarrow> (jsnum \<times> string \<times> string \<times> string) list" where
  "getFoundBlocksByAddress address bs = map block_view (by_height_desc (filter (\<lambda>b. fb_minerAddress b = address) bs))"

section \<open>The best share\<close>

text \<open>The value a reader sees: zero for an address without a row.\<close>

definition best_of :: "string \<Rightarrow> address_table \<Rightarrow> jsnum" where
  "best_of a t = (case find_address a t of None \<Rightarrow> Num 0 | Some r \<Rightarrow> as_bestDifficulty r)"

definition higher :: "jsnum \<Rightarrow> jsnum \<Rightarrow> jsnum" where
  "higher b d = (if js_lt b d then d else b)"

lemma find_address_update:
  "(\<And>r. as_address (f r) = as_address r) \<Longrightarrow>
     find_address a (update_where p f t) = map_option (\<lambda>r. if p r then f r else r) (find_address a t)"
  unfolding find_address_def by (induction t) auto

lemma find_address_insert:
  "find_address a (insert_address now b t) =
     (if a = b \<and> find_address a t = None then Some (fresh_address now a) else find_address a t)"
proof (cases "\<exists>r \<in> set t. as_address r = b")
  case True
  then have "find_address b t \<noteq> None"
    by (auto simp: find_address_def find_None_iff)
  then show ?thesis
    using True by (auto simp: insert_address_def)
next
  case False
  then have "find_address b t = None"
    by (auto simp: find_address_def find_None_iff)
  moreover have "List.find (\<lambda>r. as_address r = a) (t @ [fresh_address now b]) =
     (case List.find (\<lambda>r. as_address r = a) t of None \<Rightarrow> if a = b then Some (fresh_address now b) else None | Some r \<Rightarrow> Some r)"
    by (induction t) (auto simp: fresh_address_def)
  ultimately show ?thesis
    using False by (auto simp: find_address_def insert_address_def split: option.splits)
qed

lemma best_of_update [step_simps]:
  "best_of a (updateBestDifficultyIfHigher now b d ua t) = (if a = b then higher (best_of a t) d else best_of a t)"
proof -
  let ?f = "\<lambda>r. r\<lparr>as_bestDifficulty := d, as_bestDifficultyUserAgent := Some ua, as_updatedAt := now\<rparr>"
  have "find_address a (updateBestDifficultyIfHigher now b d ua t) =
      map_option (\<lambda>r. if as_address r = b \<and> js_lt (as_bestDifficulty r) d then ?f r else r)
        (find_address a (insert_address now b t))"
    unfolding updateBestDifficultyIfHigher_def by (rule find_address_update) simp
  moreover have "as_address r = a" if "find_address a t = Some r" for r
    using that by (auto simp: find_address_def find_Some_iff)
  ultimately show ?thesis
    by (auto simp: best_of_def find_address_insert higher_def fresh_address_def split: option.splits)
qed

lemma best_of_reset [step_simps]: "best_of a (resetBestDifficultyAndShares now t) = Num 0"
  unfolding best_of_def find_address_def resetBestDifficultyAndShares_def
  by (induction t) (auto split: if_splits option.splits)

text \<open>The best shares after a run of submissions \<open>(time, address, difficulty, agent)\<close>.\<close>

definition submit_all :: "(int \<times> string \<times> jsnum \<times> string) list \<Rightarrow> address_table \<Rightarrow> address_table" where
  "submit_all xs t = foldl (\<lambda>t (now, a, d, ua). updateBestDifficultyIfHigher now a d ua t) t xs"

lemma best_of_submit_all:
  "best_of a (submit_all xs t) = foldl higher (best_of a t) (map (\<lambda>x. fst (snd (snd x))) (filter (\<lambda>x. fst (snd x) = a) xs))"
  by (induction xs arbitrary: t) (auto simp: submit_all_def best_of_update)

lemma foldl_higher:
  assumes "b \<noteq> NaN"
  shows "js_le b (foldl higher b ds) \<and> (\<forall>d \<in> set ds. d \<noteq> NaN \<longrightarrow> js_le d (foldl higher b ds)) \<and>
         (foldl higher b ds = b \<or> foldl higher b ds \<in> set ds)"
  using assms
proof (induction ds arbitrary: b)
  case (Cons d ds)
  have h: "higher b d \<noteq> NaN" "js_le b (higher b d)" "d \<noteq> NaN \<longrightarrow> js_le d (higher b d)" "higher b d = b \<or> higher b d = d"
    using Cons.prems js_not_lt_le[of b d] by (auto simp: higher_def js_lt_imp_le)
  show ?case
    using Cons.IH[OF h(1)] h(2-4) by (auto intro: js_le_trans)
qed simp

text \<open>
  The recorded best share is the maximum: after any run of submissions by all miners since a
  reset, the best difficulty of an address bounds every difficulty it submitted and is one of them,
  or zero if it submitted none.
\<close>

theorem best_share_is_maximum:
  assumes "\<forall>x \<in> set xs. fst (snd (snd x)) \<noteq> NaN"
  shows "(\<forall>now d ua. (now, a, d, ua) \<in> set xs \<longrightarrow> js_le d (best_of a (submit_all xs (resetBestDifficultyAndShares r t)))) \<and>
         (best_of a (submit_all xs (resetBestDifficultyAndShares r t)) = Num 0 \<or>
          (\<exists>now ua. (now, a, best_of a (submit_all xs (resetBestDifficultyAndShares r t)), ua) \<in> set xs))"
proof -
  let ?ds = "map (\<lambda>x. fst (snd (snd x))) (filter (\<lambda>x. fst (snd x) = a) xs)"
  have eq: "best_of a (submit_all xs (resetBestDifficultyAndShares r t)) = foldl higher (Num 0) ?ds"
    by (simp add: best_of_submit_all best_of_reset)
  have mem: "d \<in> set ?ds \<longleftrightarrow> (\<exists>now ua. (now, a, d, ua) \<in> set xs)" for d
    by force
  note f = foldl_higher[of "Num 0" ?ds]
  show ?thesis
    unfolding eq using f assms mem by (metis fst_conv jsnum.distinct(5) snd_conv)
qed

theorem best_share_is_maximum_witness:
  "js_le (Num 7) (best_of ''a'' (submit_all [(1, ''a'', Num 7, ''x''), (2, ''b'', Num 9, ''y''), (3, ''a'', Num 2, ''x'')]
     (resetBestDifficultyAndShares 0 [fresh_address 0 ''a''])))"
proof -
  have "\<forall>x \<in> set [(1, ''a'', Num 7, ''x''), (2, ''b'', Num 9, ''y''), (3::int, ''a'', Num 2, ''x'')]. fst (snd (snd x)) \<noteq> NaN"
    by simp
  from conjunct1[OF best_share_is_maximum[OF this, of "''a''" 0 "[fresh_address 0 ''a'']"]] show ?thesis
    by (elim allE[of _ 1] allE[of _ "Num 7"] allE[of _ "''x''"]) simp
qed

end
