(* ===== verification/PoolRegistry.thy ===== *)
theory PoolRegistry
  imports Config "HOL-Library.AList"
begin

text \<open>
  Reporting of found blocks (\<open>src/services/pool-registry.service.ts\<close>): the list of explorers read from
  the shared registry, and the memory of recently found blocks an explorer may ask about. The network
  and the cache file are parameters.
\<close>

record mempool_entry =
  me_name :: string
  me_url :: string

record registry =
  pr_mempools :: "mempool_entry list"
  pr_recent :: "(string \<times> int) list"
  pr_cache :: "string option"

section \<open>The registry file\<close>

text \<open>
  One match of the regular expression for a quoted string, from behind its opening quote: what it
  captures and what follows. A backslash takes the next character with it, unless that ends the line.
\<close>

definition line_end :: "char \<Rightarrow> bool" where
  "line_end c \<longleftrightarrow> c = CHR 0x0A \<or> c = CHR 0x0D"

fun quoted_body :: "string \<Rightarrow> (string \<times> string) option" where
  "quoted_body [] = None"
| "quoted_body (c # cs) =
     (if c = CHR 0x22 then Some ([], cs)
      else if c = CHR 0x5C then
        (case cs of [] \<Rightarrow> None
         | d # ds \<Rightarrow> if line_end d then None
                    else map_option (\<lambda>(b, r). (c # d # b, r)) (quoted_body ds))
      else map_option (\<lambda>(b, r). (c # b, r)) (quoted_body cs))"

lemma quoted_body_shorter: "quoted_body s = Some (b, r) \<Longrightarrow> length r < length s"
  by (induction s arbitrary: b r rule: quoted_body.induct) (auto split: if_splits list.splits simp: less_Suc_eq)

text \<open>All matches on a line; a quote that opens none is skipped.\<close>

function quoted_fields :: "string \<Rightarrow> string list" where
  "quoted_fields [] = []"
| "quoted_fields (c # cs) =
     (if c = CHR 0x22 then
        (case quoted_body cs of None \<Rightarrow> quoted_fields cs | Some (b, r) \<Rightarrow> b # quoted_fields r)
      else quoted_fields cs)"
  by pat_completeness auto
termination
  by (relation "measure length") (auto dest: quoted_body_shorter)

definition registry_entry :: "string \<Rightarrow> mempool_entry list" where
  "registry_entry rawLine =
     (let line = trim rawLine
      in if line = [] then []
         else case quoted_fields line of
                [name, url] \<Rightarrow>
                  if trim name = [] \<or> trim url = [] then [] else [\<lparr>me_name = trim name, me_url = trim url\<rparr>]
              | _ \<Rightarrow> [])"

definition parseMempoolsRegistry :: "string \<Rightarrow> mempool_entry list" where
  "parseMempoolsRegistry text = concat (map registry_entry (split_on (CHR 0x0A) text))"

section \<open>Loading and refreshing\<close>

definition strip_slash :: "string \<Rightarrow> string" where
  "strip_slash s = (if s \<noteq> [] \<and> last s = CHR ''/'' then butlast s else s)"

definition registry_base :: "config \<Rightarrow> string" where
  "registry_base cfg =
     strip_slash (case cfg ''MEMPOOL_REGISTRY_URL'' of
        Some u \<Rightarrow> if trim u \<noteq> [] then trim u
                  else ''https://raw.githubusercontent.com/kutlusoy/elektron-net-registry/main''
      | None \<Rightarrow> ''https://raw.githubusercontent.com/kutlusoy/elektron-net-registry/main'')"

definition loadLocalCache :: "registry \<Rightarrow> registry" where
  "loadLocalCache st =
     (case pr_cache st of None \<Rightarrow> st | Some text \<Rightarrow> st\<lparr>pr_mempools := parseMempoolsRegistry text\<rparr>)"

text \<open>\<open>writable\<close>: whether the cache file can be written (a failure is only logged).\<close>

definition saveLocalCache :: "bool \<Rightarrow> string \<Rightarrow> registry \<Rightarrow> registry" where
  "saveLocalCache writable text st = (if writable then st\<lparr>pr_cache := Some text\<rparr> else st)"

definition refreshRegistry :: "(string \<Rightarrow> string fallible) \<Rightarrow> bool \<Rightarrow> config \<Rightarrow> registry \<Rightarrow> registry" where
  "refreshRegistry fetch writable cfg st =
     (case fetch (registry_base cfg @ ''/mempools.txt'') of
        Inl e \<Rightarrow> st
      | Inr text \<Rightarrow>
          (let entries = parseMempoolsRegistry text
           in if entries \<noteq> [] then saveLocalCache writable text (st\<lparr>pr_mempools := entries\<rparr>) else st))"

definition registry_start :: "(string \<Rightarrow> string fallible) \<Rightarrow> bool \<Rightarrow> config \<Rightarrow> registry \<Rightarrow> registry" where
  "registry_start fetch writable cfg st = refreshRegistry fetch writable cfg (loadLocalCache st)"

section \<open>Found blocks\<close>

definition pruneOldEntries :: "int \<Rightarrow> registry \<Rightarrow> registry" where
  "pruneOldEntries now st = st\<lparr>pr_recent := filter (\<lambda>(h, foundAt). \<not> foundAt < now - 30 * 60 * 1000) (pr_recent st)\<rparr>"

definition recordFoundBlock :: "int \<Rightarrow> string \<Rightarrow> registry \<Rightarrow> registry" where
  "recordFoundBlock now blockHash st =
     pruneOldEntries now (st\<lparr>pr_recent := AList.update (to_lower blockHash) now (pr_recent st)\<rparr>)"

definition wasRecentlyFound :: "int \<Rightarrow> string \<Rightarrow> registry \<Rightarrow> registry \<times> bool" where
  "wasRecentlyFound now blockHash st =
     (let st' = pruneOldEntries now st in (st', map_of (pr_recent st') (to_lower blockHash) \<noteq> None))"

text \<open>The reports sent: url, pool name, block hash.\<close>

definition reportBlockFound :: "config \<Rightarrow> int \<Rightarrow> string \<Rightarrow> registry \<Rightarrow> registry \<times> (string \<times> string \<times> string) list" where
  "reportBlockFound cfg now blockHash st =
     (let st' = recordFoundBlock now blockHash st
      in (st', case cfg ''POOL_IDENTIFIER'' of
                 None \<Rightarrow> []
               | Some n \<Rightarrow> if trim n = [] \<or> pr_mempools st' = [] then []
                           else map (\<lambda>m. (strip_slash (me_url m) @ ''/api/v1/pool-registry/report'', trim n, blockHash))
                                  (pr_mempools st')))"

section \<open>Lemmas\<close>

text \<open>A bad answer of the registry never empties a known list.\<close>

lemma refresh_keeps_list:
  "pr_mempools st \<noteq> [] \<Longrightarrow> pr_mempools (refreshRegistry fetch writable cfg st) \<noteq> []"
  by (simp add: refreshRegistry_def saveLocalCache_def Let_def split: sum.splits)

text \<open>A found block is confirmed for half an hour, in any spelling of its hash, and not longer.\<close>

lemma found_block_confirmed:
  assumes "distinct (map fst (pr_recent st))" and "now \<le> later"
    and "to_lower spelling = to_lower blockHash"
  shows "snd (wasRecentlyFound later spelling (recordFoundBlock now blockHash st)) \<longleftrightarrow> later \<le> now + 1800000"
proof -
  let ?r = "AList.update (to_lower blockHash) now (pr_recent st)"
  let ?p = "\<lambda>(h, foundAt). \<not> foundAt < later - 30 * 60 * (1000::int)"
  have d: "distinct (map fst ?r)"
    using assms(1) by (rule distinct_update)
  have "map_of (filter p xs) k = (case map_of xs k of None \<Rightarrow> None | Some v \<Rightarrow> if p (k, v) then Some v else None)"
    if "distinct (map fst xs)" for p :: "string \<times> int \<Rightarrow> bool" and xs k
    using that by (induction xs) (auto split: option.splits simp: map_of_eq_None_iff image_iff)
  from this[OF d] this[OF distinct_map_filter[OF d]] show ?thesis
    using assms(2,3) by (auto simp: wasRecentlyFound_def recordFoundBlock_def pruneOldEntries_def Let_def update_conv')
qed

text \<open>A line with two quoted fields without quotes, backslashes or surrounding space is read as that entry.\<close>

definition plain :: "string \<Rightarrow> bool" where
  "plain s \<longleftrightarrow> s \<noteq> [] \<and> trim s = s \<and> CHR 0x22 \<notin> set s \<and> CHR 0x5C \<notin> set s"

lemma quoted_body_plain:
  "CHR 0x22 \<notin> set s \<Longrightarrow> CHR 0x5C \<notin> set s \<Longrightarrow> quoted_body (s @ CHR 0x22 # r) = Some (s, r)"
  by (induction s) auto

definition registry_line :: "mempool_entry \<Rightarrow> string" where
  "registry_line m = CHR 0x22 # me_name m @ CHR 0x22 # CHR '','' # CHR 0x22 # me_url m @ [CHR 0x22]"

lemma quoted_fields_line:
  "plain (me_name m) \<Longrightarrow> plain (me_url m) \<Longrightarrow> quoted_fields (registry_line m) = [me_name m, me_url m]"
  by (simp add: registry_line_def plain_def quoted_body_plain)

lemma trim_registry_line: "trim (registry_line m) = registry_line m"
  by (simp add: registry_line_def trim_def trim_start_def is_space_def code_unit_def)

lemma registry_entry_line:
  "plain (me_name m) \<Longrightarrow> plain (me_url m) \<Longrightarrow> registry_entry (registry_line m) = [m]"
  using quoted_fields_line[of m] trim_registry_line[of m]
  by (simp add: registry_entry_def plain_def) (simp add: registry_line_def)

end
