(* ===== verification/ExternalShares.thy ===== *)
theory ExternalShares
  imports Buffers Config
begin

text \<open>
  Shares reported by other pools (\<open>src/ORM/external-shares\<close>,
  \<open>src/controllers/external-share\<close>) and the reporting of this pool's own
  (\<open>src/services/external-shares.service.ts\<close>).
\<close>

record external_share =
  es_address :: string
  es_clientName :: string
  es_time :: int
  es_difficulty :: jsnum
  es_userAgent :: string
  es_externalPoolName :: string
  es_header :: string

type_synonym external_table = "external_share list"

section \<open>The table\<close>

definition insert_external :: "external_share \<Rightarrow> external_table \<Rightarrow> external_table" where
  "insert_external s t = t @ [s]"

definition best_in :: "external_share list \<Rightarrow> external_share" where
  "best_in ss = foldl (\<lambda>b s. if js_lt (es_difficulty b) (es_difficulty s) then s else b) (hd ss) (tl ss)"

text \<open>
  The best share per address, highest first. SQLite takes the other columns of a \<open>MAX\<close> group from the
  row with the maximum.
\<close>

definition getTopDifficulties :: "external_table \<Rightarrow> (string \<times> int \<times> string \<times> jsnum) list" where
  "getTopDifficulties t =
     take 10 (map (\<lambda>s. (es_userAgent s, es_time s, es_externalPoolName s, es_difficulty s))
       (foldr (\<lambda>s rs. takeWhile (\<lambda>q. js_gt (es_difficulty q) (es_difficulty s)) rs @ s #
                      dropWhile (\<lambda>q. js_gt (es_difficulty q) (es_difficulty s)) rs)
          (map (\<lambda>a. best_in (filter (\<lambda>s. es_address s = a) t)) (remdups (map es_address t))) []))"

definition getAddressBestDifficulty :: "string \<Rightarrow> external_table \<Rightarrow> jsnum" where
  "getAddressBestDifficulty address t =
     (case filter (\<lambda>s. es_address s = address) t of [] \<Rightarrow> Num 0 | ss \<Rightarrow> es_difficulty (best_in ss))"

definition deleteOldShares :: "int \<Rightarrow> external_table \<Rightarrow> external_table" where
  "deleteOldShares now t = filter (\<lambda>s. \<not> es_time s < now - 24 * 60 * 60 * 1000) t"

definition deleteAll_external :: "external_table \<Rightarrow> external_table" where
  "deleteAll_external t = []"

section \<open>The controller\<close>

record share_report =
  sr_worker :: string
  sr_address :: string
  sr_userAgent :: string
  sr_externalPoolName :: string
  sr_header :: string

text \<open>
  The checks of the validation pipe; \<open>valid_address\<close> is the address check for the configured network.
\<close>

definition is_hex :: "string \<Rightarrow> bool" where
  "is_hex s \<longleftrightarrow> s \<noteq> [] \<and> (\<forall>c \<in> set s. digit_val c < 16)"

definition report_valid :: "(string \<Rightarrow> bool) \<Rightarrow> share_report \<Rightarrow> bool" where
  "report_valid valid_address r \<longleftrightarrow>
     length (sr_worker r) \<le> 64 \<and> valid_address (sr_address r) \<and> length (sr_userAgent r) \<le> 128 \<and>
     length (sr_externalPoolName r) \<le> 128 \<and> is_hex (sr_header r)"

text \<open>An unset or empty key or minimum is falsy; the minimum stays a text and is compared as a number.\<close>

definition external_minimum :: "config \<Rightarrow> jsnum" where
  "external_minimum cfg =
     (case cfg ''MINIMUM_DIFFICULTY'' of
        None \<Rightarrow> Num 1000000000000 | Some m \<Rightarrow> if m = [] then Num 1000000000000 else to_number m)"

definition api_key_ok :: "config \<Rightarrow> string option \<Rightarrow> bool" where
  "api_key_ok cfg apiKey \<longleftrightarrow>
     (case cfg ''SHARE_SUBMISSION_API_KEY'' of None \<Rightarrow> True | Some k \<Rightarrow> k = [] \<or> apiKey = Some k)"

text \<open>\<open>block_time\<close>: decoding a block header with the Bitcoin library and reading its timestamp.\<close>

definition submitExternalShare ::
  "(bytes \<Rightarrow> bytes) \<Rightarrow> (bytes \<Rightarrow> jsnum fallible) \<Rightarrow> config \<Rightarrow> int \<Rightarrow> string option \<Rightarrow> share_report \<Rightarrow>
     external_table \<Rightarrow> external_table \<times> jsnum fallible" where
  "submitExternalShare hash256 block_time cfg now apiKey r t =
     (if \<not> api_key_ok cfg apiKey then (t, Inl (mk_error ''Invalid API key''))
      else
        (let headerBuffer = from_hex (sr_header r);
             difficulty = fst (calculateDifficulty hash256 headerBuffer)
         in if js_lt difficulty (external_minimum cfg) then (t, Inl (mk_error ''Share difficulty too low''))
            else case block_time headerBuffer of
                   Inl e \<Rightarrow> (t, Inl e)
                 | Inr timestamp \<Rightarrow>
                     if js_lt timestamp (js_sub (js_floor (js_div (IntN now) (Num 1000))) (Num 600))
                     then (t, Inl (mk_error ''Share timestamp too old - must be within last 10 minutes''))
                     else (insert_external
                             \<lparr>es_address = sr_address r, es_clientName = sr_worker r, es_time = now,
                              es_difficulty = difficulty, es_userAgent = sr_userAgent r,
                              es_externalPoolName = sr_externalPoolName r, es_header = sr_header r\<rparr> t,
                           Inr difficulty)))"

section \<open>Reporting the pool's own shares\<close>

definition share_api_url :: "config \<Rightarrow> string" where
  "share_api_url cfg =
     (case cfg ''SHARE_SUBMISSION_URL'' of
        None \<Rightarrow> ''https://web.public-pool.io'' | Some u \<Rightarrow> if u = [] then ''https://web.public-pool.io'' else u)"

text \<open>The request posted: url, key header, body.\<close>

definition submitShare :: "config \<Rightarrow> share_report \<Rightarrow> string \<times> string option \<times> share_report" where
  "submitShare cfg share = (share_api_url cfg @ ''/api/share'', cfg ''SHARE_SUBMISSION_API_KEY'', share)"

section \<open>Lemmas\<close>

lemma rejected_share_leaves_table:
  "submitExternalShare hash256 block_time cfg now k r t = (t', Inl e) \<Longrightarrow> t' = t"
  by (auto simp: submitExternalShare_def Let_def split: if_splits sum.splits)

lemma accepted_share_checked:
  assumes "submitExternalShare hash256 block_time cfg now k r t = (t', Inr d)"
  shows "api_key_ok cfg k \<and> d = fst (calculateDifficulty hash256 (from_hex (sr_header r))) \<and>
         \<not> js_lt d (external_minimum cfg) \<and> length t' = length t + 1 \<and> es_difficulty (last t') = d"
  using assms by (auto simp: submitExternalShare_def Let_def insert_external_def split: if_splits sum.splits)

text \<open>Nothing ties a report to a single use: the same header is accepted again.\<close>

lemma report_accepted_again:
  assumes "submitExternalShare hash256 block_time cfg now k r t = (t', Inr d)"
  shows "snd (submitExternalShare hash256 block_time cfg now k r t') = Inr d"
  using assms by (auto simp: submitExternalShare_def Let_def split: if_splits sum.splits)

end
