(* ===== verification/NodeRpc.thy ===== *)
theory NodeRpc
  imports WalletRpc
begin

text \<open>
  The client of the pool's own node (\<open>src/services/bitcoin-rpc.service.ts\<close>) and the table of
  templates shared between processes (\<open>src/ORM/rpc-block\<close>). As in \<open>WalletRpc\<close> the node is a function
  of the request and a state it changes at will.
\<close>

record node_client =
  nc_rpcRequestId :: int
  nc_blockHeight :: jsnum

definition node_client_init :: node_client where
  "node_client_init = \<lparr>nc_rpcRequestId = 0, nc_blockHeight = Num 0\<rparr>"

definition node_credentials ::
  "(string \<Rightarrow> string fallible) \<Rightarrow> config \<Rightarrow> (string option \<times> string option) fallible" where
  "node_credentials readFile cfg =
     credentials_from readFile (wallet_cfg cfg ''ELEKTRON_RPC_COOKIEFILE'' ''BITCOIN_RPC_COOKIEFILE'')
       (wallet_cfg cfg ''ELEKTRON_RPC_USER'' ''BITCOIN_RPC_USER'',
        wallet_cfg cfg ''ELEKTRON_RPC_PASSWORD'' ''BITCOIN_RPC_PASSWORD'')"

section \<open>Calls\<close>

definition node_call ::
  "'w node \<Rightarrow> string \<Rightarrow> jsval list \<Rightarrow> node_client \<times> 'w \<Rightarrow> (node_client \<times> 'w) \<times> jsval fallible" where
  "node_call post m params s =
     (case s of (nc, w) \<Rightarrow>
        let i = nc_rpcRequestId nc + 1
        in case post (rpc_request i m params) w of
             (w', Inl e) \<Rightarrow> ((nc\<lparr>nc_rpcRequestId := i\<rparr>, w'), Inl e)
           | (w', Inr body) \<Rightarrow> ((nc\<lparr>nc_rpcRequestId := i\<rparr>, w'), rpc_outcome body))"

definition getMiningInfo :: "'w node \<Rightarrow> node_client \<times> 'w \<Rightarrow> (node_client \<times> 'w) \<times> jsval" where
  "getMiningInfo post s =
     (case node_call post ''getmininginfo'' [] s of
        (s1, Inl e) \<Rightarrow> (s1, Null)
      | (s1, Inr v) \<Rightarrow> (s1, v))"

text \<open>A poll announces a block (\<open>newBlock$\<close>) when the height grew.\<close>

definition pollMiningInfo :: "'w node \<Rightarrow> node_client \<times> 'w \<Rightarrow> (node_client \<times> 'w) \<times> jsval option" where
  "pollMiningInfo post s =
     (case getMiningInfo post s of
        ((nc, w), v) \<Rightarrow>
          if \<not> nullish v \<and> js_gt (val_num (jprop ''blocks'' v)) (nc_blockHeight nc)
          then ((nc\<lparr>nc_blockHeight := val_num (jprop ''blocks'' v)\<rparr>, w), Some v)
          else ((nc, w), None))"

definition template_request :: "string \<Rightarrow> jsval list" where
  "template_request coinbaseAddress =
     [Obj [(''rules'', Arr [String ''segwit'']), (''mode'', String ''template''),
           (''capabilities'', Arr [String ''serverlist'', String ''proposal'']),
           (''coinbaseaddress'', String coinbaseAddress)]]"

text \<open>The loop asks again while the node answers nothing; it returns \<open>None\<close> when it never ends.\<close>

partial_function (option) loadBlockTemplate ::
  "'w node \<Rightarrow> string \<Rightarrow> node_client \<times> 'w \<Rightarrow> ((node_client \<times> 'w) \<times> jsval fallible) option" where
  "loadBlockTemplate post coinbaseAddress s =
     (case node_call post ''getblocktemplate'' (template_request coinbaseAddress) s of
        (s1, Inl e) \<Rightarrow> Some (s1, Inl e)
      | (s1, Inr v) \<Rightarrow> if nullish v then loadBlockTemplate post coinbaseAddress s1 else Some (s1, Inr v))"

declare loadBlockTemplate.simps [code]

definition getBlockTemplate ::
  "'w node \<Rightarrow> string \<Rightarrow> node_client \<times> 'w \<Rightarrow> ((node_client \<times> 'w) \<times> jsval fallible) option" where
  "getBlockTemplate post coinbaseAddress s =
     (if coinbaseAddress = []
      then Some (s, Inl (mk_error ''getBlockTemplate requires coinbaseAddress for Elektron Net UTXO attestation''))
      else case loadBlockTemplate post coinbaseAddress s of
             None \<Rightarrow> None
           | Some (s1, Inl e) \<Rightarrow> Some (s1, Inl (mk_error ''Error getblocktemplate''))
           | Some (s1, Inr v) \<Rightarrow> Some (s1, Inr v))"

fun some_utxo :: "jsnum \<Rightarrow> jsval list \<Rightarrow> bool fallible" where
  "some_utxo expectedAmountSats [] = Inr False"
| "some_utxo expectedAmountSats (utxo # us) =
     (if nullish utxo then Inl (mk_error ''Cannot read properties of null'')
      else if js_eq (js_round (js_mul (val_num (jprop ''amount'' utxo)) (Num 100000000))) expectedAmountSats then Inr True
      else some_utxo expectedAmountSats us)"

definition scanAddressForAmountSats ::
  "'w node \<Rightarrow> string \<Rightarrow> jsnum \<Rightarrow> node_client \<times> 'w \<Rightarrow> (node_client \<times> 'w) \<times> bool fallible" where
  "scanAddressForAmountSats post address expectedAmountSats s =
     (case node_call post ''scantxoutset''
             [String ''start'', Arr [Obj [(''desc'', String (''addr('' @ address @ '')''))]]] s of
        (s1, Inl e) \<Rightarrow> (s1, Inl e)
      | (s1, Inr v) \<Rightarrow>
          (s1, if jprop ''success'' v \<noteq> Bool True then Inr False
               else case jprop ''unspents'' v of
                      Arr us \<Rightarrow> some_utxo expectedAmountSats us
                    | _ \<Rightarrow> Inr False))"

text \<open>The result of a submission: the node's answer, \<open>SUCCESS!\<close> for none, or the error.\<close>

datatype submit_result = Answer jsval | Thrown js_error

definition SUBMIT_BLOCK :: "'w node \<Rightarrow> string \<Rightarrow> node_client \<times> 'w \<Rightarrow> (node_client \<times> 'w) \<times> submit_result" where
  "SUBMIT_BLOCK post hexdata s =
     (case node_call post ''submitblock'' [String hexdata] s of
        (s1, Inl e) \<Rightarrow> (s1, Thrown e)
      | (s1, Inr v) \<Rightarrow> (s1, Answer (if nullish v then String ''SUCCESS!'' else v)))"

section \<open>Templates shared between processes\<close>

record rpc_block =
  rb_blockHeight :: int
  rb_lockedBy :: "string option"
  rb_data :: "string option"

definition getBlock :: "int \<Rightarrow> rpc_block list \<Rightarrow> rpc_block option" where
  "getBlock h t = List.find (\<lambda>b. rb_blockHeight b = h) t"

definition lockBlock :: "int \<Rightarrow> string \<Rightarrow> rpc_block list \<Rightarrow> rpc_block list" where
  "lockBlock h process t =
     (if \<exists>b \<in> set t. rb_blockHeight b = h
      then update_where (\<lambda>b. rb_blockHeight b = h) (\<lambda>b. b\<lparr>rb_data := None, rb_lockedBy := Some process\<rparr>) t
      else t @ [\<lparr>rb_blockHeight = h, rb_lockedBy = Some process, rb_data = None\<rparr>])"

definition saveBlock :: "int \<Rightarrow> string \<Rightarrow> rpc_block list \<Rightarrow> rpc_block list" where
  "saveBlock h data t = update_where (\<lambda>b. rb_blockHeight b = h) (\<lambda>b. b\<lparr>rb_data := Some data\<rparr>) t"

definition deleteOldBlocks :: "rpc_block list \<Rightarrow> rpc_block list" where
  "deleteOldBlocks t =
     (case map rb_blockHeight t of
        [] \<Rightarrow> t
      | h # hs \<Rightarrow> (let newestBlock = foldl max h hs in filter (\<lambda>b. \<not> rb_blockHeight b < newestBlock) t))"

section \<open>Lemmas\<close>

lemma poll_height_grows:
  assumes "pollMiningInfo post s = ((nc, w), r)"
  shows "r \<noteq> None \<longrightarrow> js_lt (nc_blockHeight (fst s)) (nc_blockHeight nc)"
    and "r = None \<longrightarrow> nc_blockHeight nc = nc_blockHeight (fst s)"
  using assms
  by (auto simp: pollMiningInfo_def getMiningInfo_def node_call_def Let_def split: prod.splits sum.splits if_splits)

text \<open>
  A node that cannot be reached at the JSON-RPC level confirms everything: when it answers a
  submission with a body that is neither a result nor an error (the text of an HTTP 401 or 503,
  which the client accepts), the submission counts as a success.
\<close>

theorem empty_answer_submits_block:
  assumes "post (rpc_request (nc_rpcRequestId nc + 1) ''submitblock'' [String hexdata]) w = (w', Inr (String page))"
  shows "snd (SUBMIT_BLOCK post hexdata (nc, w)) = Answer (String ''SUCCESS!'')"
  using assms by (simp add: SUBMIT_BLOCK_def node_call_def Let_def rpc_outcome_def get_jprop_def)

theorem empty_answer_submits_block_witness:
  "snd (SUBMIT_BLOCK (\<lambda>r w. (w + 1, Inr (String ''Unauthorized''))) ''00'' (node_client_init, 0 :: nat)) =
     Answer (String ''SUCCESS!'')"
  unfolding node_client_init_def by (rule empty_answer_submits_block) simp

text \<open>In the same situation the template loop never ends.\<close>

lemma template_loop_diverges:
  assumes "\<And>r w. snd (post r w) = Inr (String page)"
  shows "loadBlockTemplate post a s = None"
proof (rule ccontr)
  have call: "\<exists>s1 v. node_call post m ps s = (s1, Inr v) \<and> nullish v" for m ps s
  proof -
    obtain nc w where s: "s = (nc, w)"
      by fastforce
    obtain w' where "post (rpc_request (nc_rpcRequestId nc + 1) m ps) w = (w', Inr (String page))"
      using assms by (metis prod.collapse)
    then show ?thesis
      by (simp add: node_call_def s Let_def rpc_outcome_def get_jprop_def)
  qed
  assume "loadBlockTemplate post a s \<noteq> None"
  then obtain r where "loadBlockTemplate post a s = Some r"
    by blast
  then have "post \<noteq> post"
  proof (rule loadBlockTemplate.raw_induct[where P = "\<lambda>p a s r. p \<noteq> post", rotated])
    fix f p a s r
    assume IH: "\<And>p a s r. f p a s = Some r \<Longrightarrow> p \<noteq> post"
      and eq: "(case node_call p ''getblocktemplate'' (template_request a) s of
                  (s1, Inl e) \<Rightarrow> Some (s1, Inl e)
                | (s1, Inr v) \<Rightarrow> if nullish v then f p a s1 else Some (s1, Inr v)) = Some r"
    show "p \<noteq> post"
    proof
      assume p: "p = post"
      obtain s1 v where "node_call post ''getblocktemplate'' (template_request a) s = (s1, Inr v)" "nullish v"
        using call by blast
      then have "f post a s1 = Some r"
        using eq by (simp add: p)
      then show False
        using IH by blast
    qed
  qed
  then show False by simp
qed

end
