(* ===== verification/StratumMessages.thy ===== *)
theory StratumMessages
  imports Config JsValue
begin

text \<open>
  The messages of the Stratum protocol (\<open>src/models/stratum-messages\<close>): how a parsed JSON value
  becomes a typed message, which values its validation refuses, and the replies. A transformation
  that throws (\<open>obj.params[0]\<close> of no array, \<open>split\<close> of no string) makes the whole message throw.
\<close>

section \<open>Reading parameters\<close>

text \<open>\<open>v[n]\<close>: throws on \<open>undefined\<close> and \<open>null\<close>, is \<open>undefined\<close> past the end.\<close>

definition index_val :: "nat \<Rightarrow> jsval \<Rightarrow> jsval" where
  "index_val n v =
     (case v of
        Arr vs \<Rightarrow> if n < length vs then vs ! n else Undefined
      | String s \<Rightarrow> if n < length s then String [s ! n] else Undefined
      | Obj kvs \<Rightarrow> jprop (dec_string (int n)) v
      | _ \<Rightarrow> Undefined)"

definition param :: "nat \<Rightarrow> jsval \<Rightarrow> jsval fallible" where
  "param n msg =
     (let ps = jprop ''params'' msg
      in if nullish ps then Inl (mk_error ''Cannot read properties of undefined'') else Inr (index_val n ps))"

definition string_method :: "(string \<Rightarrow> 'a) \<Rightarrow> jsval \<Rightarrow> 'a fallible" where
  "string_method f v = (case v of String s \<Rightarrow> Inr (f s) | _ \<Rightarrow> Inl (mk_error ''is not a function''))"

definition is_array :: "nat \<Rightarrow> nat \<Rightarrow> jsval \<Rightarrow> bool" where
  "is_array lo hi v \<longleftrightarrow> (case v of Arr vs \<Rightarrow> lo \<le> length vs \<and> length vs \<le> hi | _ \<Rightarrow> False)"

definition is_any_array :: "jsval \<Rightarrow> bool" where
  "is_any_array v \<longleftrightarrow> (case v of Arr vs \<Rightarrow> True | _ \<Rightarrow> False)"

text \<open>The id of a message: \<open>null\<close> by default; it must be neither \<open>null\<close> nor \<open>undefined\<close>.\<close>

definition message_id :: "jsval \<Rightarrow> jsval" where
  "message_id msg = (case jprop ''id'' msg of Undefined \<Rightarrow> Null | v \<Rightarrow> v)"

definition id_ok :: "jsval \<Rightarrow> bool" where
  "id_ok msg \<longleftrightarrow> \<not> nullish (message_id msg)"

section \<open>The messages\<close>

text \<open>Each parser returns what it throws, that the validation failed, or the message.\<close>

datatype 'a checked = Invalid | Valid 'a

datatype request_method = SUBSCRIBE | CONFIGURE | AUTHORIZE | SUGGEST_DIFFICULTY | SUBMIT

definition method_of :: "jsval \<Rightarrow> request_method option" where
  "method_of msg =
     (case jprop ''method'' msg of
        String m \<Rightarrow>
          if m = ''mining.subscribe'' then Some SUBSCRIBE
          else if m = ''mining.configure'' then Some CONFIGURE
          else if m = ''mining.authorize'' then Some AUTHORIZE
          else if m = ''mining.suggest_difficulty'' then Some SUGGEST_DIFFICULTY
          else if m = ''mining.submit'' then Some SUBMIT
          else None
      | _ \<Rightarrow> None)"

subsection \<open>mining.subscribe\<close>

record subscription =
  sb_id :: jsval
  sb_userAgent :: string

definition refineUserAgent :: "string \<Rightarrow> string" where
  "refineUserAgent ua =
     (let u = hd (split_on (CHR ''-'') (hd (split_on (CHR ''V'') (hd (split_on (CHR 0x2F) (hd (split_on (CHR '' '') ua)))))))
      in if str_includes ''bosminer'' u \<or> str_includes ''bOS'' u then ''Braiins OS''
         else if str_includes ''cpuminer'' u then ''cpuminer''
         else u)"

definition parse_subscription :: "jsval \<Rightarrow> subscription checked fallible" where
  "parse_subscription msg =
     (let ps = jprop ''params'' msg; v = index_val 0 ps
      in fbind (if nullish v then Inr ''unknown'' else string_method refineUserAgent v) (\<lambda>ua.
           Inr (if id_ok msg \<and> is_any_array ps \<and> length ua \<le> 128
                then Valid \<lparr>sb_id = message_id msg, sb_userAgent = ua\<rparr> else Invalid)))"

definition subscription_result :: "string \<Rightarrow> bool \<Rightarrow> jsval" where
  "subscription_result clientId hobbyMode =
     Arr [Arr [Arr [String ''mining.notify'', String clientId]],
          String (if hobbyMode then clientId else []), Number (Num 0)]"

subsection \<open>mining.configure\<close>

definition parse_configuration :: "jsval \<Rightarrow> jsval checked" where
  "parse_configuration msg =
     (if id_ok msg \<and> is_any_array (jprop ''params'' msg) then Valid (message_id msg) else Invalid)"

text \<open>The version bits a miner may roll; the pool keeps bits 13 to 16 for itself.\<close>

definition announced_mask :: string where
  "announced_mask = ''1ffe0000''"

definition configuration_result :: jsval where
  "configuration_result = Obj [(''version-rolling'', Bool True), (''version-rolling.mask'', String announced_mask)]"

subsection \<open>mining.authorize\<close>

record authorization =
  au_id :: jsval
  au_address :: string
  au_worker :: string
  au_startingDiff :: "jsnum option"
  au_password :: "string option"

text \<open>The first comma-separated field of the password of the form \<open>d=digits\<close>.\<close>

definition is_diff_hint :: "string \<Rightarrow> bool" where
  "is_diff_hint f \<longleftrightarrow> take 2 f = ''d='' \<and> drop 2 f \<noteq> [] \<and> (\<forall>c \<in> set (drop 2 f). digit_val c < 10)"

definition starting_diff :: "string \<Rightarrow> jsnum option" where
  "starting_diff password =
     (case List.find is_diff_hint (split_on (CHR '','') password) of
        None \<Rightarrow> None
      | Some f \<Rightarrow> (let d = parse_int 10 (drop 2 f) in if js_is_finite d then Some d else None))"

text \<open>\<open>valid_address\<close>: whether the library decodes the address for the configured network.\<close>

definition valid_for_network :: "(string \<Rightarrow> network \<Rightarrow> bool) \<Rightarrow> config \<Rightarrow> string \<Rightarrow> bool" where
  "valid_for_network decodes cfg address =
     (case resolveConfiguredNetwork cfg of None \<Rightarrow> False | Some nw \<Rightarrow> decodes address nw)"

definition parse_authorization :: "(string \<Rightarrow> bool) \<Rightarrow> jsval \<Rightarrow> authorization checked fallible" where
  "parse_authorization valid_address msg =
     fbind (param 0 msg) (\<lambda>user.
     fbind (string_method (split_on (CHR ''.'')) user) (\<lambda>parts.
     fbind (param 1 msg) (\<lambda>pw.
     fbind (if nullish pw then Inr None else string_method starting_diff pw) (\<lambda>startingDiff.
       let address = hd parts; worker = (case parts of _ # w # _ \<Rightarrow> w | _ \<Rightarrow> ''worker'')
       in Inr (if id_ok msg \<and> is_array 1 2 (jprop ''params'' msg) \<and> valid_address address \<and>
                  length worker \<le> 64 \<and> (case pw of String p \<Rightarrow> length p \<le> 64 | _ \<Rightarrow> True)
               then Valid \<lparr>au_id = message_id msg, au_address = address, au_worker = worker,
                           au_startingDiff = startingDiff, au_password = val_string pw\<rparr>
               else Invalid)))))"

subsection \<open>mining.suggest_difficulty\<close>

definition parse_suggestion :: "jsval \<Rightarrow> (jsval \<times> jsnum) checked fallible" where
  "parse_suggestion msg =
     fbind (param 0 msg) (\<lambda>v.
       Inr (case jprop ''params'' msg of
              Arr [Number d] \<Rightarrow> if id_ok msg \<and> js_is_finite d then Valid (message_id msg, d) else Invalid
            | _ \<Rightarrow> Invalid))"

subsection \<open>mining.submit\<close>

record submission =
  sm_id :: jsval
  sm_jobId :: string
  sm_extraNonce2 :: string
  sm_ntime :: string
  sm_nonce :: string
  sm_versionMask :: string

definition parse_submission :: "jsval \<Rightarrow> submission checked fallible" where
  "parse_submission msg =
     fbind (param 0 msg) (\<lambda>userId.
       let ps = jprop ''params'' msg;
           extraNonce2 = (if nullish (index_val 2 ps) then String [] else index_val 2 ps);
           versionMask = (if nullish (index_val 5 ps) then String ''0'' else index_val 5 ps)
       in Inr (case (userId, index_val 1 ps, extraNonce2, index_val 3 ps, index_val 4 ps, versionMask) of
                 (String u, String j, String e, String t, String n, String v) \<Rightarrow>
                   if id_ok msg \<and> is_array 5 6 ps
                   then Valid \<lparr>sm_id = message_id msg, sm_jobId = j, sm_extraNonce2 = e, sm_ntime = t,
                               sm_nonce = n, sm_versionMask = v\<rparr>
                   else Invalid
               | _ \<Rightarrow> Invalid))"

section \<open>Replies\<close>

text \<open>
  A reply line is the \<open>JSON.stringify\<close> of one of these. The third element of an error triple, a text
  of the refused values, is left out.
\<close>

datatype stratum_error = OtherUnknown | JobNotFound | DuplicateShare | LowDifficultyShare | UnauthorizedWorker | NotSubscribed

fun error_code :: "stratum_error \<Rightarrow> int" where
  "error_code OtherUnknown = 20"
| "error_code JobNotFound = 21"
| "error_code DuplicateShare = 22"
| "error_code LowDifficultyShare = 23"
| "error_code UnauthorizedWorker = 24"
| "error_code NotSubscribed = 25"

datatype reply =
    Success jsval jsval
  | Failure jsval stratum_error string
  | SetDifficulty jsnum
  | Notify jsval

fun reply_object :: "reply \<Rightarrow> jsval" where
  "reply_object (Success i r) = Obj [(''id'', i), (''error'', Null), (''result'', r)]"
| "reply_object (Failure i c m) =
     Obj [(''id'', i), (''result'', Null), (''error'', Arr [Number (IntN (error_code c)), String m])]"
| "reply_object (SetDifficulty d) =
     Obj [(''id'', Null), (''method'', String ''mining.set_difficulty''), (''params'', Arr [Number d])]"
| "reply_object (Notify m) = m"

end
