(* ===== verification/Effects.thy ===== *)
theory Effects
  imports Prelude
begin

text \<open>
  Code that changes a state and can throw: an action maps a state to the state it leaves and what it
  returns or throws. The state at the point of a throw is kept, as it is in the program.
  \<open>keeps\<close> is the invariant rule of the stateful components: it goes through every construct once,
  and the component theories fill \<open>keeps_intros\<close> with a rule per operation.
\<close>

type_synonym ('s, 'a) action = "'s \<Rightarrow> 's \<times> 'a fallible"

definition returns :: "'a \<Rightarrow> ('s, 'a) action" where
  "returns x s = (s, Inr x)"

definition throws :: "string \<Rightarrow> ('s, 'a) action" where
  "throws m s = (s, Inl (mk_error m))"

definition lift :: "'a fallible \<Rightarrow> ('s, 'a) action" where
  "lift r s = (s, r)"

definition reads :: "('s \<Rightarrow> 'a) \<Rightarrow> ('s, 'a) action" where
  "reads f s = (s, Inr (f s))"

definition change :: "('s \<Rightarrow> 's) \<Rightarrow> ('s, unit) action" where
  "change f s = (f s, Inr ())"

definition binds :: "('s, 'a) action \<Rightarrow> ('a \<Rightarrow> ('s, 'b) action) \<Rightarrow> ('s, 'b) action" where
  "binds m f s = (case m s of (s', Inl e) \<Rightarrow> (s', Inl e) | (s', Inr x) \<Rightarrow> f x s')"

definition seq :: "('s, unit) action \<Rightarrow> ('s, 'b) action \<Rightarrow> ('s, 'b) action" where
  "seq m k = binds m (\<lambda>u. k)"

text \<open>\<open>try { m } catch (e) { h(e) }\<close>, and the \<open>catch\<close> that only logs.\<close>

definition catch :: "('s, 'a) action \<Rightarrow> (js_error \<Rightarrow> ('s, 'a) action) \<Rightarrow> ('s, 'a) action" where
  "catch m h s = (case m s of (s', Inl e) \<Rightarrow> h e s' | (s', Inr x) \<Rightarrow> (s', Inr x))"

definition logged :: "('s, unit) action \<Rightarrow> ('s, unit) action" where
  "logged m = catch m (\<lambda>e. returns ())"

lemma effect_simps [step_simps]:
  "returns x s = (s, Inr x)" "throws m s = (s, Inl (mk_error m))" "lift r s = (s, r)"
  "reads f s = (s, Inr (f s))" "change h s = (h s, Inr ())"
  by (simp_all add: returns_def throws_def lift_def reads_def change_def)

lemma bind_step [step_simps]:
  "m s = (s', Inr x) \<Longrightarrow> binds m f s = f x s'"
  "m s = (s', Inl e) \<Longrightarrow> binds m f s = (s', Inl e)"
  by (simp_all add: binds_def)

lemma bind_simps [step_simps]:
  "binds (returns x) f s = f x s" "binds (throws msg) f s = (s, Inl (mk_error msg))"
  "binds (reads g) k s = k (g s) s" "binds (change h) l s = l () (h s)"
  "binds (lift (Inr y)) m s = m y s" "binds (lift (Inl e)) m s = (s, Inl e)"
  by (simp_all add: binds_def returns_def throws_def reads_def change_def lift_def)

lemma binds_case: "binds m f s = (case snd (m s) of Inl e \<Rightarrow> (fst (m s), Inl e) | Inr x \<Rightarrow> f x (fst (m s)))"
  by (cases "m s"; cases "snd (m s)") (simp_all add: binds_def)

lemma binds_pair [step_simps]:
  "binds (\<lambda>s. (s, g s)) k s = (case g s of Inl e \<Rightarrow> (s, Inl e) | Inr x \<Rightarrow> k x s)"
  by (simp add: binds_def split: sum.split)

lemma seq_simps [step_simps]:
  "seq (returns ()) k s = k s" "seq (throws m) k s = (s, Inl (mk_error m))" "seq (change h) k s = k (h s)"
  by (simp_all add: seq_def bind_simps)

lemma seq_step [step_simps]:
  "m s = (s', Inr ()) \<Longrightarrow> seq m k s = k s'"
  "m s = (s', Inl e) \<Longrightarrow> seq m k s = (s', Inl e)"
  by (simp_all add: seq_def bind_step)

lemma logged_step [step_simps]:
  "m s = (s', Inr ()) \<Longrightarrow> logged m s = (s', Inr ())"
  "m s = (s', Inl e) \<Longrightarrow> logged m s = (s', Inr ())"
  by (simp_all add: logged_def catch_def returns_def)

section \<open>Invariants of actions\<close>

named_theorems keeps_intros "invariant rules of actions"

definition keeps :: "('s \<Rightarrow> bool) \<Rightarrow> ('s, 'a) action \<Rightarrow> bool" where
  "keeps P m \<longleftrightarrow> (\<forall>s. P s \<longrightarrow> P (fst (m s)))"

lemma keepsD: "keeps P m \<Longrightarrow> P s \<Longrightarrow> P (fst (m s))"
  by (simp add: keeps_def)

lemma keeps_basic [keeps_intros]:
  "keeps P (returns x)" "keeps P (throws msg)" "keeps P (lift r)" "keeps P (reads f)"
  by (simp_all add: keeps_def step_simps)

lemma keeps_change [keeps_intros]: "(\<And>s. P s \<Longrightarrow> P (f s)) \<Longrightarrow> keeps P (change f)"
  by (simp add: keeps_def step_simps)

lemma keeps_bind [keeps_intros]: "keeps P m \<Longrightarrow> (\<And>x. keeps P (f x)) \<Longrightarrow> keeps P (binds m f)"
  unfolding keeps_def binds_def by (fastforce split: prod.splits sum.splits)

lemma keeps_seq [keeps_intros]: "keeps P m \<Longrightarrow> keeps P k \<Longrightarrow> keeps P (seq m k)"
  unfolding seq_def by (intro keeps_intros)

lemma keeps_catch [keeps_intros]: "keeps P m \<Longrightarrow> (\<And>e. keeps P (h e)) \<Longrightarrow> keeps P (catch m h)"
  unfolding keeps_def catch_def by (fastforce split: prod.splits sum.splits)

lemma keeps_logged [keeps_intros]: "keeps P m \<Longrightarrow> keeps P (logged m)"
  unfolding logged_def by (intro keeps_intros)

lemma keeps_if [keeps_intros]: "(c \<Longrightarrow> keeps P m) \<Longrightarrow> (\<not> c \<Longrightarrow> keeps P k) \<Longrightarrow> keeps P (if c then m else k)"
  by simp

lemma keeps_option [keeps_intros]:
  "(v = None \<Longrightarrow> keeps P m) \<Longrightarrow> (\<And>x. v = Some x \<Longrightarrow> keeps P (f x)) \<Longrightarrow>
     keeps P (case v of None \<Rightarrow> m | Some x \<Rightarrow> f x)"
  by (cases v) simp_all

text \<open>Actions that look at the state first.\<close>

lemma keeps_if_state [keeps_intros]: "keeps P m \<Longrightarrow> keeps P k \<Longrightarrow> keeps P (\<lambda>s. if c s then m s else k s)"
  by (simp add: keeps_def)

lemma keeps_option_state [keeps_intros]:
  "keeps P m \<Longrightarrow> (\<And>x. keeps P (f x)) \<Longrightarrow> keeps P (\<lambda>s. case v s of None \<Rightarrow> m s | Some x \<Rightarrow> f x s)"
  by (auto simp: keeps_def split: option.split)

lemma keeps_pair [keeps_intros]: "keeps P (\<lambda>s. (s, g s))"
  by (simp add: keeps_def)

end
