(* ===== verification/StratumSession.thy ===== *)
theory StratumSession
  imports Effects StratumMessages StratumJobs MinerStatistics ClientRegistry AddressSettings PoolRegistry
    ExternalShares NodeRpc RewardCalculator "HOL-Library.List_Lexorder"
begin

text \<open>
  One Stratum connection (\<open>src/models/StratumV1Client.ts\<close>): its state, the socket, the tests of user
  agents, the rate-limited log lines, and everything that sends work. Shares and the protocol itself
  are in \<open>ShareSubmission\<close> and \<open>StratumClient\<close>, which build on this theory.

  \<open>world\<close> is what all connections share: the job store, the tables and the requests that left the
  process. \<open>env\<close> is what the outside contributes to one handler: the clock, the settings, the Bitcoin
  library, the node's answers, the outcome of the notifications, random bytes. A handler runs to its
  end before the next one starts, and calls of the database succeed unless a key is violated.
\<close>

section \<open>The state\<close>

record entity =
  en_address :: string
  en_clientName :: string
  en_sessionId :: string
  en_userAgent :: string
  en_bestDifficulty :: jsnum
  en_updatedAt :: "int option"

text \<open>
  The socket: its three flags, what becomes of the next writes (delivered, delivered while the
  peer disconnects, failed; delivered when the list is empty), and what was written.
\<close>

datatype write_outcome = Delivered | Disconnected | Failed

record socket =
  k_destroyed :: bool
  k_writableEnded :: bool
  k_writable :: bool
  k_outcomes :: "write_outcome list"
  k_sent :: "reply list"

datatype timer = DifficultyTimer | JobTimer | WorkTimer

record session =
  c_subscription :: "subscription option"
  c_configuration :: "jsval option"
  c_authorization :: "authorization option"
  c_suggestedDifficulty :: "jsnum option"
  c_subscribedToBlocks :: bool
  c_backgroundWork :: "(timer \<times> jsnum) list"
  c_statistics :: "miner_stats option"
  c_stratumInitialized :: bool
  c_usedSuggestedDifficulty :: bool
  c_sessionDifficulty :: jsnum
  c_isHobbyMinerSession :: bool
  c_entity :: "entity option"
  c_creatingFailed :: "js_error option"
  c_sessionId :: "string option"
  c_sessionStart :: "int option"
  c_noFee :: bool
  c_hashRate :: jsnum
  c_buffer :: string
  c_connectionClosed :: bool
  c_lastSentTimestamp :: "jsnum option"
  c_destroyStarted :: bool
  c_versionCounter :: int
  c_currentJobTemplate :: "job_template option"
  c_lastLocalWorkSentAt :: int
  c_submissionHashes :: "string list"
  c_socket :: socket

definition open_socket :: "write_outcome list \<Rightarrow> socket" where
  "open_socket outcomes =
     \<lparr>k_destroyed = False, k_writableEnded = False, k_writable = True, k_outcomes = outcomes, k_sent = []\<rparr>"

definition new_session :: "write_outcome list \<Rightarrow> session" where
  "new_session outcomes =
     \<lparr>c_subscription = None, c_configuration = None, c_authorization = None, c_suggestedDifficulty = None,
      c_subscribedToBlocks = False, c_backgroundWork = [], c_statistics = None, c_stratumInitialized = False,
      c_usedSuggestedDifficulty = False, c_sessionDifficulty = Num 100000, c_isHobbyMinerSession = False,
      c_entity = None, c_creatingFailed = None, c_sessionId = None, c_sessionStart = None, c_noFee = False,
      c_hashRate = Num 0, c_buffer = [], c_connectionClosed = False, c_lastSentTimestamp = None,
      c_destroyStarted = False, c_versionCounter = 0, c_currentJobTemplate = None, c_lastLocalWorkSentAt = 0,
      c_submissionHashes = [], c_socket = open_socket outcomes\<rparr>"

record log_state =
  ls_nextLogAt :: int
  ls_suppressed :: int

record world =
  w_jobs :: job_store
  w_clients :: client_service
  w_statistics :: statistics_table
  w_pool :: pool_state
  w_foundBlocks :: "found_block list"
  w_addresses :: address_table
  w_registry :: registry
  w_submitted :: "string list"
  w_notified :: "(string \<times> jsnum \<times> string) list"
  w_reports :: "(string \<times> string \<times> string) list"
  w_externalPosts :: "(string \<times> string option \<times> share_report) list"
  w_blockedLog :: "(string \<times> log_state) list"
  w_validationLog :: "(string \<times> log_state \<times> string) list"
  w_console :: "string list"
  w_diagnostics :: "(string \<times> jsnum fallible) list list"

record env =
  e_now :: int
  e_cfg :: config
  e_lib :: bitcoin_lib
  e_decodes :: "string \<Rightarrow> network \<Rightarrow> bool"
  e_template :: "gbt fallible"
  e_submit :: "string \<Rightarrow> submit_result"
  e_notify :: "unit fallible"
  e_randomHex :: string
  e_generatedUpdatedAt :: "int option"

type_synonym state = "session \<times> world"

abbreviation on_session :: "(session \<Rightarrow> session) \<Rightarrow> (state, unit) action" where
  "on_session f \<equiv> change (apfst f)"

abbreviation on_world :: "(world \<Rightarrow> world) \<Rightarrow> (state, unit) action" where
  "on_world f \<equiv> change (apsnd f)"

section \<open>The socket\<close>

definition isSocketClosed :: "session \<Rightarrow> bool" where
  "isSocketClosed c \<longleftrightarrow> c_connectionClosed c \<or> k_destroyed (c_socket c) \<or> k_writableEnded (c_socket c) \<or>
     \<not> k_writable (c_socket c)"

definition socket_end :: "session \<Rightarrow> session" where
  "socket_end c = c\<lparr>c_socket := (c_socket c)\<lparr>k_writableEnded := True, k_writable := False\<rparr>\<rparr>"

definition socket_destroy :: "session \<Rightarrow> session" where
  "socket_destroy c = c\<lparr>c_socket := (c_socket c)\<lparr>k_destroyed := True, k_writable := False\<rparr>\<rparr>"

definition after_destroy :: "session \<Rightarrow> session" where
  "after_destroy c =
     c\<lparr>c_connectionClosed := True, c_backgroundWork := [], c_subscribedToBlocks := False,
       c_currentJobTemplate := None, c_destroyStarted := True\<rparr>"

definition destroy :: "env \<Rightarrow> (state, unit) action" where
  "destroy e s =
     (if c_destroyStarted (fst s) then returns () s
      else seq (on_session after_destroy)
             (case c_sessionId (fst s) of
                None \<Rightarrow> returns ()
              | Some i \<Rightarrow> if i = [] then returns ()
                          else on_world (\<lambda>w. w\<lparr>w_clients := delete_client (e_now e) i (w_clients w)\<rparr>)) s)"

definition closeSocket :: "env \<Rightarrow> (state, unit) action" where
  "closeSocket e =
     seq (on_session (\<lambda>c. c\<lparr>c_connectionClosed := True\<rparr>))
       (seq (destroy e) (on_session (\<lambda>c. if k_destroyed (c_socket c) then c else socket_destroy c)))"

text \<open>Handing a line to the socket, and the answer of its callback.\<close>

definition socket_write :: "reply \<Rightarrow> session \<Rightarrow> session \<times> write_outcome" where
  "socket_write m c =
     (let k = c_socket c
      in case k_outcomes k of
           [] \<Rightarrow> (c\<lparr>c_socket := k\<lparr>k_sent := k_sent k @ [m]\<rparr>\<rparr>, Delivered)
         | Failed # os \<Rightarrow> (c\<lparr>c_socket := k\<lparr>k_outcomes := os\<rparr>\<rparr>, Failed)
         | Delivered # os \<Rightarrow> (c\<lparr>c_socket := k\<lparr>k_outcomes := os, k_sent := k_sent k @ [m]\<rparr>\<rparr>, Delivered)
         | Disconnected # os \<Rightarrow>
             (c\<lparr>c_socket := k\<lparr>k_outcomes := os, k_sent := k_sent k @ [m]\<rparr>, c_connectionClosed := True\<rparr>, Disconnected))"

definition write_line :: "env \<Rightarrow> reply \<Rightarrow> (state, bool) action" where
  "write_line e m s =
     (if isSocketClosed (fst s) then returns False s
      else (case socket_write m (fst s) of
              (c, Failed) \<Rightarrow>
                binds (destroy e) (\<lambda>_. binds (on_session (\<lambda>c. if k_destroyed (c_socket c) then c else socket_destroy c))
                  (\<lambda>_. returns False)) (c, snd s)
            | (c, _) \<Rightarrow> ((c, snd s), Inr (\<not> isSocketClosed c))))"

lemma write_delivered:
  assumes "\<not> isSocketClosed c" and "k_outcomes (c_socket c) = []"
  shows "write_line e m (c, w) = ((c\<lparr>c_socket := (c_socket c)\<lparr>k_sent := k_sent (c_socket c) @ [m]\<rparr>\<rparr>, w), Inr True)"
  using assms by (simp add: write_line_def socket_write_def Let_def isSocketClosed_def)

section \<open>User agents\<close>

definition comma_list :: "string \<Rightarrow> string list" where
  "comma_list raw = filter (\<lambda>t. t \<noteq> []) (map (\<lambda>t. to_lower (trim t)) (split_on (CHR '','') raw))"

definition listed_agent :: "string option \<Rightarrow> string \<Rightarrow> bool" where
  "listed_agent list userAgent \<longleftrightarrow>
     (case list of
        None \<Rightarrow> False
      | Some l \<Rightarrow> trim l \<noteq> [] \<and> userAgent \<noteq> [] \<and>
                  (\<exists>needle \<in> set (comma_list l). str_includes needle (to_lower userAgent)))"

definition isHobbyMiner :: "config \<Rightarrow> string \<Rightarrow> bool" where
  "isHobbyMiner cfg userAgent = listed_agent (cfg ''HOBBY_MINER_USER_AGENTS'') userAgent"

definition isLowHashrateMiner :: "config \<Rightarrow> string \<Rightarrow> bool" where
  "isLowHashrateMiner cfg userAgent = listed_agent (cfg ''LOW_HASHRATE_USER_AGENTS'') userAgent"

definition isBlockedUserAgent :: "config \<Rightarrow> string \<Rightarrow> bool" where
  "isBlockedUserAgent cfg userAgent \<longleftrightarrow>
     (case or_else (or_else (cfg ''NON_COMPLIANT_USER_AGENTS'') (cfg ''BLOCKED_USER_AGENTS''))
             (cfg ''COMPLIANT_HEADERS'') of
        None \<Rightarrow> False
      | Some l \<Rightarrow> trim l \<noteq> [] \<and>
                  (\<exists>blocked \<in> set (comma_list l). str_includes blocked (to_lower userAgent)))"

definition ALL_MODES :: "string list" where
  "ALL_MODES = [''canonical'', ''suffix-en1'', ''suffix-en1-en2'', ''suffix-en1-default-en2'', ''suffix-zero4'',
     ''suffix-zero8'', ''prefix-en1'', ''suffix-en1-reversed'', ''scriptsig-en1'']"

definition parseDiagnosticModes :: "string option \<Rightarrow> string list" where
  "parseDiagnosticModes raw =
     (if \<not> truthy raw then []
      else let tokens = comma_list (the raw)
           in if tokens = [] then []
              else if ''all'' \<in> set tokens then ALL_MODES
              else filter (\<lambda>t. t \<in> set ALL_MODES) tokens)"

section \<open>Rate-limited log lines\<close>

text \<open>
  Both logs are shared by all connections: a line appears at most once a minute per key, and the next
  one says how many were suppressed.
\<close>

definition suppressed_suffix :: "int \<Rightarrow> string \<Rightarrow> string" where
  "suppressed_suffix n what =
     (if n > 0 then '' ('' @ dec_string n @ '' similar '' @ what @ '' suppressed)'' else [])"

definition logBlockedUserAgent :: "int \<Rightarrow> string \<Rightarrow> world \<Rightarrow> world" where
  "logBlockedUserAgent now userAgent w =
     (let logState = map_of (w_blockedLog w) userAgent;
          emit = (\<lambda>suppressed. w\<lparr>
            w_console := w_console w @ [''Blocked non-compliant connection from userAgent: '' @ userAgent @
                                        suppressed_suffix suppressed ''connections''],
            w_blockedLog := AList.update userAgent \<lparr>ls_nextLogAt = now + 60 * 1000, ls_suppressed = 0\<rparr> (w_blockedLog w)\<rparr>)
      in case logState of
           None \<Rightarrow> emit 0
         | Some l \<Rightarrow>
             if now < ls_nextLogAt l
             then w\<lparr>w_blockedLog := AList.update userAgent (l\<lparr>ls_suppressed := ls_suppressed l + 1\<rparr>) (w_blockedLog w)\<rparr>
             else emit (ls_suppressed l))"

text \<open>
  What \<open>class-validator\<close> reports: the property, the names of the violated constraints, and the text of
  the refused value unless it is \<open>null\<close> or \<open>undefined\<close>.
\<close>

record validation_error =
  ve_property :: string
  ve_constraints :: "string list"
  ve_value :: "string option"

definition getValidationErrorSignature :: "validation_error list \<Rightarrow> string" where
  "getValidationErrorSignature errors =
     (if errors = [] then ''unknown''
      else join_with '';'' (map (\<lambda>e. ve_property e @ '':'' @
             (if join_with ''|'' (sort (ve_constraints e)) = [] then ''invalid''
              else join_with ''|'' (sort (ve_constraints e)))) errors))"

definition getValidationErrorSample :: "validation_error list \<Rightarrow> string" where
  "getValidationErrorSample errors =
     (let values = map (\<lambda>v. take 64 (filter (\<lambda>c. c \<noteq> CHR 0x0A \<and> c \<noteq> CHR 0x0D) v)) (List.map_filter ve_value errors)
      in if values = [] then [] else '' sample='' @ join_with '','' values)"

definition logValidationError :: "int \<Rightarrow> string \<Rightarrow> validation_error list \<Rightarrow> world \<Rightarrow> world" where
  "logValidationError now label errors w =
     (let signature = getValidationErrorSignature errors;
          sample = getValidationErrorSample errors;
          key = label @ '':'' @ signature;
          emit = (\<lambda>suppressed. w\<lparr>
            w_console := w_console w @ [label @ '': '' @ signature @ sample @ suppressed_suffix suppressed ''validation errors''],
            w_validationLog := AList.update key (\<lparr>ls_nextLogAt = now + 60 * 1000, ls_suppressed = 0\<rparr>, sample)
                                 (w_validationLog w)\<rparr>)
      in case map_of (w_validationLog w) key of
           None \<Rightarrow> emit 0
         | Some (l, smp) \<Rightarrow>
             if now < ls_nextLogAt l
             then w\<lparr>w_validationLog := AList.update key (l\<lparr>ls_suppressed := ls_suppressed l + 1\<rparr>, smp) (w_validationLog w)\<rparr>
             else emit (ls_suppressed l))"

section \<open>Sending work\<close>

definition ELEKTRON_POOL_VERSION_BITS_MASK :: jsnum where
  "ELEKTRON_POOL_VERSION_BITS_MASK = Num 0x0001e000"

text \<open>The version of a job: the template's with the four reserved bits replaced by the counter.\<close>

definition rotated_version :: "int \<Rightarrow> jsnum \<Rightarrow> jsnum" where
  "rotated_version counter version =
     (let rotationState = js_bitand (IntN counter) (Num 0x0f);
          poolVersionBits = js_ushr (js_shl rotationState 13) 0
      in js_ushr (js_bitor (js_bitand version (js_bitnot ELEKTRON_POOL_VERSION_BITS_MASK))
                    (js_bitand poolVersionBits ELEKTRON_POOL_VERSION_BITS_MASK)) 0)"

definition with_version :: "jsnum \<Rightarrow> job_template \<Rightarrow> job_template" where
  "with_version v t = t\<lparr>jt_block := (jt_block t)\<lparr>bl_version := v\<rparr>\<rparr>"

definition with_timestamp :: "jsnum \<Rightarrow> bool \<Rightarrow> job_template \<Rightarrow> job_template" where
  "with_timestamp ts clear t =
     t\<lparr>jt_block := (jt_block t)\<lparr>bl_timestamp := ts\<rparr>, jt_blockData := (jt_blockData t)\<lparr>bd_clearJobs := clear\<rparr>\<rparr>"

text \<open>Everything before the write: the counter, the checks, the new job in the store.\<close>

definition prepare_job :: "env \<Rightarrow> job_template \<Rightarrow> (state, mining_job \<times> job_template) action" where
  "prepare_job e t =
     seq (on_session (\<lambda>c. if bd_clearJobs (jt_blockData t) then c\<lparr>c_versionCounter := 0\<rparr> else c))
       (binds (reads (\<lambda>s. with_version (rotated_version (c_versionCounter (fst s)) (bl_version (jt_block t))) t)) (\<lambda>vt.
         seq (on_session (\<lambda>c. c\<lparr>c_versionCounter := c_versionCounter c + 1, c_noFee := True,
                                c_hashRate := (case (c_entity c, c_statistics c) of
                                                 (Some en, Some st) \<Rightarrow> t_hashRate st | _ \<Rightarrow> c_hashRate c)\<rparr>))
           (binds (lift (getPoolWalletAddress (e_cfg e))) (\<lambda>address.
             (case resolveConfiguredNetwork (e_cfg e) of
                None \<Rightarrow> throws ''Invalid network configuration''
              | Some nw \<Rightarrow>
                  binds (reads (\<lambda>s. new_mining_job (e_lib e) nw (e_now e) (getNextId (w_jobs (snd s)))
                                     [\<lparr>ao_address = address, ao_percent = Num 100\<rparr>] vt)) (\<lambda>made.
                    binds (lift made) (\<lambda>job.
                      seq (on_world (\<lambda>w. w\<lparr>w_jobs := addJob job (w_jobs w)\<rparr>)) (returns (job, vt)))))))))"

definition sendNewMiningJob :: "env \<Rightarrow> job_template \<Rightarrow> (state, unit) action" where
  "sendNewMiningJob e t s =
     (if isSocketClosed (fst s) then returns () s
      else binds (prepare_job e t) (\<lambda>(job, vt).
             binds (write_line e (Notify (notify_message job vt))) (\<lambda>success.
               if success
               then on_session (\<lambda>c. c\<lparr>c_lastSentTimestamp := Some (bl_timestamp (jt_block t)),
                                      c_lastLocalWorkSentAt := e_now e\<rparr>)
               else returns ())) s)"

definition fetch_template :: "env \<Rightarrow> (state, job_template) action" where
  "fetch_template e =
     binds (lift (getPoolWalletAddress (e_cfg e))) (\<lambda>address s.
       case buildTemplateFor (e_lib e) (e_now e) address (e_template e) (w_jobs (snd s)) of
         (jobs, r) \<Rightarrow> (apsnd (\<lambda>w. w\<lparr>w_jobs := jobs\<rparr>) s, r))"

definition refreshMiningJob :: "env \<Rightarrow> (state, unit) action" where
  "refreshMiningJob e s =
     (if isSocketClosed (fst s) \<or> \<not> truthy (map_option au_address (c_authorization (fst s))) then returns () s
      else binds (fetch_template e) (\<lambda>t.
             seq (on_session (\<lambda>c. c\<lparr>c_submissionHashes := (if bd_clearJobs (jt_blockData t) then []
                                                            else c_submissionHashes c),
                                    c_currentJobTemplate := Some t\<rparr>))
               (sendNewMiningJob e t)) s)"

definition refreshLocalMiningWork :: "env \<Rightarrow> (state, unit) action" where
  "refreshLocalMiningWork e s =
     (case c_currentJobTemplate (fst s) of
        None \<Rightarrow> returns () s
      | Some baseTemplate \<Rightarrow>
          if isSocketClosed (fst s) \<or> e_now e - c_lastLocalWorkSentAt (fst s) < 350 then returns () s
          else sendNewMiningJob e
                 (with_timestamp (js_max (bl_timestamp (jt_block baseTemplate)) (js_floor (js_div (IntN (e_now e)) (Num 1000))))
                    False baseTemplate) s)"

text \<open>
  The retarget writes to the socket without looking at its state. A retarget that recurses for ever
  ends as the stack overflow the engine throws.
\<close>

definition raw_write :: "reply \<Rightarrow> session \<Rightarrow> session" where
  "raw_write m c =
     (if \<not> k_writable (c_socket c) then c
      else (case socket_write m c of (c', Failed) \<Rightarrow> socket_destroy c' | (c', _) \<Rightarrow> c'))"

definition next_timestamp :: "env \<Rightarrow> job_template \<Rightarrow> session \<Rightarrow> jsnum" where
  "next_timestamp e t c =
     js_max (js_max (bl_timestamp (jt_block t)) (js_floor (js_div (IntN (e_now e)) (Num 1000))))
       (js_add (case c_lastSentTimestamp c of None \<Rightarrow> Num 0 | Some ts \<Rightarrow> ts) (Num 1))"

definition checkDifficulty :: "env \<Rightarrow> (state, unit) action" where
  "checkDifficulty e s =
     (case c_statistics (fst s) of
        None \<Rightarrow> throws ''Cannot read properties of undefined'' s
      | Some st \<Rightarrow>
          (case getSuggestedDifficulty (e_now e) (c_sessionDifficulty (fst s)) st of
             None \<Rightarrow> throws ''Maximum call stack size exceeded'' s
           | Some None \<Rightarrow> returns () s
           | Some (Some targetDiff) \<Rightarrow>
               if js_eq targetDiff (c_sessionDifficulty (fst s)) then returns () s
               else seq (on_session (\<lambda>c. raw_write (SetDifficulty targetDiff) (c\<lparr>c_sessionDifficulty := targetDiff\<rparr>)))
                      (binds (\<lambda>s. case c_currentJobTemplate (fst s) of
                                   Some t \<Rightarrow> returns t s | None \<Rightarrow> fetch_template e s) (\<lambda>t.
                        seq (on_session (\<lambda>c. c\<lparr>c_currentJobTemplate := Some t\<rparr>))
                          (binds (reads (\<lambda>s. next_timestamp e t (fst s))) (\<lambda>ts.
                             sendNewMiningJob e (with_timestamp ts True t))))) s))"

end
