(* ===== verification/ShareSubmission.thy ===== *)
theory ShareSubmission
  imports StratumSession
begin

text \<open>
  A submitted share (\<open>StratumV1Client.handleMiningSubmission\<close> and \<open>ensureClientEntity\<close>): finding the
  job, the duplicate check, the rebuilt header and its difficulty, the diagnostic probes, and what an
  accepted share does to the pool, a found block included. The handler answers the miner itself and
  always returns false. Heights are the integers the node sends.
\<close>

section \<open>Judging a share\<close>

definition submission_hash :: "submission \<Rightarrow> string" where
  "submission_hash sub =
     join_with '':'' [sm_jobId sub, sm_extraNonce2 sub, sm_ntime sub, sm_nonce sub, sm_versionMask sub]"

definition share_header :: "bitcoin_lib \<Rightarrow> mining_job \<Rightarrow> job_template \<Rightarrow> submission \<Rightarrow> bytes fallible" where
  "share_header lib job t sub =
     buildHeaderBuffer lib job t (parse_int 16 (sm_versionMask sub)) (parse_int 16 (sm_nonce sub))
       (parse_int 16 (sm_ntime sub))"

definition submissionDifficulty :: "bitcoin_lib \<Rightarrow> bytes \<Rightarrow> jsnum" where
  "submissionDifficulty lib header = difficulty_of_target (le256todouble (b_hash256 lib header))"

definition refuse :: "env \<Rightarrow> submission \<Rightarrow> stratum_error \<Rightarrow> string \<Rightarrow> (state, bool) action" where
  "refuse e sub code message =
     binds (write_line e (Failure (sm_id sub) code message)) (\<lambda>success. returns False)"

section \<open>The diagnostic probes\<close>

text \<open>
  Each enabled mode rebuilds the header under one hypothesis about the firmware; a probe that throws
  is logged as an error. The log line is the list of labels and results.
\<close>

definition probe_headers ::
  "bitcoin_lib \<Rightarrow> mining_job \<Rightarrow> job_template \<Rightarrow> string option \<Rightarrow> submission \<Rightarrow> (string \<times> bytes fallible) list" where
  "probe_headers lib job t sessionId sub =
     (let versionMask = parse_int 16 (sm_versionMask sub); nonce = parse_int 16 (sm_nonce sub);
          timestamp = parse_int 16 (sm_ntime sub);
          en1 = (case sessionId of None \<Rightarrow> [] | Some i \<Rightarrow> from_hex i);
          en2 = from_hex (sm_extraNonce2 sub);
          suffixed = (\<lambda>b. buildHeaderBufferWithCoinbaseSuffix lib job t versionMask nonce b timestamp)
      in [(''suffix-en1'', suffixed en1),
          (''suffix-en1-en2'', suffixed (en1 @ en2)),
          (''suffix-en1-default-en2'', suffixed (en1 @ from_hex ''00000001'')),
          (''suffix-zero4'', suffixed (replicate 4 0)),
          (''suffix-zero8'', suffixed (replicate 8 0)),
          (''prefix-en1'', buildHeaderBufferWithCoinbasePrefix lib job t versionMask nonce en1 timestamp),
          (''suffix-en1-reversed'', suffixed (rev en1)),
          (''scriptsig-en1'', buildHeaderBufferWithScriptSigSplice lib job t versionMask nonce en1 timestamp)])"

definition diagnostics ::
  "bitcoin_lib \<Rightarrow> string list \<Rightarrow> mining_job \<Rightarrow> job_template \<Rightarrow> string option \<Rightarrow> submission \<Rightarrow> jsnum \<Rightarrow> (string \<times> jsnum fallible) list" where
  "diagnostics lib enabledModes job t sessionId sub canonical =
     (if ''canonical'' \<in> set enabledModes then [(''canonical'', Inr canonical)] else []) @
     map (\<lambda>(label, h). (label, fbind h (\<lambda>b. Inr (submissionDifficulty lib b))))
       (filter (\<lambda>(label, h). label \<in> set enabledModes) (probe_headers lib job t sessionId sub))"

definition log_diagnostics :: "env \<Rightarrow> mining_job \<Rightarrow> job_template \<Rightarrow> submission \<Rightarrow> jsnum \<Rightarrow> (state, unit) action" where
  "log_diagnostics e job t sub d =
     (let enabledModes = parseDiagnosticModes (e_cfg e ''DIAGNOSTIC_SHARE_LOGGING_MODES'')
      in if enabledModes = [] then returns ()
         else change (\<lambda>(c, w). (c, w\<lparr>w_diagnostics := w_diagnostics w @
                [diagnostics (e_lib e) enabledModes job t (c_sessionId c) sub d]\<rparr>)))"

section \<open>What an accepted share does\<close>

definition the_authorization :: "session \<Rightarrow> authorization fallible" where
  "the_authorization c =
     (case c_authorization c of None \<Rightarrow> Inl (mk_error ''Cannot read properties of undefined'') | Some a \<Rightarrow> Inr a)"

definition the_subscription :: "session \<Rightarrow> subscription fallible" where
  "the_subscription c =
     (case c_subscription c of None \<Rightarrow> Inl (mk_error ''Cannot read properties of undefined'') | Some a \<Rightarrow> Inr a)"

definition with_auth :: "(authorization \<Rightarrow> (state, 'a) action) \<Rightarrow> (state, 'a) action" where
  "with_auth f = binds (\<lambda>s. (s, the_authorization (fst s))) f"

definition height_of :: "job_template \<Rightarrow> int" where
  "height_of t = (case bd_height (jt_blockData t) of Num a \<Rightarrow> \<lfloor>a\<rfloor> | _ \<Rightarrow> 0)"

definition log_pplns_share :: "env \<Rightarrow> job_template \<Rightarrow> jsnum \<Rightarrow> (state, unit) action" where
  "log_pplns_share e t d =
     with_auth (\<lambda>a. on_world (\<lambda>w. w\<lparr>w_pool := (w_pool w)\<lparr>p_shares :=
        record_share (e_now e) (au_address a) d (height_of t) (p_shares (w_pool w))\<rparr>\<rparr>))"

definition credit_block :: "env \<Rightarrow> job_template \<Rightarrow> (state, unit) action" where
  "credit_block e t s =
     (case processBlockFound (e_cfg e) (e_now e) (height_of t) (bd_coinbasevalue (jt_blockData t)) (w_pool (snd s)) of
        (p, r) \<Rightarrow> (apsnd (\<lambda>w. w\<lparr>w_pool := p\<rparr>) s, r))"

text \<open>What an accepted block triggers, in this order; only the split of the reward is guarded.\<close>

definition block_accepted :: "env \<Rightarrow> job_template \<Rightarrow> block \<Rightarrow> string \<Rightarrow> (state, unit) action" where
  "block_accepted e t updatedJobBlock blockHex =
     with_auth (\<lambda>a.
       seq (change (\<lambda>(c, w). (c, w\<lparr>w_foundBlocks := save_block (bd_height (jt_blockData t)) (au_address a) (au_worker a)
              (case c_sessionId c of None \<Rightarrow> [] | Some i \<Rightarrow> i) blockHex (w_foundBlocks w)\<rparr>)))
      (seq (on_world (\<lambda>w. w\<lparr>w_notified := w_notified w @ [(au_address a, bd_height (jt_blockData t), ''SUCCESS!'')]\<rparr>))
      (seq (lift (e_notify e))
      (seq (on_world (\<lambda>w. w\<lparr>w_addresses := resetBestDifficultyAndShares (e_now e) (w_addresses w)\<rparr>))
      (seq (on_world (\<lambda>w. case reportBlockFound (e_cfg e) (e_now e) (b_block_id (e_lib e) updatedJobBlock) (w_registry w) of
              (r, posts) \<Rightarrow> w\<lparr>w_registry := r, w_reports := w_reports w @ posts\<rparr>))
        (logged (credit_block e t)))))))"

definition block_found :: "env \<Rightarrow> submission \<Rightarrow> mining_job \<Rightarrow> job_template \<Rightarrow> (state, unit) action" where
  "block_found e sub job t =
     binds (lift (copyAndUpdateBlock (e_lib e) job t (parse_int 16 (sm_versionMask sub)) (parse_int 16 (sm_nonce sub))
              (parse_int 16 (sm_ntime sub)))) (\<lambda>updatedJobBlock.
       let blockHex = b_block_hex (e_lib e) updatedJobBlock
       in seq (on_world (\<lambda>w. w\<lparr>w_submitted := w_submitted w @ [blockHex]\<rparr>))
            (if e_submit e blockHex = Answer (String ''SUCCESS!'')
             then block_accepted e t updatedJobBlock blockHex else returns ()))"

text \<open>
  The first accepted share inserts the client and waits for the next flush of the queue. A failed
  insert is remembered: every later share fails with it.
\<close>

definition new_partial_client :: "env \<Rightarrow> session \<Rightarrow> authorization \<Rightarrow> subscription \<Rightarrow> partial_client" where
  "new_partial_client e c a u =
     \<lparr>pc_address = au_address a, pc_clientName = au_worker a,
      pc_sessionId = (case c_sessionId c of None \<Rightarrow> [] | Some i \<Rightarrow> i),
      pc_userAgent = sb_userAgent u, pc_startTime = e_now e\<rparr>"

definition entity_of :: "env \<Rightarrow> partial_client \<Rightarrow> entity" where
  "entity_of e p =
     \<lparr>en_address = pc_address p, en_clientName = pc_clientName p, en_sessionId = pc_sessionId p,
      en_userAgent = pc_userAgent p, en_bestDifficulty = Num 0, en_updatedAt = e_generatedUpdatedAt e\<rparr>"

definition insert_and_flush :: "env \<Rightarrow> partial_client \<Rightarrow> (state, unit) action" where
  "insert_and_flush e p s =
     (case insertClients (e_now e) (insert_client p (w_clients (snd s))) of
        (cl, r) \<Rightarrow> (apsnd (\<lambda>w. w\<lparr>w_clients := cl\<rparr>) s, map_sum id (\<lambda>_. ()) r))"

definition ensureClientEntity :: "env \<Rightarrow> (state, unit) action" where
  "ensureClientEntity e s =
     (case (c_entity (fst s), c_creatingFailed (fst s)) of
        (Some en, _) \<Rightarrow> returns () s
      | (None, Some err) \<Rightarrow> (s, Inl err)
      | (None, None) \<Rightarrow>
          catch (with_auth (\<lambda>a. binds (\<lambda>s. (s, the_subscription (fst s))) (\<lambda>u.
              binds (reads (\<lambda>s. new_partial_client e (fst s) a u)) (\<lambda>p.
                seq (insert_and_flush e p) (on_session (\<lambda>c. c\<lparr>c_entity := Some (entity_of e p)\<rparr>))))))
            (\<lambda>err. seq (on_session (\<lambda>c. c\<lparr>c_creatingFailed := Some err\<rparr>)) (lift (Inl err))) s)"

definition entity_key :: "entity \<Rightarrow> session_key" where
  "entity_key en = \<lparr>k_address = en_address en, k_clientName = en_clientName en, k_sessionId = en_sessionId en\<rparr>"

definition credit_statistics :: "env \<Rightarrow> jsnum \<Rightarrow> (state, unit) action" where
  "credit_statistics e d s =
     (case (c_entity (fst s), c_statistics (fst s)) of
        (Some en, Some st) \<Rightarrow>
          (case addShares (e_now e) (entity_key en) d (st, w_statistics (snd s)) of
             (st', tbl) \<Rightarrow>
               seq (change (map_prod (\<lambda>c. c\<lparr>c_statistics := Some st'\<rparr>) (\<lambda>w. w\<lparr>w_statistics := tbl\<rparr>)))
                 (if (case en_updatedAt en of None \<Rightarrow> True | Some u \<Rightarrow> e_now e - u > 1000 * 60)
                  then change (\<lambda>(c, w).
                         (c\<lparr>c_entity := Some (en\<lparr>en_updatedAt := Some (e_now e)\<rparr>)\<rparr>,
                          w\<lparr>w_clients := heartbeat (en_address en) (en_clientName en) (en_sessionId en) (c_hashRate c)
                                          (e_now e) (w_clients w)\<rparr>))
                  else returns ()) s)
      | _ \<Rightarrow> throws ''Cannot read properties of undefined'' s)"

definition keep_best_share :: "env \<Rightarrow> jsnum \<Rightarrow> (state, unit) action" where
  "keep_best_share e d s =
     (case c_entity (fst s) of
        None \<Rightarrow> throws ''Cannot read properties of undefined'' s
      | Some en \<Rightarrow>
          if js_gt d (en_bestDifficulty en) then
            logged
              (seq (change (\<lambda>(c, w).
                  (c\<lparr>c_entity := Some (en\<lparr>en_bestDifficulty := d\<rparr>)\<rparr>,
                   w\<lparr>w_clients := ClientRegistry.updateBestDifficultyIfHigher (e_now e)
                       (case c_sessionId c of None \<Rightarrow> [] | Some i \<Rightarrow> i) d (w_clients w)\<rparr>)))
                (with_auth (\<lambda>a. on_world (\<lambda>w. w\<lparr>w_addresses :=
                   AddressSettings.updateBestDifficultyIfHigher (e_now e) (au_address a) d (en_userAgent en) (w_addresses w)\<rparr>)))) s
          else returns () s)"

definition external_share_minimum :: "config \<Rightarrow> jsnum" where
  "external_share_minimum cfg =
     (let m = parse_float_opt (cfg ''MINIMUM_DIFFICULTY'')
      in if m = NaN \<or> m = Num 0 then Num 1000000000000 else m)"

definition report_external_share :: "env \<Rightarrow> bytes \<Rightarrow> jsnum \<Rightarrow> (state, unit) action" where
  "report_external_share e header d =
     (if map_option to_lower (e_cfg e ''EXTERNAL_SHARE_SUBMISSION_ENABLED'') = Some ''true'' \<and>
         js_ge d (external_share_minimum (e_cfg e))
      then with_auth (\<lambda>a. binds (\<lambda>s. (s, the_subscription (fst s))) (\<lambda>u.
             on_world (\<lambda>w. w\<lparr>w_externalPosts := w_externalPosts w @ [submitShare (e_cfg e)
               \<lparr>sr_worker = au_worker a, sr_address = au_address a, sr_userAgent = sb_userAgent u,
                sr_externalPoolName = (if truthy (e_cfg e ''POOL_IDENTIFIER'') then the (e_cfg e ''POOL_IDENTIFIER'')
                                       else ''Elektron-PPLNS-Pool''),
                sr_header = to_hex header\<rparr>]\<rparr>)))
      else returns ())"

section \<open>The handler\<close>

definition accept_share ::
  "env \<Rightarrow> submission \<Rightarrow> mining_job \<Rightarrow> job_template \<Rightarrow> bytes \<Rightarrow> jsnum \<Rightarrow> (state, bool) action" where
  "accept_share e sub job t header d =
     binds (write_line e (Success (sm_id sub) (Bool True))) (\<lambda>success.
       if \<not> success then returns False
       else seq (logged (log_pplns_share e t d))
           (seq (if js_ge d (bd_networkDifficulty (jt_blockData t)) then block_found e sub job t else returns ())
           (seq (ensureClientEntity e)
           (seq (logged (credit_statistics e d))
           (seq (keep_best_share e d)
           (seq (report_external_share e header d) (returns False)))))))"

definition judge_share :: "env \<Rightarrow> submission \<Rightarrow> mining_job \<Rightarrow> job_template \<Rightarrow> (state, bool) action" where
  "judge_share e sub job t =
     binds (lift (share_header (e_lib e) job t sub)) (\<lambda>header.
       let d = submissionDifficulty (e_lib e) header
       in seq (log_diagnostics e job t sub d)
            (binds (reads (\<lambda>s. c_sessionDifficulty (fst s))) (\<lambda>required.
               if js_ge d required then accept_share e sub job t header d
               else refuse e sub LowDifficultyShare ''Difficulty too low'')))"

text \<open>
  The jobs are properties of an object, so a job id that names an inherited property finds that
  property; it has no template.
\<close>

definition inherited_properties :: "string list" where
  "inherited_properties = [''constructor'', ''__defineGetter__'', ''__defineSetter__'', ''hasOwnProperty'',
     ''__lookupGetter__'', ''__lookupSetter__'', ''isPrototypeOf'', ''propertyIsEnumerable'', ''toString'', ''valueOf'',
     ''__proto__'', ''toLocaleString'']"

definition handleMiningSubmission :: "env \<Rightarrow> submission \<Rightarrow> (state, bool) action" where
  "handleMiningSubmission e sub s =
     (case getJobById (sm_jobId sub) (w_jobs (snd s)) of
        None \<Rightarrow> refuse e sub JobNotFound
                  (if sm_jobId sub \<in> set inherited_properties then ''Job Template not found'' else ''Job not found'') s
      | Some job \<Rightarrow>
          (case getJobTemplateById (mj_jobTemplateId job) (w_jobs (snd s)) of
             None \<Rightarrow> refuse e sub JobNotFound ''Job Template not found'' s
           | Some t \<Rightarrow>
               if submission_hash sub \<in> set (c_submissionHashes (fst s))
               then refuse e sub DuplicateShare ''Duplicate share'' s
               else seq (on_session (\<lambda>c. c\<lparr>c_submissionHashes := submission_hash sub # c_submissionHashes c\<rparr>))
                      (judge_share e sub job t) s))"

end
