(* ===== verification/SessionInvariants.thy ===== *)
theory SessionInvariants
  imports ShareSubmission
begin

text \<open>
  What the handlers of a connection leave alone. \<open>same_core\<close> relates a session to one that differs only
  in fields no invariant of the connection speaks of. The locale \<open>session_invariant\<close> is the contract of
  a property that such steps and the destruction of the connection keep; inside it every operation
  of \<open>StratumSession\<close> and \<open>ShareSubmission\<close> is shown to keep the property.
\<close>

section \<open>Steps that leave the core alone\<close>

definition same_core :: "session \<Rightarrow> session \<Rightarrow> bool" where
  "same_core c c' \<longleftrightarrow>
     c_subscription c' = c_subscription c \<and> c_authorization c' = c_authorization c \<and>
     c_stratumInitialized c' = c_stratumInitialized c \<and> c_sessionStart c' = c_sessionStart c \<and>
     c_sessionId c' = c_sessionId c \<and> (c_statistics c' = None \<longleftrightarrow> c_statistics c = None) \<and>
     c_backgroundWork c' = c_backgroundWork c \<and> c_subscribedToBlocks c' = c_subscribedToBlocks c \<and>
     c_destroyStarted c' = c_destroyStarted c \<and> (c_connectionClosed c \<longrightarrow> c_connectionClosed c')"

lemma same_core_refl [simp]: "same_core c c"
  by (simp add: same_core_def)

lemma socket_write_core: "same_core c (fst (socket_write m c))"
  by (auto simp: socket_write_def same_core_def Let_def split: list.split write_outcome.split)

lemma same_core_sockets [simp]:
  "same_core c (socket_end c)" "same_core c (socket_destroy c)" "same_core c (c\<lparr>c_connectionClosed := True\<rparr>)"
  by (simp_all add: socket_end_def socket_destroy_def same_core_def)

lemma same_core_trans: "same_core a b \<Longrightarrow> same_core b c \<Longrightarrow> same_core a c"
  unfolding same_core_def by simp

lemma same_core_raw_write [simp]: "same_core c (raw_write m c)"
proof (cases "socket_write m c")
  case (Pair c' o1)
  then have "same_core c c'"
    using socket_write_core[of c m] by simp
  moreover have "same_core c (socket_destroy c')"
    using calculation by (rule same_core_trans) simp
  ultimately show ?thesis
    by (cases o1) (simp_all add: raw_write_def Pair)
qed

lemma same_core_retarget: "same_core c (raw_write m (c\<lparr>c_sessionDifficulty := d\<rparr>))"
proof -
  have "same_core c (c\<lparr>c_sessionDifficulty := d\<rparr>)"
    by (simp add: same_core_def)
  then show ?thesis
    by (rule same_core_trans) simp
qed

abbreviation at_session :: "(session \<Rightarrow> bool) \<Rightarrow> state \<Rightarrow> bool" where
  "at_session Q s \<equiv> Q (fst s)"

section \<open>Properties every operation keeps\<close>

locale session_invariant =
  fixes Q :: "session \<Rightarrow> bool"
  assumes Q_same: "Q c \<Longrightarrow> same_core c c' \<Longrightarrow> Q c'"
    and Q_destroy: "Q c \<Longrightarrow> Q (after_destroy c)"
begin

lemma keeps_ok_session:
  "(\<And>c. same_core c (f c)) \<Longrightarrow> keeps (at_session Q) (on_session f)"
  by (intro keeps_change) (auto intro: Q_same)

lemma keeps_ok_world [keeps_intros]: "keeps (at_session Q) (on_world f)"
  by (intro keeps_change) simp

lemma keeps_destroy [keeps_intros]: "keeps (at_session Q) (destroy e)"
  by (auto simp: keeps_def destroy_def step_simps Q_destroy split: option.split)

lemma keeps_write_line [keeps_intros]: "keeps (at_session Q) (write_line e m)"
proof (unfold keeps_def, intro allI impI)
  fix s assume ok: "at_session Q s"
  obtain c o1 where c: "socket_write m (fst s) = (c, o1)" by fastforce
  have okc: "at_session Q (c, snd s)"
    using Q_same[OF ok socket_write_core[of "fst s" m]] by (simp add: c)
  have "keeps (at_session Q) (binds (destroy e) (\<lambda>_. binds (on_session (\<lambda>c. if k_destroyed (c_socket c) then c else socket_destroy c))
                  (\<lambda>_. returns False)))"
    by (intro keeps_intros keeps_ok_session) auto
  from keepsD[OF this okc] okc ok show "at_session Q (fst (write_line e m s))"
    by (auto simp: write_line_def c step_simps split: write_outcome.split)
qed

lemma keeps_closeSocket [keeps_intros]: "keeps (at_session Q) (closeSocket e)"
  unfolding closeSocket_def by (intro keeps_intros keeps_ok_session) auto

lemma keeps_same_session:
  "(\<And>s. same_core (fst s) (fst (fst (m s)))) \<Longrightarrow> keeps (at_session Q) m"
  unfolding keeps_def by (blast intro: Q_same)

lemma keeps_prepare_job [keeps_intros]: "keeps (at_session Q) (prepare_job e t)"
  unfolding prepare_job_def
  by (intro keeps_intros keeps_ok_session) (simp_all add: same_core_def)

lemma keeps_sendNewMiningJob [keeps_intros]: "keeps (at_session Q) (sendNewMiningJob e t)"
  unfolding sendNewMiningJob_def
  by (intro keeps_intros) (auto intro!: keeps_intros keeps_ok_session simp: same_core_def split: prod.split)

lemma keeps_fetch_template [keeps_intros]: "keeps (at_session Q) (fetch_template e)"
  unfolding fetch_template_def
  by (intro keeps_intros keeps_same_session) (simp split: prod.split)

lemma keeps_refreshMiningJob [keeps_intros]: "keeps (at_session Q) (refreshMiningJob e)"
  unfolding refreshMiningJob_def
  by (intro keeps_intros keeps_ok_session) (simp_all add: same_core_def)

lemma keeps_refreshLocalMiningWork [keeps_intros]: "keeps (at_session Q) (refreshLocalMiningWork e)"
  unfolding refreshLocalMiningWork_def by (intro keeps_intros)

lemma keeps_checkDifficulty [keeps_intros]: "keeps (at_session Q) (checkDifficulty e)"
  unfolding checkDifficulty_def
  by (intro keeps_intros keeps_ok_session) (simp_all add: same_core_retarget, simp_all add: same_core_def)

section \<open>Shares keep the invariant\<close>

lemma keeps_refuse [keeps_intros]: "keeps (at_session Q) (refuse e sub code message)"
  unfolding refuse_def by (intro keeps_intros)

lemma keeps_with_auth [keeps_intros]:
  "(\<And>a. keeps (at_session Q) (f a)) \<Longrightarrow> keeps (at_session Q) (with_auth f)"
  unfolding with_auth_def by (intro keeps_intros)

lemma keeps_world_change [keeps_intros]:
  "keeps (at_session Q) (change (\<lambda>(c, w). (c, g c w)))"
  by (intro keeps_change) (auto split: prod.split)

lemma keeps_log_diagnostics [keeps_intros]: "keeps (at_session Q) (log_diagnostics e job t sub d)"
  unfolding log_diagnostics_def Let_def by (intro keeps_intros)

lemma keeps_log_pplns_share [keeps_intros]: "keeps (at_session Q) (log_pplns_share e t d)"
  unfolding log_pplns_share_def by (intro keeps_intros)

lemma keeps_credit_block [keeps_intros]: "keeps (at_session Q) (credit_block e t)"
  by (intro keeps_same_session) (simp add: credit_block_def split: prod.split)

lemma keeps_block_found [keeps_intros]: "keeps (at_session Q) (block_found e sub job t)"
  unfolding block_found_def block_accepted_def Let_def by (intro keeps_intros)

lemma keeps_ensureClientEntity [keeps_intros]: "keeps (at_session Q) (ensureClientEntity e)"
proof -
  have flush: "keeps (at_session Q) (insert_and_flush e p)" for p
    by (intro keeps_same_session) (simp add: insert_and_flush_def split: prod.split)
  have "keeps (at_session Q)
      (catch (with_auth (\<lambda>a. binds (\<lambda>s. (s, the_subscription (fst s))) (\<lambda>u.
              binds (reads (\<lambda>s. new_partial_client e (fst s) a u)) (\<lambda>p.
                seq (insert_and_flush e p) (on_session (\<lambda>c. c\<lparr>c_entity := Some (entity_of e p)\<rparr>))))))
            (\<lambda>err. seq (on_session (\<lambda>c. c\<lparr>c_creatingFailed := Some err\<rparr>)) (lift (Inl err))))"
    by (intro keeps_intros flush keeps_ok_session) (simp_all add: same_core_def)
  then show ?thesis
    by (auto simp: keeps_def ensureClientEntity_def step_simps split: option.split)
qed

lemma keeps_credit_statistics [keeps_intros]: "keeps (at_session Q) (credit_statistics e d)"
  by (intro keeps_same_session)
     (auto simp: credit_statistics_def step_simps same_core_def split: option.split prod.split)

lemma keeps_keep_best_share [keeps_intros]: "keeps (at_session Q) (keep_best_share e d)"
proof -
  have "keeps (at_session Q) (logged (seq (change (\<lambda>(c, w).
          (c\<lparr>c_entity := Some (en\<lparr>en_bestDifficulty := d\<rparr>)\<rparr>,
           w\<lparr>w_clients := ClientRegistry.updateBestDifficultyIfHigher (e_now e)
               (case c_sessionId c of None \<Rightarrow> [] | Some i \<Rightarrow> i) d (w_clients w)\<rparr>)))
        (with_auth (\<lambda>a. on_world (\<lambda>w. w\<lparr>w_addresses :=
           AddressSettings.updateBestDifficultyIfHigher (e_now e) (au_address a) d (en_userAgent en) (w_addresses w)\<rparr>)))))" for en
    by (intro keeps_intros) (auto intro: Q_same simp: same_core_def)
  then show ?thesis
    by (auto simp: keeps_def keep_best_share_def step_simps split: option.split)
qed

lemma keeps_report_external_share [keeps_intros]: "keeps (at_session Q) (report_external_share e header d)"
  unfolding report_external_share_def by (intro keeps_intros)

lemma keeps_handleMiningSubmission [keeps_intros]: "keeps (at_session Q) (handleMiningSubmission e sub)"
  unfolding handleMiningSubmission_def judge_share_def accept_share_def Let_def
  by (intro keeps_intros keeps_ok_session) (simp_all add: same_core_def)

end

end
