(* ===== verification/ShareProperties.thy ===== *)
theory ShareProperties
  imports SessionInvariants
begin

text \<open>
  What a submission does to the money: which shares enter the log, what a found block triggers, and
  what is lost when the connection or a notification fails.
\<close>

section \<open>Actions that leave a part of the world alone\<close>

definition leaves :: "(world \<Rightarrow> 'a) \<Rightarrow> (state, 'b) action \<Rightarrow> bool" where
  "leaves f m \<longleftrightarrow> (\<forall>s. f (snd (fst (m s))) = f (snd s))"

lemma leavesD: "leaves f m \<Longrightarrow> f (snd (fst (m s))) = f (snd s)"
  unfolding leaves_def by blast

lemma leaves_keeps: "leaves f m \<longleftrightarrow> (\<forall>x. keeps (\<lambda>s. f (snd s) = x) m)"
  by (auto simp: leaves_def keeps_def)

named_theorems leaves_intros "frame rules of actions"

lemma leaves_basic [leaves_intros]:
  "leaves f (returns x)" "leaves f (throws msg)" "leaves f (lift r)" "leaves f (reads g)" "leaves f (on_session h)"
  "leaves f (\<lambda>s. (s, k s))"
  by (simp_all add: leaves_def step_simps)

lemma leaves_world: "(\<And>w. f (g w) = f w) \<Longrightarrow> leaves f (on_world g)"
  by (simp add: leaves_def step_simps)

lemma leaves_change: "(\<And>c w. f (snd (g (c, w))) = f w) \<Longrightarrow> leaves f (change g)"
  by (auto simp: leaves_def step_simps)

lemma leaves_binds [leaves_intros]: "leaves f m \<Longrightarrow> (\<And>x. leaves f (k x)) \<Longrightarrow> leaves f (binds m k)"
  unfolding leaves_keeps by (intro allI keeps_intros) auto

lemma leaves_seq [leaves_intros]: "leaves f m \<Longrightarrow> leaves f k \<Longrightarrow> leaves f (seq m k)"
  unfolding leaves_keeps by (intro allI keeps_intros) auto

lemma leaves_logged [leaves_intros]: "leaves f m \<Longrightarrow> leaves f (logged m)"
  unfolding leaves_keeps by (intro allI keeps_intros) auto

lemma leaves_catch [leaves_intros]: "leaves f m \<Longrightarrow> (\<And>x. leaves f (h x)) \<Longrightarrow> leaves f (catch m h)"
  unfolding leaves_keeps by (intro allI keeps_intros) auto

lemma leaves_if [leaves_intros]: "leaves f m \<Longrightarrow> leaves f k \<Longrightarrow> leaves f (if c then m else k)"
  by simp

lemma leaves_if_state [leaves_intros]: "leaves f m \<Longrightarrow> leaves f k \<Longrightarrow> leaves f (\<lambda>s. if c s then m s else k s)"
  by (simp add: leaves_def)

lemma leaves_with_auth [leaves_intros]: "(\<And>a. leaves f (k a)) \<Longrightarrow> leaves f (with_auth k)"
  unfolding with_auth_def by (intro leaves_intros)

text \<open>
  The parts of the world only the handling of a found block and the share log write: the contract of
  a reader of the money.
\<close>

locale money_part =
  fixes f :: "world \<Rightarrow> 'a"
  assumes clients: "f (w\<lparr>w_clients := cl\<rparr>) = f w"
    and statistics: "f (w\<lparr>w_statistics := st\<rparr>) = f w"
    and addresses: "f (w\<lparr>w_addresses := ad\<rparr>) = f w"
    and posts: "f (w\<lparr>w_externalPosts := po\<rparr>) = f w"
    and probes: "f (w\<lparr>w_diagnostics := di\<rparr>) = f w"
begin

lemma leaves_destroy [leaves_intros]: "leaves f (destroy e)"
  by (auto simp: leaves_def destroy_def step_simps clients split: option.split)

lemma leaves_write_line [leaves_intros]: "leaves f (write_line e m)"
proof -
  have d: "leaves f (binds (destroy e) (\<lambda>_. binds (on_session (\<lambda>c. if k_destroyed (c_socket c) then c else socket_destroy c))
                  (\<lambda>_. returns False)))"
    by (intro leaves_intros)
  show ?thesis
    unfolding leaves_def write_line_def using leavesD[OF d]
    by (auto simp: step_simps split: prod.split write_outcome.split)
qed

lemma leaves_refuse [leaves_intros]: "leaves f (refuse e sub code message)"
  unfolding refuse_def by (intro leaves_intros)

lemma leaves_log_diagnostics [leaves_intros]: "leaves f (log_diagnostics e job t sub d)"
  unfolding log_diagnostics_def Let_def by (intro leaves_intros leaves_change) (simp add: probes)

lemma leaves_ensureClientEntity [leaves_intros]: "leaves f (ensureClientEntity e)"
proof -
  have flush: "leaves f (insert_and_flush e p)" for p
    by (simp add: leaves_def insert_and_flush_def clients split: prod.split)
  have "leaves f
      (catch (with_auth (\<lambda>a. binds (\<lambda>s. (s, the_subscription (fst s))) (\<lambda>u.
              binds (reads (\<lambda>s. new_partial_client e (fst s) a u)) (\<lambda>p.
                seq (insert_and_flush e p) (on_session (\<lambda>c. c\<lparr>c_entity := Some (entity_of e p)\<rparr>))))))
            (\<lambda>err. seq (on_session (\<lambda>c. c\<lparr>c_creatingFailed := Some err\<rparr>)) (lift (Inl err))))"
    by (intro leaves_intros flush)
  then show ?thesis
    by (auto simp: leaves_def ensureClientEntity_def step_simps split: option.split)
qed

lemma leaves_credit_statistics [leaves_intros]: "leaves f (credit_statistics e d)"
proof -
  have "f (w\<lparr>w_statistics := t, w_clients := cl\<rparr>) = f w" for w t cl
    using clients[where w = "w\<lparr>w_statistics := t\<rparr>"] statistics[where w = w] by simp
  then show ?thesis
    by (auto simp: leaves_def credit_statistics_def step_simps statistics split: option.split prod.split)
qed

lemma leaves_keep_best_share [leaves_intros]: "leaves f (keep_best_share e d)"
proof -
  have "leaves f (logged (seq (change (\<lambda>(c, w).
          (c\<lparr>c_entity := Some (en\<lparr>en_bestDifficulty := d\<rparr>)\<rparr>,
           w\<lparr>w_clients := ClientRegistry.updateBestDifficultyIfHigher (e_now e)
               (case c_sessionId c of None \<Rightarrow> [] | Some i \<Rightarrow> i) d (w_clients w)\<rparr>)))
        (with_auth (\<lambda>a. on_world (\<lambda>w. w\<lparr>w_addresses :=
           AddressSettings.updateBestDifficultyIfHigher (e_now e) (au_address a) d (en_userAgent en) (w_addresses w)\<rparr>)))))" for en
    by (intro leaves_intros leaves_world leaves_change) (simp_all add: addresses clients)
  then show ?thesis
    by (auto simp: leaves_def keep_best_share_def step_simps split: option.split)
qed

lemma leaves_report_external_share [leaves_intros]: "leaves f (report_external_share e header d)"
  unfolding report_external_share_def by (intro leaves_intros leaves_world) (simp add: posts)

text \<open>Everything an accepted share does after the log and the block.\<close>

lemma leaves_aftermath [leaves_intros]:
  "leaves f (seq (ensureClientEntity e) (seq (logged (credit_statistics e d)) (seq (keep_best_share e d)
     (seq (report_external_share e header d) (returns False)))))"
  by (intro leaves_intros)

end

interpretation shares: money_part "\<lambda>w. p_shares (w_pool w)" by unfold_locales simp_all
interpretation pool: money_part w_pool by unfold_locales simp_all
interpretation submitted: money_part w_submitted by unfold_locales simp_all
interpretation blocks: money_part w_foundBlocks by unfold_locales simp_all

section \<open>Which shares are logged\<close>

lemma processBlockFound_shares: "p_shares (fst (processBlockFound cfg now h R p)) = p_shares p"
  by (simp add: processBlockFound_def Let_def split: prod.split sum.split)

lemma leaves_block_found_shares: "leaves (\<lambda>w. p_shares (w_pool w)) (block_found e sub job t)"
proof -
  have "leaves (\<lambda>w. p_shares (w_pool w)) (credit_block e t)"
    using processBlockFound_shares by (auto simp: leaves_def credit_block_def split: prod.split) (metis fst_conv)
  then show ?thesis
    unfolding block_found_def block_accepted_def Let_def
    by (intro leaves_intros leaves_world leaves_change) (simp_all split: prod.split)
qed

text \<open>The share of a submission as the pool judges it.\<close>

definition judged :: "env \<Rightarrow> submission \<Rightarrow> session \<Rightarrow> world \<Rightarrow> mining_job \<Rightarrow> job_template \<Rightarrow> bytes \<Rightarrow> bool" where
  "judged e sub c w job t header \<longleftrightarrow>
     getJobById (sm_jobId sub) (w_jobs w) = Some job \<and>
     getJobTemplateById (mj_jobTemplateId job) (w_jobs w) = Some t \<and>
     submission_hash sub \<notin> set (c_submissionHashes c) \<and>
     share_header (e_lib e) job t sub = Inr header"

text \<open>The handler never replaces the authorisation.\<close>

interpretation auth: session_invariant "\<lambda>c. c_authorization c = A" for A
  by unfold_locales (simp_all add: same_core_def after_destroy_def)

lemma write_line_session: "c_authorization (fst (fst (write_line e m s))) = c_authorization (fst s)"
  using keepsD[OF auth.keeps_write_line[where A = "c_authorization (fst s)"], of s] by simp

definition logged_share :: "env \<Rightarrow> job_template \<Rightarrow> jsnum \<Rightarrow> session \<Rightarrow> share_log \<Rightarrow> share_log" where
  "logged_share e t d c l =
     (case c_authorization c of None \<Rightarrow> l | Some a \<Rightarrow> record_share (e_now e) (au_address a) d (height_of t) l)"

lemma logged_pplns: "snd (logged (log_pplns_share e t d) s) = Inr ()"
  "p_shares (w_pool (snd (fst (logged (log_pplns_share e t d) s)))) = logged_share e t d (fst s) (p_shares (w_pool (snd s)))"
  by (auto simp: logged_def log_pplns_share_def with_auth_def the_authorization_def catch_def step_simps logged_share_def
      split: option.split)

lemma accept_share_shares:
  "p_shares (w_pool (snd (fst (accept_share e sub job t header d s)))) =
     (if snd (write_line e (Success (sm_id sub) (Bool True)) s) = Inr True
      then logged_share e t d (fst s) (p_shares (w_pool (snd s))) else p_shares (w_pool (snd s)))"
proof -
  let ?f = "\<lambda>w. p_shares (w_pool w)"
  obtain s1 r where w: "write_line e (Success (sm_id sub) (Bool True)) s = (s1, r)" by fastforce
  have f1: "?f (snd s1) = ?f (snd s)" and a1: "c_authorization (fst s1) = c_authorization (fst s)"
    using leavesD[OF shares.leaves_write_line[of e "Success (sm_id sub) (Bool True)"], of s]
      write_line_session[of e "Success (sm_id sub) (Bool True)" s] by (simp_all add: w)
  have "leaves ?f (seq (if js_ge d (bd_networkDifficulty (jt_blockData t)) then block_found e sub job t else returns ())
           (seq (ensureClientEntity e)
           (seq (logged (credit_statistics e d))
           (seq (keep_best_share e d)
           (seq (report_external_share e header d) (returns False))))))"
    by (intro leaves_intros leaves_block_found_shares shares.leaves_aftermath)
  from leavesD[OF this] show ?thesis
    using f1 a1 logged_pplns[of e t d s1]
    by (cases r; cases "\<exists>x. r = Inr x \<and> x")
       (auto simp: accept_share_def binds_case w seq_def returns_def logged_share_def split: if_splits)
qed

lemma judge_share_shares:
  assumes "share_header (e_lib e) job t sub = Inr header"
  shows "p_shares (w_pool (snd (fst (judge_share e sub job t (c, w))))) = p_shares (w_pool w) \<or>
         js_ge (submissionDifficulty (e_lib e) header) (c_sessionDifficulty c) \<and>
         p_shares (w_pool (snd (fst (judge_share e sub job t (c, w))))) =
           logged_share e t (submissionDifficulty (e_lib e) header) c (p_shares (w_pool w))"
proof -
  let ?d = "submissionDifficulty (e_lib e) header" and ?f = "\<lambda>w. p_shares (w_pool w)"
  obtain w1 where l: "log_diagnostics e job t sub ?d (c, w) = ((c, w1), Inr ())"
    by (cases "parseDiagnosticModes (e_cfg e ''DIAGNOSTIC_SHARE_LOGGING_MODES'') = []")
       (auto simp: log_diagnostics_def Let_def step_simps)
  have "?f w1 = ?f w"
    using leavesD[OF shares.leaves_log_diagnostics[of e job t sub ?d], of "(c, w)"] by (simp add: l)
  then show ?thesis
    using leavesD[OF shares.leaves_refuse[of e sub LowDifficultyShare "''Difficulty too low''"], of "(c, w1)"]
    by (auto simp: judge_share_def assms step_simps Let_def l accept_share_shares)
qed

text \<open>
  C26. A share enters the PPLNS log only if the pool rebuilt its header from a job it issued, had not
  seen the submission on this connection, and found at least the session's difficulty; it is then
  logged once, for the authorised address, with the difficulty of that header. Any other submission
  leaves the log as it was.
\<close>

theorem only_judged_shares_logged:
  "p_shares (w_pool (snd (fst (handleMiningSubmission e sub (c, w))))) = p_shares (w_pool w) \<or>
   (\<exists>job t header a. judged e sub c w job t header \<and>
      c_authorization c = Some a \<and>
      js_ge (submissionDifficulty (e_lib e) header) (c_sessionDifficulty c) \<and>
      p_shares (w_pool (snd (fst (handleMiningSubmission e sub (c, w))))) =
        record_share (e_now e) (au_address a) (submissionDifficulty (e_lib e) header) (height_of t)
          (p_shares (w_pool w)))"
proof (cases "getJobById (sm_jobId sub) (w_jobs w)")
  case None
  then show ?thesis
    using leavesD[OF shares.leaves_refuse] by (simp add: handleMiningSubmission_def)
next
  case (Some job)
  note j = Some
  show ?thesis
  proof (cases "getJobTemplateById (mj_jobTemplateId job) (w_jobs w)")
    case None
    then show ?thesis
      using j leavesD[OF shares.leaves_refuse] by (simp add: handleMiningSubmission_def)
  next
    case (Some t)
    let ?c = "c\<lparr>c_submissionHashes := submission_hash sub # c_submissionHashes c\<rparr>"
    show ?thesis
    proof (cases "submission_hash sub \<in> set (c_submissionHashes c)")
      case True
      then show ?thesis
        using j Some leavesD[OF shares.leaves_refuse] by (simp add: handleMiningSubmission_def)
    next
      case new: False
      then have eq: "handleMiningSubmission e sub (c, w) = judge_share e sub job t (?c, w)"
        by (simp add: handleMiningSubmission_def j Some step_simps)
      show ?thesis
      proof (cases "share_header (e_lib e) job t sub")
        case (Inl err)
        then show ?thesis
          by (simp add: eq judge_share_def step_simps)
      next
        case (Inr header)
        then have "judged e sub c w job t header"
          using j Some new by (simp add: judged_def)
        then show ?thesis
          using judge_share_shares[OF Inr, of ?c w] by (auto simp: eq logged_share_def split: option.splits)
      qed
    qed
  qed
qed

section \<open>Running an accepted share\<close>

lemma accepted_run:
  assumes "judged e sub c w job t header"
    and "js_ge (submissionDifficulty (e_lib e) header) (c_sessionDifficulty c)"
  obtains di where "handleMiningSubmission e sub (c, w) =
     accept_share e sub job t header (submissionDifficulty (e_lib e) header)
       (c\<lparr>c_submissionHashes := submission_hash sub # c_submissionHashes c\<rparr>, w\<lparr>w_diagnostics := di\<rparr>)"
proof -
  let ?d = "submissionDifficulty (e_lib e) header"
  let ?c = "c\<lparr>c_submissionHashes := submission_hash sub # c_submissionHashes c\<rparr>"
  have j: "getJobById (sm_jobId sub) (w_jobs w) = Some job" "getJobTemplateById (mj_jobTemplateId job) (w_jobs w) = Some t"
    "submission_hash sub \<notin> set (c_submissionHashes c)" "share_header (e_lib e) job t sub = Inr header"
    using assms(1) by (auto simp: judged_def)
  obtain di where l: "log_diagnostics e job t sub ?d (?c, w) = ((?c, w\<lparr>w_diagnostics := di\<rparr>), Inr ())"
  proof (cases "parseDiagnosticModes (e_cfg e ''DIAGNOSTIC_SHARE_LOGGING_MODES'') = []")
    case True
    then show thesis
      by (intro that[of "w_diagnostics w"]) (simp add: log_diagnostics_def step_simps)
  next
    case False
    then show thesis
      by (intro that) (simp add: log_diagnostics_def Let_def step_simps)
  qed
  show thesis
    using j assms(2) by (intro that[of di]) (simp add: handleMiningSubmission_def judge_share_def step_simps Let_def l)
qed

section \<open>What is lost\<close>

text \<open>
  C28. The answer to the miner comes first: when its write fails, an accepted share is neither logged nor,
  if it solves a block, submitted to the node. The block is lost with the connection.
\<close>

theorem block_lost_with_connection:
  assumes "judged e sub c w job t header"
    and "js_ge (submissionDifficulty (e_lib e) header) (c_sessionDifficulty c)"
    and "k_outcomes (c_socket c) = x # xs" and "x \<noteq> Delivered" and "\<not> isSocketClosed c"
  shows "\<exists>c' w'. handleMiningSubmission e sub (c, w) = ((c', w'), Inr False) \<and>
           w_pool w' = w_pool w \<and> w_submitted w' = w_submitted w \<and> w_foundBlocks w' = w_foundBlocks w"
proof -
  let ?c = "c\<lparr>c_submissionHashes := submission_hash sub # c_submissionHashes c\<rparr>" and ?m = "Success (sm_id sub) (Bool True)"
  obtain di where run: "handleMiningSubmission e sub (c, w) =
     accept_share e sub job t header (submissionDifficulty (e_lib e) header) (?c, w\<lparr>w_diagnostics := di\<rparr>)"
    using accepted_run[OF assms(1,2)] .
  have no_throw: "snd (destroy e s) = Inr ()" for s
    by (simp add: destroy_def step_simps split: option.split)
  obtain s' where w: "write_line e ?m (?c, w\<lparr>w_diagnostics := di\<rparr>) = (s', Inr False)"
    using assms(3-5) no_throw
    by (cases x) (auto simp: write_line_def socket_write_def isSocketClosed_def Let_def binds_case change_def returns_def)
  note leaves = leavesD[of _ "write_line e ?m" "(?c, w\<lparr>w_diagnostics := di\<rparr>)", unfolded w]
  have "handleMiningSubmission e sub (c, w) = (s', Inr False)"
    unfolding run accept_share_def bind_step(1)[where m = "write_line e (Success (sm_id sub) (Bool True))", OF w] by (simp add: returns_def)
  then show ?thesis
    using leaves[OF pool.leaves_write_line] leaves[OF submitted.leaves_write_line] leaves[OF blocks.leaves_write_line]
    by (cases s') simp
qed

text \<open>
  C29. A failed notification takes the reward with it: when a subscriber of the finder cannot be reached,
  the block is accepted and recorded, but the handler throws before the reward is split; nothing is
  credited to anybody, now or later.
\<close>

theorem failed_notification_loses_reward:
  assumes "judged e sub c w job t header"
    and "js_ge (submissionDifficulty (e_lib e) header) (c_sessionDifficulty c)"
    and "\<not> isSocketClosed c" and "k_outcomes (c_socket c) = []" and "c_authorization c = Some a"
    and "js_ge (submissionDifficulty (e_lib e) header) (bd_networkDifficulty (jt_blockData t))"
    and "copyAndUpdateBlock (e_lib e) job t (parse_int 16 (sm_versionMask sub)) (parse_int 16 (sm_nonce sub))
           (parse_int 16 (sm_ntime sub)) = Inr b"
    and "e_submit e (b_block_hex (e_lib e) b) = Answer (String ''SUCCESS!'')"
    and "e_notify e = Inl err"
  shows "\<exists>c' w'. handleMiningSubmission e sub (c, w) = ((c', w'), Inl err) \<and>
           length (w_foundBlocks w') = length (w_foundBlocks w) + 1 \<and>
           p_ledger (w_pool w') = p_ledger (w_pool w) \<and> p_accounting (w_pool w') = p_accounting (w_pool w)"
proof -
  obtain di where run: "handleMiningSubmission e sub (c, w) =
     accept_share e sub job t header (submissionDifficulty (e_lib e) header)
       (c\<lparr>c_submissionHashes := submission_hash sub # c_submissionHashes c\<rparr>, w\<lparr>w_diagnostics := di\<rparr>)"
    using accepted_run[OF assms(1,2)] .
  have "\<not> isSocketClosed (c\<lparr>c_submissionHashes := submission_hash sub # c_submissionHashes c\<rparr>)"
    using assms(3) by (simp add: isSocketClosed_def)
  then show ?thesis
    using assms(4-9)
    by (simp add: run accept_share_def step_simps write_delivered logged_def catch_def log_pplns_share_def with_auth_def
        the_authorization_def block_found_def block_accepted_def Let_def save_block_def)
qed

section \<open>A found block\<close>

lemma accept_share_pool:
  assumes "\<not> isSocketClosed c" and "k_outcomes (c_socket c) = []" and "c_authorization c = Some a"
    and "js_ge d (bd_networkDifficulty (jt_blockData t))"
    and "copyAndUpdateBlock (e_lib e) job t (parse_int 16 (sm_versionMask sub)) (parse_int 16 (sm_nonce sub))
           (parse_int 16 (sm_ntime sub)) = Inr b"
    and "e_submit e (b_block_hex (e_lib e) b) = Answer (String ''SUCCESS!'')"
    and "e_notify e = Inr ()"
  shows "w_pool (snd (fst (accept_share e sub job t header d (c, w)))) =
     fst (processBlockFound (e_cfg e) (e_now e) (height_of t) (bd_coinbasevalue (jt_blockData t))
       ((w_pool w)\<lparr>p_shares := record_share (e_now e) (au_address a) d (height_of t) (p_shares (w_pool w))\<rparr>))"
proof -
  obtain c1 where w: "write_line e (Success (sm_id sub) (Bool True)) (c, w) = ((c1, w), Inr True)"
    and a1: "c_authorization c1 = Some a"
    using write_delivered[OF assms(1,2)] assms(3) by fastforce
  let ?p = "(w_pool w)\<lparr>p_shares := record_share (e_now e) (au_address a) d (height_of t) (p_shares (w_pool w))\<rparr>"
  let ?w = "w\<lparr>w_pool := ?p\<rparr>"
  have l: "logged (log_pplns_share e t d) (c1, w) = ((c1, ?w), Inr ())"
    using a1 by (simp add: logged_def catch_def log_pplns_share_def with_auth_def the_authorization_def step_simps)
  obtain rg posts where rep: "reportBlockFound (e_cfg e) (e_now e) (b_block_id (e_lib e) b) (w_registry w) = (rg, posts)"
    by fastforce
  obtain p2 r2 where pbf: "processBlockFound (e_cfg e) (e_now e) (height_of t) (bd_coinbasevalue (jt_blockData t)) ?p = (p2, r2)"
    by fastforce
  obtain w2 where f: "block_found e sub job t (c1, ?w) = ((c1, w2), Inr ())" and p2: "w_pool w2 = p2"
    using assms(5-7) a1 rep pbf
    by (cases r2) (auto simp: block_found_def block_accepted_def with_auth_def the_authorization_def step_simps Let_def
          logged_def catch_def credit_block_def)
  show ?thesis
    using leavesD[OF pool.leaves_aftermath[of e d header], of "(c1, w2)"] p2 assms(4)
    by (simp add: accept_share_def bind_step(1)[where m = "write_line e (Success (sm_id sub) (Bool True))", OF w] seq_step(1)[where m = "logged (log_pplns_share e t d)", OF l] seq_step(1)[where m = "block_found e sub job t", OF f] pbf)
qed

text \<open>
  C27. From a judged share to the ledger: when handling a submission of an authorised session finds a block, the answer
  to the miner is delivered (otherwise C28), the node accepts the block and the notification about it succeeds (otherwise
  C29), then the share itself is in the window its block is split over, and the fee, the dust and what the
  miners are credited add up to exactly the coinbase value the block pays to the pool. The window and the value
  are within the bounds of exact doubles.
\<close>

theorem found_block_pays_everyone:
  assumes "judged e sub c w job t header"
    and "js_ge (submissionDifficulty (e_lib e) header) (c_sessionDifficulty c)"
    and "\<not> isSocketClosed c" and "k_outcomes (c_socket c) = []" and "c_authorization c = Some a"
    and "js_ge (submissionDifficulty (e_lib e) header) (bd_networkDifficulty (jt_blockData t))"
    and "copyAndUpdateBlock (e_lib e) job t (parse_int 16 (sm_versionMask sub)) (parse_int 16 (sm_nonce sub))
           (parse_int 16 (sm_ntime sub)) = Inr b"
    and "e_submit e (b_block_hex (e_lib e) b) = Answer (String ''SUCCESS!'')"
    and "e_notify e = Inr ()"
    and "bd_coinbasevalue (jt_blockData t) = IntN R"
    and "log' = record_share (e_now e) (au_address a) (submissionDifficulty (e_lib e) header) (height_of t) (p_shares (w_pool w))"
    and "block_ok R (getSharesInWindow (window_start (e_cfg e) (e_now e)) log')"
    and "js_le (window_start (e_cfg e) (e_now e)) (IntN (e_now e))"
  shows "let p = w_pool w; p' = w_pool (snd (fst (handleMiningSubmission e sub (c, w))))
         in p_shares p' = log' \<and> last (sl_rows log') \<in> set (getSharesInWindow (window_start (e_cfg e) (e_now e)) log') \<and>
            (total_owed (p_ledger p') - total_owed (p_ledger p)) +
            (fst (get_accounting (p_accounting p')) - fst (get_accounting (p_accounting p))) +
            (snd (get_accounting (p_accounting p')) - snd (get_accounting (p_accounting p))) = R"
proof -
  let ?c = "c\<lparr>c_submissionHashes := submission_hash sub # c_submissionHashes c\<rparr>"
  obtain di where run: "handleMiningSubmission e sub (c, w) =
     accept_share e sub job t header (submissionDifficulty (e_lib e) header) (?c, w\<lparr>w_diagnostics := di\<rparr>)"
    using accepted_run[OF assms(1,2)] .
  have c: "\<not> isSocketClosed ?c" "k_outcomes (c_socket ?c) = []" "c_authorization ?c = Some a"
    using assms(3-5) by (simp_all add: isSocketClosed_def)
  let ?p = "(w_pool w)\<lparr>p_shares := log'\<rparr>"
  have pool: "w_pool (snd (fst (handleMiningSubmission e sub (c, w)))) =
      fst (processBlockFound (e_cfg e) (e_now e) (height_of t) (IntN R) ?p)"
    unfolding run accept_share_pool[OF c assms(6-9)] by (simp add: assms(10,11))
  have "last (sl_rows log') \<in> set (getSharesInWindow (window_start (e_cfg e) (e_now e)) log')"
    using assms(11,13) by (simp add: record_share_def getSharesInWindow_def)
  moreover obtain p' where p': "processBlockFound (e_cfg e) (e_now e) (height_of t) (IntN R) ?p = (p', Inr ())"
    and conserved: "total_owed (p_ledger p') + fst (get_accounting (p_accounting p')) + snd (get_accounting (p_accounting p')) =
      total_owed (p_ledger ?p) + fst (get_accounting (p_accounting ?p)) + snd (get_accounting (p_accounting ?p)) + R"
    using block_totals[of R "e_cfg e" "e_now e" ?p "height_of t"] assms(12) by (auto simp: Let_def)
  moreover have "p_shares p' = log'"
    using processBlockFound_shares[of "e_cfg e" "e_now e" "height_of t" "IntN R" ?p] by (simp add: p')
  ultimately show ?thesis
    by (simp add: pool p' Let_def)
qed

section \<open>Submitting the same work again\<close>

text \<open>What a second submission depends on, and that the bookkeeping of the first one leaves it alone.\<close>

definition front :: "session \<Rightarrow> string list \<times> jsnum \<times> authorization option \<times> bool \<times> socket" where
  "front c = (c_submissionHashes c, c_sessionDifficulty c, c_authorization c, c_connectionClosed c, c_socket c)"

abbreviation front_is :: "string list \<times> jsnum \<times> authorization option \<times> bool \<times> socket \<Rightarrow> state \<Rightarrow> bool" where
  "front_is x s \<equiv> front (fst s) = x"

lemma keeps_front_session: "(\<And>c. front (h c) = front c) \<Longrightarrow> keeps (front_is x) (on_session h)"
  by (simp add: keeps_def step_simps)

lemma keeps_front_world: "keeps (front_is x) (on_world h)" "keeps (front_is x) (change (\<lambda>(c, w). (c, k c w)))"
  by (auto simp: keeps_def step_simps)

lemma keeps_front_change: "(\<And>c w. front (fst (h (c, w))) = front c) \<Longrightarrow> keeps (front_is x) (change h)"
  by (auto simp: keeps_def step_simps)

lemma keeps_front_auth: "(\<And>a. keeps (front_is x) (k a)) \<Longrightarrow> keeps (front_is x) (with_auth k)"
  unfolding with_auth_def by (intro keeps_intros)

lemma keeps_front_block: "keeps (front_is x) (block_found e sub job t)"
proof -
  have "keeps (front_is x) (credit_block e t)"
    by (simp add: keeps_def credit_block_def split: prod.split)
  then show ?thesis
    unfolding block_found_def block_accepted_def Let_def
    by (intro keeps_intros keeps_front_auth keeps_front_world)
qed

lemma keeps_front_entity: "keeps (front_is x) (ensureClientEntity e)"
proof -
  have flush: "keeps (front_is x) (insert_and_flush e p)" for p
    by (simp add: keeps_def insert_and_flush_def split: prod.split)
  have "keeps (front_is x)
      (catch (with_auth (\<lambda>a. binds (\<lambda>s. (s, the_subscription (fst s))) (\<lambda>u.
              binds (reads (\<lambda>s. new_partial_client e (fst s) a u)) (\<lambda>p.
                seq (insert_and_flush e p) (on_session (\<lambda>c. c\<lparr>c_entity := Some (entity_of e p)\<rparr>))))))
            (\<lambda>err. seq (on_session (\<lambda>c. c\<lparr>c_creatingFailed := Some err\<rparr>)) (lift (Inl err))))"
    by (intro keeps_intros flush keeps_front_auth keeps_front_session) (simp_all add: front_def)
  then show ?thesis
    by (auto simp: keeps_def ensureClientEntity_def step_simps split: option.split)
qed

lemma keeps_front_best: "keeps (front_is x) (keep_best_share e d)"
proof -
  have "keeps (front_is x) (logged (seq (change (\<lambda>(c, w).
          (c\<lparr>c_entity := Some (en\<lparr>en_bestDifficulty := d\<rparr>)\<rparr>,
           w\<lparr>w_clients := ClientRegistry.updateBestDifficultyIfHigher (e_now e)
               (case c_sessionId c of None \<Rightarrow> [] | Some i \<Rightarrow> i) d (w_clients w)\<rparr>)))
        (with_auth (\<lambda>a. on_world (\<lambda>w. w\<lparr>w_addresses :=
           AddressSettings.updateBestDifficultyIfHigher (e_now e) (au_address a) d (en_userAgent en) (w_addresses w)\<rparr>)))))" for en
    by (intro keeps_intros keeps_front_auth keeps_front_world keeps_front_change) (simp add: front_def)
  then show ?thesis
    by (auto simp: keeps_def keep_best_share_def step_simps split: option.split)
qed

lemma keeps_front_aftermath:
  "keeps (front_is x)
     (seq (logged (log_pplns_share e t d))
     (seq (if b then block_found e sub job t else returns ())
     (seq (ensureClientEntity e) (seq (logged (credit_statistics e d)) (seq (keep_best_share e d)
     (seq (report_external_share e header d) (returns False)))))))"
proof -
  have "keeps (front_is x) (credit_statistics e d)"
    by (auto simp: keeps_def credit_statistics_def step_simps front_def split: option.split prod.split)
  moreover have "keeps (front_is x) (log_pplns_share e t d)"
    unfolding log_pplns_share_def by (intro keeps_front_auth keeps_front_world)
  moreover have "keeps (front_is x) (report_external_share e header d)"
    unfolding report_external_share_def by (intro keeps_intros keeps_front_auth keeps_front_world)
  ultimately show ?thesis
    by (intro keeps_intros keeps_front_entity keeps_front_best keeps_front_block)
qed

interpretation jobs_of: money_part w_jobs by unfold_locales simp_all

lemma leaves_block_found_jobs: "leaves w_jobs (block_found e sub job t)"
proof -
  have "leaves w_jobs (credit_block e t)"
    by (simp add: leaves_def credit_block_def split: prod.split)
  then show ?thesis
    unfolding block_found_def block_accepted_def Let_def
    by (intro leaves_intros leaves_world leaves_change) (simp_all split: prod.split)
qed

lemma accept_share_jobs: "leaves w_jobs (accept_share e sub job t header d)"
  unfolding accept_share_def log_pplns_share_def
  by (intro leaves_intros leaves_block_found_jobs leaves_world) simp

lemma share_header_extraNonce2: "share_header lib job t (sub\<lparr>sm_extraNonce2 := x\<rparr>) = share_header lib job t sub"
  by (simp add: share_header_def)

text \<open>
  C30. The same work counts as often as it is sent: the duplicate check compares the text of the
  submission, but the extra nonce is no part of the header, so a share sent again with another one
  passes and is logged, and paid, a second time.
\<close>

theorem replayed_share_logged_twice:
  assumes "judged e sub c w job t header"
    and "js_ge (submissionDifficulty (e_lib e) header) (c_sessionDifficulty c)"
    and "\<not> isSocketClosed c" and "k_outcomes (c_socket c) = []" and "c_authorization c = Some a"
    and "e_lib e' = e_lib e"
    and "submission_hash (sub\<lparr>sm_extraNonce2 := x\<rparr>) \<notin> set (submission_hash sub # c_submissionHashes c)"
  shows "let s1 = fst (handleMiningSubmission e sub (c, w));
             s2 = fst (handleMiningSubmission e' (sub\<lparr>sm_extraNonce2 := x\<rparr>) s1);
             d = submissionDifficulty (e_lib e) header
         in p_shares (w_pool (snd s2)) =
              record_share (e_now e') (au_address a) d (height_of t)
                (record_share (e_now e) (au_address a) d (height_of t) (p_shares (w_pool w)))"
proof -
  let ?d = "submissionDifficulty (e_lib e) header" and ?sub = "sub\<lparr>sm_extraNonce2 := x\<rparr>"
  let ?c = "c\<lparr>c_submissionHashes := submission_hash sub # c_submissionHashes c\<rparr>"
  obtain di where run: "handleMiningSubmission e sub (c, w) = accept_share e sub job t header ?d (?c, w\<lparr>w_diagnostics := di\<rparr>)"
    using accepted_run[OF assms(1,2)] .
  obtain c1 w1 r1 where s1: "handleMiningSubmission e sub (c, w) = ((c1, w1), r1)"
    by (metis prod.collapse)
  have open_c: "\<not> isSocketClosed ?c" "k_outcomes (c_socket ?c) = []"
    using assms(3,4) by (simp_all add: isSocketClosed_def)
  note wr = write_delivered[OF open_c, of e "Success (sm_id sub) (Bool True)"]
  let ?c2 = "?c\<lparr>c_socket := (c_socket ?c)\<lparr>k_sent := k_sent (c_socket ?c) @ [Success (sm_id sub) (Bool True)]\<rparr>\<rparr>"
  have "front c1 = front ?c2"
    using keepsD[OF keeps_front_aftermath[of "front ?c2" e t ?d "js_ge ?d (bd_networkDifficulty (jt_blockData t))" sub job
        header], of "(?c2, w\<lparr>w_diagnostics := di\<rparr>)"] s1
    unfolding run accept_share_def bind_step(1)[where m = "write_line e (Success (sm_id sub) (Bool True))", OF wr]
    by simp
  then have front: "c_submissionHashes c1 = submission_hash sub # c_submissionHashes c"
    "c_sessionDifficulty c1 = c_sessionDifficulty c" "c_authorization c1 = Some a"
    "\<not> isSocketClosed c1" "k_outcomes (c_socket c1) = []"
    using assms(3-5) by (auto simp: front_def isSocketClosed_def)
  have shares1: "p_shares (w_pool w1) = record_share (e_now e) (au_address a) ?d (height_of t) (p_shares (w_pool w))"
    using accept_share_shares[of e sub job t header ?d "(?c, w\<lparr>w_diagnostics := di\<rparr>)"] assms(5) wr s1
    by (simp add: run logged_share_def)
  have jobs: "w_jobs w1 = w_jobs w"
    using leavesD[OF accept_share_jobs, of e sub job t header ?d "(?c, w\<lparr>w_diagnostics := di\<rparr>)"] s1 by (simp add: run)
  have j2: "judged e' ?sub c1 w1 job t header"
    using assms(1,6,7) front(1) jobs by (simp add: judged_def share_header_extraNonce2)
  obtain di2 where run2: "handleMiningSubmission e' ?sub (c1, w1) = accept_share e' ?sub job t header ?d
      (c1\<lparr>c_submissionHashes := submission_hash ?sub # c_submissionHashes c1\<rparr>, w1\<lparr>w_diagnostics := di2\<rparr>)"
    using accepted_run[OF j2] assms(2,6) front(2) by metis
  have "\<not> isSocketClosed (c1\<lparr>c_submissionHashes := h\<rparr>)" for h
    using front(4) by (simp add: isSocketClosed_def)
  then show ?thesis
    using front(3,5) shares1
    by (simp add: s1 run2 accept_share_shares write_delivered logged_share_def)
qed

section \<open>A concrete share\<close>

text \<open>
  A library whose hash is always the number one, a session authorised for difficulty one, and a pool that knows
  one job: the share below solves a block.
\<close>

definition example_share_lib :: bitcoin_lib where
  "example_share_lib = example_lib\<lparr>b_hash256 := (\<lambda>x. 1 # replicate 31 0)\<rparr>"

definition example_env :: env where
  "example_env =
     \<lparr>e_now = 9000001, e_cfg = Map.empty(''NETWORK'' \<mapsto> ''mainnet'', ''POOL_WALLET_ADDRESS'' \<mapsto> ''pool''),
      e_lib = example_share_lib, e_decodes = (\<lambda>a nw. a \<noteq> []), e_template = Inr example_gbt,
      e_submit = (\<lambda>hex. Answer (String ''SUCCESS!'')), e_notify = Inr (), e_randomHex = ''00c0ffee'',
      e_generatedUpdatedAt = None\<rparr>"

definition example_world :: world where
  "example_world =
     \<lparr>w_jobs = new_job_store\<lparr>js_jobs := [(''1'', example_job)], js_blocks := [(''1'', example_template)]\<rparr>,
      w_clients = new_client_service, w_statistics = [], w_pool = example_pool, w_foundBlocks = [], w_addresses = [],
      w_registry = \<lparr>pr_mempools = [], pr_recent = [], pr_cache = None\<rparr>, w_submitted = [], w_notified = [],
      w_reports = [], w_externalPosts = [], w_blockedLog = [], w_validationLog = [], w_console = [],
      w_diagnostics = []\<rparr>"

definition example_authorization :: authorization where
  "example_authorization =
     \<lparr>au_id = Null, au_address = ''miner'', au_worker = ''worker'', au_startingDiff = None, au_password = None\<rparr>"

definition example_session :: "write_outcome list \<Rightarrow> session" where
  "example_session outcomes =
     (new_session outcomes)\<lparr>c_authorization := Some example_authorization, c_sessionDifficulty := Num 1\<rparr>"

definition example_submission :: submission where
  "example_submission =
     \<lparr>sm_id = Null, sm_jobId = ''1'', sm_extraNonce2 = [], sm_ntime = ''6553f105'', sm_nonce = ''00000007'',
      sm_versionMask = ''0''\<rparr>"

definition example_share_header :: bytes where
  "example_share_header =
     (case share_header example_share_lib example_job example_template example_submission of Inr h \<Rightarrow> h | Inl x \<Rightarrow> [])"

lemma example_numbers:
  "parse_int 16 (sm_versionMask example_submission) = Num 0" "parse_int 16 (sm_nonce example_submission) = Num 7"
  "parse_int 16 (sm_ntime example_submission) = Num 1700000005"
  by code_simp+

lemma example_share_header_eq:
  "share_header example_share_lib example_job example_template example_submission = Inr example_share_header"
proof -
  have H: "hash_ok example_share_lib" "length (b_hash256 example_share_lib x) = 32" for x
    by (simp_all add: hash_ok_def example_share_lib_def)
  have "\<exists>h. share_header example_share_lib example_job example_template example_submission = Inr h"
    unfolding share_header_def example_numbers buildHeaderBuffer_def assembleHeader_def
      merkle_root_fold[OF H(1) example_branch(1) H(2)]
    by (simp add: writeInt32LE_def writeUInt32LE_def write_32_def example_job_fields rolled_version_def js_eq_def
        example_template_def Let_def)
  then show ?thesis
    by (auto simp: example_share_header_def)
qed

lemma example_difficulty:
  obtains d where "submissionDifficulty example_share_lib h = Num d" and "1 \<le> d" and "d \<le> 2 ^ 300"
    and "js_wf (Num d)"
proof -
  have "submissionDifficulty example_share_lib h = difficulty_of_target (le256todouble (1 # replicate 31 0))"
    by (simp add: submissionDifficulty_def example_share_lib_def)
  also have "\<dots> = Num (26959535291011309493156476344723991336010898738574164086137773096960)"
    by code_simp
  finally have e: "submissionDifficulty example_share_lib h = Num (26959535291011309493156476344723991336010898738574164086137773096960)" .
  have "js_wf (submissionDifficulty example_share_lib h)"
    by (simp add: submissionDifficulty_def difficulty_of_target_def)
  then show thesis
    using that e by simp
qed

lemma new_job_template: "new_mining_job lib nw now i ps t = Inr j \<Longrightarrow> mj_jobTemplateId j = bd_id (jt_blockData t)"
  by (auto simp: new_mining_job_def fbind_Inr Let_def split: if_splits)

lemma example_job_template: "mj_jobTemplateId example_job = ''1''"
  using new_job_template[OF example_job_new] by (simp add: example_template_def)

lemma example_judged:
  "judged example_env example_submission (example_session os) example_world example_job example_template example_share_header"
  using example_share_header_eq
  by (simp add: judged_def example_env_def example_world_def example_submission_def example_session_def new_session_def
      getJobById_def getJobTemplateById_def new_job_store_def example_job_template)

lemma example_accepted: "js_ge (submissionDifficulty (e_lib example_env) example_share_header) (c_sessionDifficulty (example_session os))"
  "js_ge (submissionDifficulty (e_lib example_env) example_share_header) (bd_networkDifficulty (jt_blockData example_template))"
  by (rule example_difficulty[of example_share_header];
      simp add: example_env_def example_session_def example_template_def)+

theorem block_lost_with_connection_witness:
  "\<exists>c' w'. handleMiningSubmission example_env example_submission (example_session [Disconnected], example_world) =
       ((c', w'), Inr False) \<and>
     w_pool w' = w_pool example_world \<and> w_submitted w' = w_submitted example_world \<and>
     w_foundBlocks w' = w_foundBlocks example_world"
  by (rule block_lost_with_connection[OF example_judged example_accepted(1)])
     (auto simp: example_session_def new_session_def open_socket_def isSocketClosed_def)

definition example_block :: block where
  "example_block =
     (case copyAndUpdateBlock example_share_lib example_job example_template (Num 0) (Num 7) (Num 1700000005) of
        Inr b \<Rightarrow> b | Inl x \<Rightarrow> jt_block example_template)"

lemma example_block_eq:
  "copyAndUpdateBlock (e_lib example_env) example_job example_template (parse_int 16 (sm_versionMask example_submission))
     (parse_int 16 (sm_nonce example_submission)) (parse_int 16 (sm_ntime example_submission)) = Inr example_block"
proof -
  have H: "hash_ok example_share_lib" "\<And>tx. length (b_tx_hash example_share_lib tx) = 32"
    by (simp_all add: hash_ok_def example_share_lib_def example_lib_def example_hash_def)
  have "\<exists>b. copyAndUpdateBlock example_share_lib example_job example_template (Num 0) (Num 7) (Num 1700000005) = Inr b"
    unfolding copyAndUpdateBlock_def merkle_root_fold[OF H(1) example_branch(1) H(2)]
    by (simp add: example_share_lib_def example_lib_def Let_def)
  then show ?thesis
    by (auto simp: example_block_def example_numbers example_env_def)
qed

lemma example_open: "\<not> isSocketClosed (example_session [])" "k_outcomes (c_socket (example_session [])) = []"
  "c_authorization (example_session []) = Some example_authorization"
  by (simp_all add: example_session_def new_session_def open_socket_def isSocketClosed_def)

theorem failed_notification_loses_reward_witness:
  "\<exists>c' w'. handleMiningSubmission (example_env\<lparr>e_notify := Inl (mk_error ''403'')\<rparr>) example_submission
        (example_session [], example_world) = ((c', w'), Inl (mk_error ''403'')) \<and>
     length (w_foundBlocks w') = length (w_foundBlocks example_world) + 1 \<and>
     p_ledger (w_pool w') = p_ledger (w_pool example_world) \<and>
     p_accounting (w_pool w') = p_accounting (w_pool example_world)"
  using example_judged[of "[]"] example_accepted(1)[of "[]"] example_accepted(2) example_block_eq
  by (intro failed_notification_loses_reward[OF _ _ example_open(1,2,3), where b = example_block])
     (simp_all add: judged_def, simp_all add: example_env_def)

definition example_log :: share_log where
  "example_log = record_share (e_now example_env) ''miner'' (submissionDifficulty (e_lib example_env) example_share_header)
     (height_of example_template) (p_shares (w_pool example_world))"

lemma example_window:
  "block_ok 5000000000 (getSharesInWindow (window_start (e_cfg example_env) (e_now example_env)) example_log)"
  "js_le (window_start (e_cfg example_env) (e_now example_env)) (IntN (e_now example_env))"
proof -
  have ws: "window_start (e_cfg example_env) (e_now example_env) = Num 3600001"
    unfolding example_env_def by code_simp
  obtain d where d: "submissionDifficulty example_share_lib example_share_header = Num d" "1 \<le> d" "d \<le> 2 ^ 300" "js_wf (Num d)"
    by (rule example_difficulty)
  have "js_wf (Num 300)" "js_wf (Num 100)"
    by code_simp+
  then show "block_ok 5000000000 (getSharesInWindow (window_start (e_cfg example_env) (e_now example_env)) example_log)"
    using d unfolding ws
    by (simp add: example_log_def example_env_def example_world_def example_pool_def getSharesInWindow_def record_share_def
        empty_share_log_def block_ok_def share_ok_def fair_size_def)
  show "js_le (window_start (e_cfg example_env) (e_now example_env)) (IntN (e_now example_env))"
    unfolding ws by (simp add: example_env_def)
qed

theorem found_block_pays_everyone_witness:
  "let p = w_pool example_world;
       p' = w_pool (snd (fst (handleMiningSubmission example_env example_submission (example_session [], example_world))))
   in p_shares p' = example_log \<and>
      last (sl_rows example_log) \<in> set (getSharesInWindow (window_start (e_cfg example_env) (e_now example_env)) example_log) \<and>
      (total_owed (p_ledger p') - total_owed (p_ledger p)) +
      (fst (get_accounting (p_accounting p')) - fst (get_accounting (p_accounting p))) +
      (snd (get_accounting (p_accounting p')) - snd (get_accounting (p_accounting p))) = 5000000000"
  by (rule found_block_pays_everyone[OF example_judged example_accepted(1) example_open example_accepted(2) example_block_eq])
     (use example_window in \<open>simp_all add: example_log_def example_authorization_def, simp_all add: example_env_def example_template_def\<close>)

theorem replayed_share_logged_twice_witness:
  "let s1 = fst (handleMiningSubmission example_env example_submission (example_session [], example_world));
       s2 = fst (handleMiningSubmission example_env (example_submission\<lparr>sm_extraNonce2 := ''00''\<rparr>) s1);
       d = submissionDifficulty (e_lib example_env) example_share_header
   in p_shares (w_pool (snd s2)) =
        record_share (e_now example_env) (au_address example_authorization) d (height_of example_template)
          (record_share (e_now example_env) (au_address example_authorization) d (height_of example_template)
             (p_shares (w_pool example_world)))"
  by (rule replayed_share_logged_twice[OF example_judged example_accepted(1) example_open refl])
     (simp add: example_submission_def submission_hash_def example_session_def new_session_def)

end
