(* ===== verification/Json.thy ===== *)
theory Json
  imports JsValue
begin

text \<open>
  \<open>JSON.parse\<close> of the language: one value, surrounded by white space, or \<open>None\<close> for its
  \<open>SyntaxError\<close>. The first argument of the mutually recursive readers bounds the recursion; twice
  the length of the text is enough (\<open>json_fuel_enough\<close>). As in \<open>JsString\<close> characters are the code units
  below 256; an escape of a higher one is read as a \<open>SyntaxError\<close>.
\<close>

definition json_space :: "char \<Rightarrow> bool" where
  "json_space c \<longleftrightarrow> code_unit c \<in> {9, 10, 13, 32}"

definition skip_space :: "string \<Rightarrow> string" where
  "skip_space s = dropWhile json_space s"

definition hex4 :: "string \<Rightarrow> char option" where
  "hex4 h = (if length h = 4 \<and> (\<forall>c \<in> set h. digit_val c < 16) \<and> digits_value 16 (map digit_val h) < 256
             then Some (char_of (digits_value 16 (map digit_val h))) else None)"

definition escaped :: "char \<Rightarrow> char option" where
  "escaped c = map_of [(CHR 0x22, CHR 0x22), (CHR 0x5C, CHR 0x5C), (CHR ''/'', CHR ''/''), (CHR ''b'', CHR 0x08),
     (CHR ''f'', CHR 0x0C), (CHR ''n'', CHR 0x0A), (CHR ''r'', CHR 0x0D), (CHR ''t'', CHR 0x09)] c"

definition cons_to :: "char \<Rightarrow> (string \<times> string) option \<Rightarrow> (string \<times> string) option" where
  "cons_to c r = map_option (apfst (Cons c)) r"

text \<open>What follows a backslash: the character it stands for and the rest.\<close>

definition json_escape :: "string \<Rightarrow> (char \<times> string) option" where
  "json_escape s =
     (case s of
        [] \<Rightarrow> None
      | e # es \<Rightarrow>
          if e = CHR ''u'' then map_option (\<lambda>d. (d, drop 4 es)) (hex4 (take 4 es))
          else map_option (\<lambda>d. (d, es)) (escaped e))"

lemma json_escape_rest: "json_escape s = Some (d, r) \<Longrightarrow> length r < length s"
  by (auto simp: json_escape_def split: list.splits if_splits)

text \<open>The rest of a string after its opening quote: content and what follows the closing quote.\<close>

function json_string :: "string \<Rightarrow> (string \<times> string) option" where
  "json_string [] = None"
| "json_string (c # cs) =
     (if c = CHR 0x22 then Some ([], cs)
      else if c = CHR 0x5C then
        (case json_escape cs of None \<Rightarrow> None | Some (d, r) \<Rightarrow> cons_to d (json_string r))
      else if code_unit c < 32 then None
      else cons_to c (json_string cs))"
  by pat_completeness auto
termination
  by (relation "measure length") (auto dest: json_escape_rest)

definition is_digit :: "char \<Rightarrow> bool" where
  "is_digit c \<longleftrightarrow> digit_val c < 10"

text \<open>The optional parts of a number; a part that begins must be complete.\<close>

definition json_digits :: "string \<Rightarrow> (string \<times> string) option" where
  "json_digits s = (if takeWhile is_digit s = [] then None else Some (takeWhile is_digit s, dropWhile is_digit s))"

definition json_fraction :: "string \<Rightarrow> (string \<times> string) option" where
  "json_fraction s =
     (case s of
        c # cs \<Rightarrow> if c = CHR ''.'' then map_option (apfst (Cons c)) (json_digits cs) else Some ([], s)
      | [] \<Rightarrow> Some ([], s))"

definition json_exponent :: "string \<Rightarrow> (string \<times> string) option" where
  "json_exponent s =
     (case s of
        e # cs \<Rightarrow>
          if e = CHR ''e'' \<or> e = CHR ''E'' then
            (case cs of
               g # ds \<Rightarrow> if g = CHR ''+'' \<or> g = CHR ''-'' then map_option (apfst (\<lambda>d. e # g # d)) (json_digits ds)
                         else map_option (apfst (Cons e)) (json_digits cs)
             | [] \<Rightarrow> None)
          else Some ([], s)
      | [] \<Rightarrow> Some ([], s))"

definition json_number :: "string \<Rightarrow> (jsnum \<times> string) option" where
  "json_number s =
     (let (sign, r) = (case s of c # cs \<Rightarrow> if c = CHR ''-'' then ([c], cs) else ([], s) | [] \<Rightarrow> ([], s))
      in case json_digits r of
           None \<Rightarrow> None
         | Some (ds, r1) \<Rightarrow>
             if 1 < length ds \<and> hd ds = CHR ''0'' then None
             else (case json_fraction r1 of
                     None \<Rightarrow> None
                   | Some (fs, r2) \<Rightarrow>
                       (case json_exponent r2 of
                          None \<Rightarrow> None
                        | Some (es, r3) \<Rightarrow> Some (to_number (sign @ ds @ fs @ es), r3))))"

definition json_word :: "string \<Rightarrow> (jsval \<times> string) option" where
  "json_word s =
     (if starts_with ''true'' s then Some (Bool True, drop 4 s)
      else if starts_with ''false'' s then Some (Bool False, drop 5 s)
      else if starts_with ''null'' s then Some (Null, drop 4 s)
      else map_option (apfst Number) (json_number s))"

text \<open>\<open>json_items\<close> and \<open>json_members\<close> read on after the opening bracket's first item.\<close>

fun json_value :: "nat \<Rightarrow> string \<Rightarrow> (jsval \<times> string) option"
  and json_items :: "nat \<Rightarrow> jsval list \<Rightarrow> string \<Rightarrow> (jsval \<times> string) option"
  and json_members :: "nat \<Rightarrow> (string \<times> jsval) list \<Rightarrow> string \<Rightarrow> (jsval \<times> string) option" where
  "json_value 0 s = None"
| "json_value (Suc n) s =
     (case skip_space s of
        [] \<Rightarrow> None
      | c # cs \<Rightarrow>
          if c = CHR 0x22 then map_option (apfst String) (json_string cs)
          else if c = CHR ''['' then
            (case skip_space cs of
               d # ds \<Rightarrow> if d = CHR '']'' then Some (Arr [], ds) else json_items n [] cs
             | [] \<Rightarrow> None)
          else if c = CHR ''{'' then
            (case skip_space cs of
               d # ds \<Rightarrow> if d = CHR ''}'' then Some (Obj [], ds) else json_members n [] cs
             | [] \<Rightarrow> None)
          else json_word (c # cs))"
| "json_items 0 acc s = None"
| "json_items (Suc n) acc s =
     (case json_value n s of
        None \<Rightarrow> None
      | Some (v, r) \<Rightarrow>
          (case skip_space r of
             c # cs \<Rightarrow> if c = CHR '','' then json_items n (acc @ [v]) cs
                       else if c = CHR '']'' then Some (Arr (acc @ [v]), cs) else None
           | [] \<Rightarrow> None))"
| "json_members 0 acc s = None"
| "json_members (Suc n) acc s =
     (case skip_space s of
        [] \<Rightarrow> None
      | q # qs \<Rightarrow>
          if q \<noteq> CHR 0x22 then None
          else (case json_string qs of
                  None \<Rightarrow> None
                | Some (k, r) \<Rightarrow>
                    (case skip_space r of
                       [] \<Rightarrow> None
                     | c # cs \<Rightarrow>
                         if c \<noteq> CHR '':'' then None
                         else (case json_value n cs of
                                 None \<Rightarrow> None
                               | Some (v, r2) \<Rightarrow>
                                   (case skip_space r2 of
                                      d # ds \<Rightarrow>
                                        if d = CHR '','' then json_members n ((k, v) # acc) ds
                                        else if d = CHR ''}'' then Some (Obj ((k, v) # acc), ds) else None
                                    | [] \<Rightarrow> None)))))"

definition json_parse :: "string \<Rightarrow> jsval option" where
  "json_parse s =
     (case json_value (2 * length s + 2) s of
        None \<Rightarrow> None
      | Some (v, r) \<Rightarrow> if skip_space r = [] then Some v else None)"

section \<open>The bound on the recursion\<close>

lemma skip_space_length: "length (skip_space s) \<le> length s"
  by (simp add: skip_space_def length_dropWhile_le)

lemma skip_space_Cons: "skip_space s = c # cs \<Longrightarrow> length cs < length s"
  using skip_space_length[of s] by simp

lemma json_string_rest: "json_string s = Some (b, r) \<Longrightarrow> length r < length s"
proof (induction s arbitrary: b r rule: json_string.induct)
  case (2 c cs)
  consider "c = CHR 0x22" | d q where "c = CHR 0x5C" "json_escape cs = Some (d, q)" |
      "c = CHR 0x5C" "json_escape cs = None" | "c \<noteq> CHR 0x22" "c \<noteq> CHR 0x5C"
    by (cases "json_escape cs") auto
  then show ?case
  proof cases
    case (2 d q)
    then obtain b' where "json_string q = Some (b', r)"
      using "2.prems" by (auto simp: cons_to_def)
    then show ?thesis
      using "2.IH"(1)[OF _ _ 2(2) refl] 2 json_escape_rest[OF 2(2)] by fastforce
  next
    case 4
    then obtain b' where "json_string cs = Some (b', r)" "\<not> code_unit c < 32"
      using "2.prems" by (auto simp: cons_to_def split: if_splits)
    then show ?thesis
      using "2.IH"(2) 4 by fastforce
  qed (use "2.prems" in auto)
qed simp

lemma json_digits_rest: "json_digits s = Some (d, r) \<Longrightarrow> length r < length s"
proof -
  assume d: "json_digits s = Some (d, r)"
  have "takeWhile is_digit s @ dropWhile is_digit s = s"
    by simp
  then have "length (takeWhile is_digit s) + length (dropWhile is_digit s) = length s"
    by (metis length_append)
  moreover have "0 < length (takeWhile is_digit s)" and r: "r = dropWhile is_digit s"
    using d by (auto simp: json_digits_def split: if_splits)
  ultimately show ?thesis
    unfolding r by linarith
qed

lemma json_fraction_rest: "json_fraction s = Some (d, r) \<Longrightarrow> length r \<le> length s"
  by (auto simp: json_fraction_def dest!: json_digits_rest split: list.splits if_splits)

lemma json_exponent_rest: "json_exponent s = Some (d, r) \<Longrightarrow> length r \<le> length s"
  by (auto simp: json_exponent_def dest!: json_digits_rest split: list.splits if_splits)

lemma json_number_rest:
  assumes "json_number s = Some (v, r)"
  shows "length r < length s"
proof -
  obtain sg t where t: "(case s of c # cs \<Rightarrow> if c = CHR ''-'' then ([c], cs) else ([], s) | [] \<Rightarrow> ([], s)) = (sg, t)"
    by fastforce
  have "length t \<le> length s"
    using t by (auto split: list.splits if_splits)
  then show ?thesis
    using assms
    by (auto simp: json_number_def t dest!: json_digits_rest json_fraction_rest json_exponent_rest
        split: option.splits if_splits)
qed

lemma starts_with_length: "starts_with p s \<Longrightarrow> length p \<le> length s"
  unfolding starts_with_def by (metis length_take min.cobounded1 min.commute)

lemma json_word_rest: "json_word s = Some (v, r) \<Longrightarrow> length r < length s"
  by (auto simp: json_word_def dest!: json_number_rest dest: starts_with_length split: if_splits)

lemma json_rest:
  "json_value n s = Some (v, r) \<Longrightarrow> length r < length s"
  "json_items n acc s = Some (v, r) \<Longrightarrow> length r < length s"
  "json_members n mem s = Some (v, r) \<Longrightarrow> length r < length s"
proof (induction n s and n acc s and n mem s arbitrary: v r and v r and v r rule: json_value_json_items_json_members.induct)
  case (2 n s)
  then show ?case
    by (auto dest!: json_string_rest json_word_rest skip_space_Cons split: list.splits if_splits) fastforce+
next
  case (4 n acc s)
  then show ?case
    by (auto dest!: skip_space_Cons split: option.splits list.splits if_splits) fastforce+
next
  case (6 n acc s)
  then show ?case
    by (auto dest!: skip_space_Cons json_string_rest split: option.splits list.splits if_splits) fastforce+
qed simp_all

declare json_value.simps [simp del] json_items.simps [simp del] json_members.simps [simp del]

lemma json_fuel_step:
  shows "2 * length s + 2 \<le> n \<Longrightarrow> json_value (Suc n) s = json_value n s"
    and "2 * length s + 3 \<le> n \<Longrightarrow> json_items (Suc n) acc s = json_items n acc s"
    and "2 * length s + 3 \<le> n \<Longrightarrow> json_members (Suc n) mem s = json_members n mem s"
proof (induction n arbitrary: s acc mem)
  case (Suc n)
  have items: "json_items (Suc n) a cs = json_items n a cs" and members: "json_members (Suc n) m cs = json_members n m cs"
    and val: "json_value (Suc n) cs = json_value n cs" if "length cs < length s" "2 * length s + 2 \<le> Suc n" for a m cs and s :: string
    using Suc.IH that by simp_all
  {
    case 1
    have f: "json_items (Suc n) [] cs = json_items n [] cs" "json_members (Suc n) [] cs = json_members n [] cs"
      if "skip_space s = c # cs" for c cs
      by (rule items[OF skip_space_Cons[OF that] 1], rule members[OF skip_space_Cons[OF that] 1])
    show ?case
      unfolding json_value.simps(2)[of "Suc n" s] json_value.simps(2)[of n s]
      by (auto simp: f split: list.split)
  next
    case 2
    have v: "json_value (Suc n) s = json_value n s"
      using 2 Suc.IH(1)[of s] by simp
    have f: "json_items (Suc n) a cs = json_items n a cs"
      if "json_value n s = Some (x, r)" "skip_space r = c # cs" for a x r c cs
      using json_rest(1)[OF that(1)] skip_space_Cons[OF that(2)] 2 by (intro items) auto
    show ?case
      unfolding json_items.simps(2)[of "Suc n" acc s] json_items.simps(2)[of n acc s]
      by (auto simp: v f split: list.split option.split)
  next
    case 3
    have f: "json_value (Suc n) cs = json_value n cs"
      if "skip_space s = q # qs" "json_string qs = Some (k, r)" "skip_space r = c # cs" for q qs k r c cs
      using skip_space_Cons[OF that(1)] json_string_rest[OF that(2)] skip_space_Cons[OF that(3)] 3
      by (intro val) auto
    have g: "json_members (Suc n) m ds = json_members n m ds"
      if "skip_space s = q # qs" "json_string qs = Some (k, r)" "skip_space r = c # cs"
        "json_value n cs = Some (x, r2)" "skip_space r2 = d # ds" for q qs k r c cs x r2 d ds m
      using skip_space_Cons[OF that(1)] json_string_rest[OF that(2)] skip_space_Cons[OF that(3)]
        json_rest(1)[OF that(4)] skip_space_Cons[OF that(5)] 3
      by (intro members) auto
    show ?case
      unfolding json_members.simps(2)[of "Suc n" mem s] json_members.simps(2)[of n mem s]
      by (auto simp: f g split: list.split option.split)
  }
qed simp_all

text \<open>More fuel than \<open>json_parse\<close> uses changes nothing.\<close>

lemma json_fuel_enough: "json_value (2 * length s + 2 + k) s = json_value (2 * length s + 2) s"
  by (induction k) (simp_all add: json_fuel_step(1))

lemma json_parse_examples:
  "json_parse ''{\"id\": 1, \"method\": \"a b\", \"params\": [\"x\", [-0.5e1], {}, null]} '' =
     Some (Obj [(''params'', Arr [String ''x'', Arr [Number (Num (- 5))], Obj [], Null]),
                (''method'', String ''a b''), (''id'', Number (Num 1))])"
  "json_parse ''[1,]'' = None" "json_parse ''{\"a\"}'' = None" "json_parse ''1 2'' = None" "json_parse ''01'' = None"
  by code_simp+

end
