(* ===== verification/StratumClient.thy ===== *)
theory StratumClient
  imports ShareProperties Json
begin

text \<open>
  The protocol of a connection (\<open>StratumV1Client.handleMessage\<close>, \<open>initStratum\<close>, the socket's data
  handler and the timers): a line is parsed, its message validated, answered, and the connection
  initialised once it has subscribed and authorised. \<open>event_step\<close> is one event of the connection and
  \<open>runs_to\<close> what a run of events reaches.
\<close>

section \<open>Initialisation\<close>

definition configured_difficulty :: "config \<Rightarrow> string \<Rightarrow> jsnum \<Rightarrow> jsnum" where
  "configured_difficulty cfg key dflt =
     (let configured = to_number_opt (cfg key)
      in if js_is_finite configured \<and> js_gt configured (Num 0) then configured else dflt)"

definition starting_difficulty :: "config \<Rightarrow> string \<Rightarrow> session \<Rightarrow> session" where
  "starting_difficulty cfg userAgent c =
     (if c_isHobbyMinerSession c
      then c\<lparr>c_sessionDifficulty := configured_difficulty cfg ''HOBBY_MINER_DIFFICULTY'' (fl (1 / 1000))\<rparr>
      else if isLowHashrateMiner cfg userAgent
      then c\<lparr>c_sessionDifficulty := configured_difficulty cfg ''LOW_HASHRATE_DIFFICULTY'' (fl (1 / 10))\<rparr>
      else c)"

definition start_timers :: "config \<Rightarrow> session \<Rightarrow> session" where
  "start_timers cfg c =
     c\<lparr>c_subscribedToBlocks := True,
       c_backgroundWork := c_backgroundWork c @
         [(DifficultyTimer, getTunedIntervalMs cfg ''DIFFICULTY_CHECK_INTERVAL_MS'' (Num 60000) (Num 5000)),
          (JobTimer, getTunedIntervalMs cfg ''JOB_REFRESH_INTERVAL_MS'' (Num 30000) (Num 1000)),
          (WorkTimer, getTunedIntervalMs cfg ''WORK_REFRESH_INTERVAL_MS'' (Num 1000) (Num 500))]\<rparr>"

definition close_blocked :: "env \<Rightarrow> string \<Rightarrow> (state, unit) action" where
  "close_blocked e userAgent =
     seq (on_world (logBlockedUserAgent (e_now e) userAgent)) (closeSocket e)"

definition initStratum :: "env \<Rightarrow> (state, unit) action" where
  "initStratum e =
     seq (on_session (\<lambda>c. c\<lparr>c_stratumInitialized := True\<rparr>))
       (binds (\<lambda>s. (s, the_subscription (fst s))) (\<lambda>u.
          if isBlockedUserAgent (e_cfg e) (sb_userAgent u) then close_blocked e (sb_userAgent u)
          else seq (on_session (starting_difficulty (e_cfg e) (sb_userAgent u)))
                 (binds (\<lambda>s. if c_suggestedDifficulty (fst s) = None
                             then write_line e (SetDifficulty (c_sessionDifficulty (fst s))) s
                             else returns True s) (\<lambda>success.
                    if success then on_session (start_timers (e_cfg e)) else returns ()))))"

section \<open>Messages\<close>

text \<open>
  Each handler returns whether the message handler goes on to its last lines. \<open>errors\<close> is what the
  validator reports about a refused message, used for the log only.
\<close>

definition refuse_message :: "env \<Rightarrow> jsval \<Rightarrow> string \<Rightarrow> (state, bool) action" where
  "refuse_message e msg what = write_line e (Failure (message_id msg) OtherUnknown what)"

definition record_subscription :: "env \<Rightarrow> subscription \<Rightarrow> session \<Rightarrow> session" where
  "record_subscription e u c =
     (if c_sessionStart c = None
      then c\<lparr>c_sessionStart := Some (e_now e), c_statistics := Some (new_stats (e_now e)),
             c_sessionId := Some (e_randomHex e),
             c_isHobbyMinerSession := isHobbyMiner (e_cfg e) (sb_userAgent u)\<rparr>
      else c)\<lparr>c_subscription := Some u\<rparr>"

definition on_subscribe :: "env \<Rightarrow> jsval \<Rightarrow> (state, bool) action" where
  "on_subscribe e msg =
     binds (lift (parse_subscription msg)) (\<lambda>r.
       case r of
         Invalid \<Rightarrow> refuse_message e msg ''Subscription validation error''
       | Valid u \<Rightarrow>
           if isBlockedUserAgent (e_cfg e) (sb_userAgent u)
           then seq (close_blocked e (sb_userAgent u)) (returns False)
           else seq (on_session (record_subscription e u))
                  (binds (reads (\<lambda>s. Success (sb_id u) (subscription_result
                      (case c_sessionId (fst s) of None \<Rightarrow> [] | Some i \<Rightarrow> i) (c_isHobbyMinerSession (fst s)))))
                     (write_line e)))"

definition on_configure :: "env \<Rightarrow> jsval \<Rightarrow> (state, bool) action" where
  "on_configure e msg =
     (case parse_configuration msg of
        Invalid \<Rightarrow> refuse_message e msg ''Configuration validation error''
      | Valid i \<Rightarrow> seq (on_session (\<lambda>c. c\<lparr>c_configuration := Some i\<rparr>)) (write_line e (Success i configuration_result)))"

definition apply_starting_diff :: "authorization \<Rightarrow> session \<Rightarrow> session" where
  "apply_starting_diff a c =
     (case au_startingDiff a of
        Some d \<Rightarrow> if c_suggestedDifficulty c = None \<and> js_gt d (c_sessionDifficulty c)
                  then c\<lparr>c_sessionDifficulty := d\<rparr> else c
      | None \<Rightarrow> c)"

definition on_authorize :: "env \<Rightarrow> jsval \<Rightarrow> (state, bool) action" where
  "on_authorize e msg =
     binds (lift (parse_authorization (valid_for_network (e_decodes e) (e_cfg e)) msg)) (\<lambda>r.
       case r of
         Invalid \<Rightarrow> refuse_message e msg ''Authorization validation error''
       | Valid a \<Rightarrow> seq (on_session (\<lambda>c. apply_starting_diff a (c\<lparr>c_authorization := Some a\<rparr>)))
                      (write_line e (Success (au_id a) (Bool True))))"

definition on_suggest_difficulty :: "env \<Rightarrow> jsval \<Rightarrow> (state, bool) action" where
  "on_suggest_difficulty e msg =
     binds (reads (\<lambda>s. c_usedSuggestedDifficulty (fst s))) (\<lambda>used.
       if used then returns False
       else binds (lift (parse_suggestion msg)) (\<lambda>r.
              case r of
                Invalid \<Rightarrow> refuse_message e msg ''Suggest difficulty validation error''
              | Valid (i, d) \<Rightarrow>
                  seq (on_session (\<lambda>c. c\<lparr>c_suggestedDifficulty := Some d, c_sessionDifficulty := d\<rparr>))
                    (binds (write_line e (SetDifficulty d)) (\<lambda>success.
                       if success then seq (on_session (\<lambda>c. c\<lparr>c_usedSuggestedDifficulty := True\<rparr>)) (returns True)
                       else returns False))))"

definition on_submit :: "(jsval \<Rightarrow> validation_error list) \<Rightarrow> env \<Rightarrow> jsval \<Rightarrow> (state, bool) action" where
  "on_submit errors e msg =
     binds (reads (\<lambda>s. c_stratumInitialized (fst s))) (\<lambda>initialized.
       if \<not> initialized then seq (on_session socket_end) (returns False)
       else binds (lift (parse_submission msg)) (\<lambda>r.
              case r of
                Invalid \<Rightarrow>
                  seq (on_world (logValidationError (e_now e) ''Mining Submit validation error'' (errors msg)))
                    (binds (refuse_message e msg ''Mining Submit validation error'') (\<lambda>success.
                       if success then seq (closeSocket e) (returns False) else returns False))
              | Valid sub \<Rightarrow>
                  binds (handleMiningSubmission e sub) (\<lambda>result.
                    if result then write_line e (Success (sm_id sub) (Bool True)) else returns True)))"

definition dispatch :: "(jsval \<Rightarrow> validation_error list) \<Rightarrow> env \<Rightarrow> jsval \<Rightarrow> (state, bool) action" where
  "dispatch errors e msg =
     (case method_of msg of
        Some SUBSCRIBE \<Rightarrow> on_subscribe e msg
      | Some CONFIGURE \<Rightarrow> on_configure e msg
      | Some AUTHORIZE \<Rightarrow> on_authorize e msg
      | Some SUGGEST_DIFFICULTY \<Rightarrow> on_suggest_difficulty e msg
      | Some SUBMIT \<Rightarrow> on_submit errors e msg
      | None \<Rightarrow> returns True)"

definition ready_to_start :: "session \<Rightarrow> bool" where
  "ready_to_start c \<longleftrightarrow> c_subscription c \<noteq> None \<and> c_authorization c \<noteq> None \<and> \<not> c_stratumInitialized c"

definition handleMessage :: "(jsval \<Rightarrow> validation_error list) \<Rightarrow> env \<Rightarrow> string \<Rightarrow> (state, unit) action" where
  "handleMessage errors e message =
     (case json_parse message of
        None \<Rightarrow> on_session socket_end
      | Some msg \<Rightarrow>
          if nullish msg then throws ''Cannot read properties of null''
          else binds (dispatch errors e msg) (\<lambda>goes_on s.
                 if goes_on \<and> ready_to_start (fst s) then initStratum e s else returns () s))"

section \<open>Lines of the socket\<close>

definition stops_reading :: "session \<Rightarrow> bool" where
  "stops_reading c \<longleftrightarrow> c_connectionClosed c \<or> k_destroyed (c_socket c) \<or> k_writableEnded (c_socket c)"

fun handle_lines :: "(jsval \<Rightarrow> validation_error list) \<Rightarrow> env \<Rightarrow> string list \<Rightarrow> state \<Rightarrow> state" where
  "handle_lines errors e [] s = s"
| "handle_lines errors e (m # ms) s =
     (if stops_reading (fst s) then s
      else case handleMessage errors e m s of
             (s', Inl err) \<Rightarrow> handle_lines errors e ms (apfst socket_end s')
           | (s', Inr u) \<Rightarrow> handle_lines errors e ms s')"

definition on_data :: "(jsval \<Rightarrow> validation_error list) \<Rightarrow> env \<Rightarrow> string \<Rightarrow> state \<Rightarrow> state" where
  "on_data errors e chunk s =
     (let ls = split_on (CHR 0x0A) (c_buffer (fst s) @ chunk)
      in handle_lines errors e (filter (\<lambda>l. l \<noteq> []) (butlast ls)) (apfst (\<lambda>c. c\<lparr>c_buffer := last ls\<rparr>) s))"

section \<open>Events\<close>

text \<open>
  A timer that was cleared and a cancelled subscription do not fire. The job and work timers log what
  their handler throws; the difficulty timer leaves it unhandled; a failed refresh on a new block ends
  the socket. The replay of the last block to a new subscriber is a \<open>NewBlock\<close> event.
\<close>

datatype event = Data string | NewBlock | Tick timer | PeerEnd | PeerClose | SocketTimeout

definition has_timer :: "timer \<Rightarrow> session \<Rightarrow> bool" where
  "has_timer k c \<longleftrightarrow> k \<in> fst ` set (c_backgroundWork c)"

fun tick :: "env \<Rightarrow> timer \<Rightarrow> (state, unit) action" where
  "tick e DifficultyTimer = checkDifficulty e"
| "tick e JobTimer = logged (refreshMiningJob e)"
| "tick e WorkTimer = logged (refreshLocalMiningWork e)"

definition on_new_block :: "env \<Rightarrow> (state, unit) action" where
  "on_new_block e = catch (refreshMiningJob e) (\<lambda>err. on_session socket_end)"

fun event_step :: "(jsval \<Rightarrow> validation_error list) \<Rightarrow> env \<Rightarrow> event \<Rightarrow> state \<Rightarrow> state" where
  "event_step errors e (Data chunk) s = on_data errors e chunk s"
| "event_step errors e NewBlock s = (if c_subscribedToBlocks (fst s) then fst (on_new_block e s) else s)"
| "event_step errors e (Tick k) s = (if has_timer k (fst s) then fst (tick e k s) else s)"
| "event_step errors e PeerEnd s = apfst (\<lambda>c. c\<lparr>c_connectionClosed := True\<rparr>) s"
| "event_step errors e PeerClose s =
     fst (destroy e (apfst (\<lambda>c. socket_destroy (c\<lparr>c_connectionClosed := True\<rparr>)) s))"
| "event_step errors e SocketTimeout s = apfst (\<lambda>c. socket_destroy (socket_end c)) s"

text \<open>The settings and the address format do not change during a run; everything else of \<open>env\<close> may.\<close>

inductive runs_to ::
  "(jsval \<Rightarrow> validation_error list) \<Rightarrow> config \<Rightarrow> (string \<Rightarrow> network \<Rightarrow> bool) \<Rightarrow> state \<Rightarrow> state \<Rightarrow> bool"
  for errors cfg decodes where
  start: "runs_to errors cfg decodes s s"
| step: "runs_to errors cfg decodes s s' \<Longrightarrow> e_cfg e = cfg \<Longrightarrow> e_decodes e = decodes \<Longrightarrow>
           runs_to errors cfg decodes s (event_step errors e ev s')"

section \<open>The invariant of a session\<close>

definition session_ok :: "config \<Rightarrow> (string \<Rightarrow> network \<Rightarrow> bool) \<Rightarrow> session \<Rightarrow> bool" where
  "session_ok cfg decodes c \<longleftrightarrow>
     (c_stratumInitialized c \<longrightarrow> c_subscription c \<noteq> None \<and> c_authorization c \<noteq> None) \<and>
     (c_subscription c \<noteq> None \<longrightarrow> c_sessionStart c \<noteq> None) \<and>
     (c_sessionStart c \<noteq> None \<longrightarrow> c_sessionId c \<noteq> None \<and> c_statistics c \<noteq> None) \<and>
     (\<forall>a. c_authorization c = Some a \<longrightarrow> valid_for_network decodes cfg (au_address a)) \<and>
     (\<not> c_stratumInitialized c \<longrightarrow> c_backgroundWork c = [] \<and> \<not> c_subscribedToBlocks c) \<and>
     (c_backgroundWork c = [] \<or> map fst (c_backgroundWork c) = [DifficultyTimer, JobTimer, WorkTimer]) \<and>
     (c_destroyStarted c \<longrightarrow> c_connectionClosed c \<and> c_backgroundWork c = [] \<and> \<not> c_subscribedToBlocks c)"

abbreviation ok_state :: "config \<Rightarrow> (string \<Rightarrow> network \<Rightarrow> bool) \<Rightarrow> state \<Rightarrow> bool" where
  "ok_state cfg decodes s \<equiv> session_ok cfg decodes (fst s)"

lemma session_ok_same: "session_ok cfg decodes c \<Longrightarrow> same_core c c' \<Longrightarrow> session_ok cfg decodes c'"
  by (auto simp: session_ok_def same_core_def)

interpretation ok: session_invariant "session_ok cfg decodes" for cfg decodes
  by unfold_locales (auto simp: session_ok_def same_core_def after_destroy_def)

interpretation started: session_invariant c_stratumInitialized
  by unfold_locales (auto simp: same_core_def after_destroy_def)

section \<open>Messages keep the invariant\<close>

lemma keeps_checked [keeps_intros]:
  "(r = Invalid \<Longrightarrow> keeps P m) \<Longrightarrow> (\<And>x. r = Valid x \<Longrightarrow> keeps P (f x)) \<Longrightarrow>
     keeps P (case r of Invalid \<Rightarrow> m | Valid x \<Rightarrow> f x)"
  by (cases r) simp_all

lemma keeps_lift_then [keeps_intros]:
  "(\<And>x. r = Inr x \<Longrightarrow> keeps P (f x)) \<Longrightarrow> keeps P (binds (lift r) f)"
  by (cases r) (auto simp: keeps_def step_simps)

lemma session_ok_subscribe: "session_ok cfg decodes c \<Longrightarrow> session_ok cfg decodes (record_subscription e u c)"
  by (cases "c_sessionStart c") (simp_all add: session_ok_def record_subscription_def)

lemma session_ok_authorize:
  assumes "session_ok cfg decodes c" and "valid_for_network decodes cfg (au_address a)"
  shows "session_ok cfg decodes (apply_starting_diff a (c\<lparr>c_authorization := Some a\<rparr>))"
proof -
  have "same_core (c\<lparr>c_authorization := Some a\<rparr>) (apply_starting_diff a (c\<lparr>c_authorization := Some a\<rparr>))"
    by (simp add: same_core_def apply_starting_diff_def split: option.split)
  moreover have "session_ok cfg decodes (c\<lparr>c_authorization := Some a\<rparr>)"
    using assms by (simp add: session_ok_def)
  ultimately show ?thesis
    by (rule session_ok_same[rotated])
qed

lemma keeps_on_subscribe [keeps_intros]: "keeps (ok_state cfg decodes) (on_subscribe e msg)"
  unfolding on_subscribe_def close_blocked_def refuse_message_def
  by (intro keeps_intros) (simp_all add: session_ok_subscribe)

lemma parse_authorization_valid:
  "parse_authorization valid msg = Inr (Valid a) \<Longrightarrow> valid (au_address a)"
  by (auto simp: parse_authorization_def fbind_Inr Let_def split: if_splits)

lemma keeps_on_authorize:
  assumes "e_cfg e = cfg" and "e_decodes e = decodes"
  shows "keeps (ok_state cfg decodes) (on_authorize e msg)"
  unfolding on_authorize_def refuse_message_def
  using parse_authorization_valid[of "valid_for_network decodes cfg"]
  by (intro keeps_intros) (auto intro: session_ok_authorize simp: assms)

lemma keeps_dispatch:
  assumes "e_cfg e = cfg" and "e_decodes e = decodes"
  shows "keeps (ok_state cfg decodes) (dispatch errors e msg)"
proof -
  have "keeps (ok_state cfg decodes) (on_configure e msg)"
    unfolding on_configure_def refuse_message_def
    by (intro keeps_intros ok.keeps_ok_session) (simp add: same_core_def)
  moreover have "keeps (ok_state cfg decodes) (on_suggest_difficulty e msg)"
    unfolding on_suggest_difficulty_def refuse_message_def
    by (intro keeps_intros) (auto intro!: keeps_intros ok.keeps_ok_session simp: same_core_def split: prod.split)
  moreover have "keeps (ok_state cfg decodes) (on_submit errors e msg)"
    unfolding on_submit_def refuse_message_def
    by (intro keeps_intros ok.keeps_ok_session) simp_all
  ultimately show ?thesis
    using keeps_on_subscribe keeps_on_authorize[OF assms] keeps_basic(1)
    by (auto simp: dispatch_def split: option.split request_method.split)
qed

text \<open>A write that succeeded leaves an open connection, so what follows it runs on an open one.\<close>

lemma write_line_True: "write_line e m s = (s', Inr True) \<Longrightarrow> \<not> c_connectionClosed (fst s')"
  by (auto simp: write_line_def isSocketClosed_def returns_def binds_def split: if_splits prod.splits write_outcome.splits sum.splits)

lemma binds_Inr: "binds m f s = (s', Inr y) \<Longrightarrow> \<exists>s1 x. m s = (s1, Inr x) \<and> f x s1 = (s', Inr y)"
  by (auto simp: binds_def split: prod.splits sum.splits)

lemma seq_Inr: "seq m k s = (s', Inr y) \<Longrightarrow> \<exists>s1. m s = (s1, Inr ()) \<and> k s1 = (s', Inr y)"
  by (auto simp: seq_def dest: binds_Inr)

lemma dispatch_goes_on:
  assumes "dispatch errors e msg s = (s', Inr True)" and "\<not> c_connectionClosed (fst s)"
  shows "\<not> c_connectionClosed (fst s') \<or> method_of msg = Some SUBMIT \<and> c_stratumInitialized (fst s)"
proof (cases "method_of msg")
  case None
  then show ?thesis
    using assms by (simp add: dispatch_def returns_def)
next
  case (Some m)
  show ?thesis
  proof (cases m)
    case SUBSCRIBE
    then show ?thesis
      using assms(1) Some
      by (auto simp: dispatch_def on_subscribe_def refuse_message_def returns_def
          dest!: binds_Inr seq_Inr dest: write_line_True split: checked.splits if_splits)
  next
    case CONFIGURE
    then show ?thesis
      using assms(1) Some
      by (auto simp: dispatch_def on_configure_def refuse_message_def
          dest!: seq_Inr dest: write_line_True split: checked.splits)
  next
    case AUTHORIZE
    then show ?thesis
      using assms(1) Some
      by (auto simp: dispatch_def on_authorize_def refuse_message_def
          dest!: binds_Inr seq_Inr dest: write_line_True split: checked.splits)
  next
    case SUGGEST_DIFFICULTY
    then show ?thesis
      using assms(1) Some
      by (auto simp: dispatch_def on_suggest_difficulty_def refuse_message_def returns_def change_def apfst_def
          dest!: binds_Inr seq_Inr write_line_True split: checked.splits if_splits prod.splits)
  next
    case SUBMIT
    then show ?thesis
      using assms(1) Some
      by (auto simp: dispatch_def on_submit_def step_simps seq_def returns_def split: if_splits)
  qed
qed

lemma not_destroyed: "ok_state cfg decodes s \<Longrightarrow> \<not> c_connectionClosed (fst s) \<Longrightarrow> \<not> c_destroyStarted (fst s)"
  by (auto simp: session_ok_def)

lemma session_ok_start_timers:
  assumes "session_ok cfg decodes c" and "\<not> c_connectionClosed c" and "c_backgroundWork c = []"
    and "c_stratumInitialized c"
  shows "session_ok cfg decodes (start_timers g c)"
  using assms by (auto simp: session_ok_def start_timers_def)

text \<open>A write changes none of the fields the initialisation speaks of, unless it fails.\<close>

lemma write_line_core: "write_line e m s = (s', Inr True) \<Longrightarrow> same_core (fst s) (fst s')"
  using socket_write_core[of "fst s" m]
  by (auto simp: write_line_def returns_def binds_def split: if_splits prod.splits write_outcome.splits sum.splits)

lemma initStratum_ok:
  assumes ok: "ok_state cfg decodes s" and ready: "ready_to_start (fst s)" and "\<not> c_connectionClosed (fst s)"
  shows "ok_state cfg decodes (fst (initStratum e s))"
proof -
  obtain c w where s: "s = (c, w)" by fastforce
  obtain u where u: "c_subscription c = Some u"
    using ready by (auto simp: s ready_to_start_def)
  let ?c1 = "c\<lparr>c_stratumInitialized := True\<rparr>"
  let ?c2 = "starting_difficulty (e_cfg e) (sb_userAgent u) ?c1"
  have "\<not> c_stratumInitialized c" "c_backgroundWork c = []"
    using ok ready by (auto simp: s ready_to_start_def session_ok_def)
  then have ok1: "session_ok cfg decodes ?c1"
    using ok ready by (auto simp: s ready_to_start_def session_ok_def)
  have core2: "same_core ?c1 ?c2"
    by (simp add: starting_difficulty_def same_core_def)
  then have ok2: "session_ok cfg decodes ?c2" and c2: "\<not> c_connectionClosed ?c2" "c_backgroundWork ?c2 = []" "c_stratumInitialized ?c2"
    using ok1 assms(3) \<open>c_backgroundWork c = []\<close>
    by (auto intro: session_ok_same simp: same_core_def s starting_difficulty_def)
  show ?thesis
  proof (cases "isBlockedUserAgent (e_cfg e) (sb_userAgent u)")
    case True
    have "keeps (ok_state cfg decodes) (close_blocked e (sb_userAgent u))"
      unfolding close_blocked_def by (intro keeps_intros)
    then show ?thesis
      using True ok1 keepsD[of "ok_state cfg decodes" _ "(?c1, w)"]
      by (simp add: initStratum_def s u step_simps the_subscription_def binds_def)
  next
    case False
    show ?thesis
    proof (cases "c_suggestedDifficulty ?c2")
      case None
      obtain s3 r where w: "write_line e (SetDifficulty (c_sessionDifficulty ?c2)) (?c2, w) = (s3, r)"
        by fastforce
      then have ok3: "ok_state cfg decodes s3"
        using keepsD[OF ok.keeps_write_line, of cfg decodes "(?c2, w)"] ok2 by (metis fst_conv)
      have "session_ok cfg decodes (start_timers (e_cfg e) (fst s3))" if "r = Inr True"
        using write_line_True[OF w[unfolded that]] write_line_core[OF w[unfolded that]] c2 ok3
        by (intro session_ok_start_timers) (auto simp: same_core_def)
      then show ?thesis
        using False None w ok3
        by (cases r) (auto simp: initStratum_def s u step_simps the_subscription_def binds_def)
    next
      case (Some d)
      then show ?thesis
        using False session_ok_start_timers[OF ok2 c2]
        by (simp add: initStratum_def s u step_simps the_subscription_def binds_def)
    qed
  qed
qed

lemma started_submit: "keeps (at_session c_stratumInitialized) (on_submit errors e msg)"
  unfolding on_submit_def refuse_message_def by (intro keeps_intros started.keeps_ok_session) simp_all

lemma handleMessage_ok:
  assumes "ok_state cfg decodes s" and "\<not> c_connectionClosed (fst s)" and "e_cfg e = cfg" and "e_decodes e = decodes"
  shows "ok_state cfg decodes (fst (handleMessage errors e m s))"
proof (cases "json_parse m")
  case None
  have "keeps (ok_state cfg decodes) (on_session socket_end)"
    by (rule ok.keeps_ok_session) simp
  then show ?thesis
    using keepsD[of _ _ s] assms(1) None by (fastforce simp: handleMessage_def)
next
  case (Some msg)
  obtain s1 r where d: "dispatch errors e msg s = (s1, r)" by fastforce
  then have ok1: "ok_state cfg decodes s1"
    using keepsD[OF keeps_dispatch[OF assms(3,4)] assms(1), of errors msg] by simp
  have "ok_state cfg decodes (fst (initStratum e s1))" if "r = Inr True" "ready_to_start (fst s1)"
  proof (rule initStratum_ok[OF ok1 that(2)])
    have "c_stratumInitialized (fst s1)" if "method_of msg = Some SUBMIT" "c_stratumInitialized (fst s)"
      using keepsD[OF started_submit that(2), of errors e msg] d that(1) by (simp add: dispatch_def)
    then show "\<not> c_connectionClosed (fst s1)"
      using dispatch_goes_on[OF d[unfolded that(1)] assms(2)] that(2) by (auto simp: ready_to_start_def)
  qed
  then show ?thesis
    using Some ok1 by (cases r) (auto simp: handleMessage_def step_simps d binds_def returns_def throws_def assms(1) )
qed

lemma handle_lines_ok:
  assumes "ok_state cfg decodes s" and "e_cfg e = cfg" and "e_decodes e = decodes"
  shows "ok_state cfg decodes (handle_lines errors e ms s)"
  using assms(1)
proof (induction ms arbitrary: s)
  case (Cons m ms)
  show ?case
  proof (cases "stops_reading (fst s)")
    case False
    obtain s' r where h: "handleMessage errors e m s = (s', r)" by fastforce
    have ok': "ok_state cfg decodes s'"
      using handleMessage_ok[OF Cons.prems _ assms(2,3), of errors m] False h by (simp add: stops_reading_def)
    then have "ok_state cfg decodes (apfst socket_end s')"
      by (auto intro: session_ok_same)
    with ok' show ?thesis
      using False h Cons.IH by (simp split: sum.split)
  qed (use Cons.prems in simp)
qed simp

lemma event_step_ok:
  assumes "ok_state cfg decodes s" and "e_cfg e = cfg" and "e_decodes e = decodes"
  shows "ok_state cfg decodes (event_step errors e ev s)"
proof (cases ev)
  case (Data chunk)
  have "ok_state cfg decodes (apfst (\<lambda>c. c\<lparr>c_buffer := b\<rparr>) s)" for b
    using assms(1) by (auto intro!: session_ok_same[of cfg decodes "fst s"] simp: same_core_def)
  then show ?thesis
    using handle_lines_ok[OF _ assms(2,3)] by (simp add: Data on_data_def Let_def)
next
  case NewBlock
  have "keeps (ok_state cfg decodes) (on_new_block e)"
    unfolding on_new_block_def by (intro keeps_intros ok.keeps_ok_session) simp
  from keepsD[OF this assms(1)] show ?thesis
    using assms(1) by (simp add: NewBlock)
next
  case (Tick k)
  have "keeps (ok_state cfg decodes) (tick e k)"
    by (cases k) (auto intro!: keeps_intros)
  from keepsD[OF this assms(1)] show ?thesis
    using assms(1) by (simp add: Tick)
next
  case PeerClose
  have "same_core (fst s) (socket_destroy ((fst s)\<lparr>c_connectionClosed := True\<rparr>))"
    by (simp add: same_core_def socket_destroy_def)
  then have "ok_state cfg decodes (apfst (\<lambda>c. socket_destroy (c\<lparr>c_connectionClosed := True\<rparr>)) s)"
    using session_ok_same[OF assms(1)] by simp
  from keepsD[OF ok.keeps_destroy this] show ?thesis
    by (simp add: PeerClose)
next
  case PeerEnd
  then show ?thesis
    using session_ok_same[OF assms(1)] by simp
next
  case SocketTimeout
  have "same_core (fst s) (socket_destroy (socket_end (fst s)))"
    by (simp add: same_core_def socket_destroy_def socket_end_def)
  then show ?thesis
    using session_ok_same[OF assms(1)] by (simp add: SocketTimeout)
qed

text \<open>
  C25. Whatever a miner, the network and the timers do, a connection stays in order: it is initialised
  only when subscribed and authorised for an address valid on the configured network, it has a
  session id and statistics from its subscription on, the three timers run exactly once, none before
  the initialisation, and none, nor the block subscription, survives its destruction.
\<close>

theorem session_always_ok:
  assumes "runs_to errors cfg decodes (new_session outcomes, w) s"
  shows "session_ok cfg decodes (fst s)"
proof -
  have "ok_state cfg decodes s" if "runs_to errors cfg decodes s0 s" "ok_state cfg decodes s0" for s0
    using that by (induction rule: runs_to.induct) (auto intro: event_step_ok)
  then show ?thesis
    using assms by (auto simp: session_ok_def new_session_def)
qed

section \<open>The handshake\<close>

lemma split_on_line: "nl \<notin> set m \<Longrightarrow> split_on nl (m @ [nl]) = [m, []]"
  by (induction m) auto

lemma on_data_line:
  assumes "CHR 0x0A \<notin> set m" and "json_parse m \<noteq> None" and "c_buffer (fst s) = []" and "\<not> stops_reading (fst s)"
  shows "on_data errors e (m @ [CHR 0x0A]) s =
     (case handleMessage errors e m s of (s', Inl err) \<Rightarrow> apfst socket_end s' | (s', Inr u) \<Rightarrow> s')"
proof -
  have "m \<noteq> []"
    using assms(2) by (auto simp: json_parse_def json_value.simps skip_space_def numeral_2_eq_2)
  moreover have "apfst (\<lambda>c. c\<lparr>c_buffer := []\<rparr>) s = s"
    using assms(3) by (cases s) simp
  ultimately show ?thesis
    using assms(4) by (simp add: on_data_def split_on_line[OF assms(1)] assms(3))
qed

lemma method_not_nullish: "method_of msg = Some k \<Longrightarrow> \<not> nullish msg"
  by (auto simp: method_of_def nullish_def)

text \<open>The session after the subscription, and after the authorisation.\<close>

definition subscribed_session :: "env \<Rightarrow> subscription \<Rightarrow> session" where
  "subscribed_session e u =
     (let c = record_subscription e u (new_session [])
      in c\<lparr>c_socket := (c_socket c)\<lparr>k_sent :=
           [Success (sb_id u) (subscription_result (e_randomHex e) (isHobbyMiner (e_cfg e) (sb_userAgent u)))]\<rparr>\<rparr>)"

definition authorised_session :: "env \<Rightarrow> subscription \<Rightarrow> authorization \<Rightarrow> session" where
  "authorised_session e u a =
     (let c = apply_starting_diff a ((subscribed_session e u)\<lparr>c_authorization := Some a\<rparr>)
      in c\<lparr>c_socket := (c_socket c)\<lparr>k_sent := k_sent (c_socket c) @ [Success (au_id a) (Bool True)]\<rparr>\<rparr>)"

definition served_session :: "env \<Rightarrow> env \<Rightarrow> subscription \<Rightarrow> authorization \<Rightarrow> session" where
  "served_session e1 e2 u a =
     (let c = starting_difficulty (e_cfg e2) (sb_userAgent u) ((authorised_session e1 u a)\<lparr>c_stratumInitialized := True\<rparr>)
      in start_timers (e_cfg e2)
           (c\<lparr>c_socket := (c_socket c)\<lparr>k_sent := k_sent (c_socket c) @ [SetDifficulty (c_sessionDifficulty c)]\<rparr>\<rparr>))"

lemma subscribed_fields:
  "c_socket (subscribed_session e u) = (open_socket [])\<lparr>k_sent :=
     [Success (sb_id u) (subscription_result (e_randomHex e) (isHobbyMiner (e_cfg e) (sb_userAgent u)))]\<rparr>"
  "c_connectionClosed (subscribed_session e u) = False" "c_subscription (subscribed_session e u) = Some u"
  "c_authorization (subscribed_session e u) = None" "\<not> c_stratumInitialized (subscribed_session e u)"
  "c_backgroundWork (subscribed_session e u) = []" "c_suggestedDifficulty (subscribed_session e u) = None"
  "c_buffer (subscribed_session e u) = []" "c_submissionHashes (subscribed_session e u) = []"
  by (simp_all add: subscribed_session_def Let_def record_subscription_def new_session_def open_socket_def)

lemma authorised_fields:
  "c_socket (authorised_session e u a) = (open_socket [])\<lparr>k_sent :=
     [Success (sb_id u) (subscription_result (e_randomHex e) (isHobbyMiner (e_cfg e) (sb_userAgent u))),
      Success (au_id a) (Bool True)]\<rparr>"
  "c_connectionClosed (authorised_session e u a) = False" "c_subscription (authorised_session e u a) = Some u"
  "c_authorization (authorised_session e u a) = Some a" "\<not> c_stratumInitialized (authorised_session e u a)"
  "c_backgroundWork (authorised_session e u a) = []" "c_suggestedDifficulty (authorised_session e u a) = None"
  "c_buffer (authorised_session e u a) = []" "c_submissionHashes (authorised_session e u a) = []"
  by (simp_all add: authorised_session_def Let_def apply_starting_diff_def subscribed_fields split: option.split)

lemma starting_difficulty_fields:
  "c_socket (starting_difficulty cfg ua c) = c_socket c" "c_connectionClosed (starting_difficulty cfg ua c) = c_connectionClosed c"
  "c_authorization (starting_difficulty cfg ua c) = c_authorization c"
  "c_stratumInitialized (starting_difficulty cfg ua c) = c_stratumInitialized c"
  "c_backgroundWork (starting_difficulty cfg ua c) = c_backgroundWork c"
  "c_suggestedDifficulty (starting_difficulty cfg ua c) = c_suggestedDifficulty c"
  "c_buffer (starting_difficulty cfg ua c) = c_buffer c"
  "c_submissionHashes (starting_difficulty cfg ua c) = c_submissionHashes c"
  by (simp_all add: starting_difficulty_def)

lemma handshake_subscribe:
  assumes "json_parse m = Some v" and "method_of v = Some SUBSCRIBE" and "parse_subscription v = Inr (Valid u)"
    and "\<not> isBlockedUserAgent (e_cfg e) (sb_userAgent u)" and "CHR 0x0A \<notin> set m"
  shows "on_data errors e (m @ [CHR 0x0A]) (new_session [], w) = (subscribed_session e u, w)"
proof -
  let ?c = "record_subscription e u (new_session [])"
  have c: "\<not> isSocketClosed ?c" "k_outcomes (c_socket ?c) = []" "k_sent (c_socket ?c) = []"
    by (simp_all add: record_subscription_def new_session_def open_socket_def isSocketClosed_def)
  have "handleMessage errors e m (new_session [], w) = ((subscribed_session e u, w), Inr ())"
    using assms(1-4) method_not_nullish[OF assms(2)] write_delivered[OF c(1,2)] c(3)
    by (simp add: handleMessage_def dispatch_def on_subscribe_def step_simps record_subscription_def new_session_def
        ready_to_start_def returns_def subscribed_session_def Let_def)
  then show ?thesis
    using on_data_line[of m "(new_session [], w)" errors e] assms(1,5)
    by (simp add: new_session_def open_socket_def stops_reading_def)
qed

lemma handshake_start:
  assumes "\<not> isBlockedUserAgent (e_cfg e2) (sb_userAgent u)"
  shows "initStratum e2 (authorised_session e1 u a, w) = ((served_session e1 e2 u a, w), Inr ())"
proof -
  let ?c = "starting_difficulty (e_cfg e2) (sb_userAgent u) ((authorised_session e1 u a)\<lparr>c_stratumInitialized := True\<rparr>)"
  let ?r = "SetDifficulty (c_sessionDifficulty ?c)"
  have "write_line e2 ?r (?c, w) = ((?c\<lparr>c_socket := (c_socket ?c)\<lparr>k_sent := k_sent (c_socket ?c) @ [?r]\<rparr>\<rparr>, w), Inr True)"
    by (rule write_delivered)
       (simp_all add: starting_difficulty_fields authorised_fields isSocketClosed_def open_socket_def)
  then show ?thesis
    using assms
    by (simp add: initStratum_def step_simps the_subscription_def binds_case served_session_def Let_def
        starting_difficulty_fields authorised_fields)
qed

lemma handshake_authorize:
  assumes "json_parse m = Some v" and "method_of v = Some AUTHORIZE"
    and "parse_authorization (valid_for_network (e_decodes e2) (e_cfg e2)) v = Inr (Valid a)"
    and "\<not> isBlockedUserAgent (e_cfg e2) (sb_userAgent u)" and "CHR 0x0A \<notin> set m"
  shows "on_data errors e2 (m @ [CHR 0x0A]) (subscribed_session e1 u, w) = (served_session e1 e2 u a, w)"
proof -
  let ?c = "apply_starting_diff a ((subscribed_session e1 u)\<lparr>c_authorization := Some a\<rparr>)"
  have c: "c_socket ?c = c_socket (subscribed_session e1 u)" "c_connectionClosed ?c = False"
    by (simp_all add: apply_starting_diff_def subscribed_fields split: option.split)
  have "write_line e2 (Success (au_id a) (Bool True)) (?c, w) = ((authorised_session e1 u a, w), Inr True)"
    using c by (subst write_delivered)
      (simp_all add: isSocketClosed_def open_socket_def subscribed_fields authorised_session_def Let_def)
  then have "handleMessage errors e2 m (subscribed_session e1 u, w) = ((served_session e1 e2 u a, w), Inr ())"
    using assms(1-3) method_not_nullish[OF assms(2)] handshake_start[OF assms(4), of e1 a w]
    by (simp add: handleMessage_def dispatch_def on_authorize_def step_simps ready_to_start_def binds_case authorised_fields)
  then show ?thesis
    using on_data_line[of m "(subscribed_session e1 u, w)" errors e2] assms(1,5)
    by (simp add: subscribed_fields open_socket_def stops_reading_def)
qed

text \<open>
  C32. A miner that subscribes and then authorises on a working connection is served: the connection is
  initialised, told its difficulty, subscribed to new blocks, and its three timers run.
\<close>

theorem handshake_completes:
  assumes "json_parse m1 = Some v1" and "method_of v1 = Some SUBSCRIBE" and "parse_subscription v1 = Inr (Valid u)"
    and "json_parse m2 = Some v2" and "method_of v2 = Some AUTHORIZE"
    and "parse_authorization (valid_for_network (e_decodes e2) (e_cfg e2)) v2 = Inr (Valid a)"
    and "\<not> isBlockedUserAgent (e_cfg e1) (sb_userAgent u)" and "\<not> isBlockedUserAgent (e_cfg e2) (sb_userAgent u)"
    and "CHR 0x0A \<notin> set (m1 @ m2)"
  shows "let c = fst (event_step errors e2 (Data (m2 @ [CHR 0x0A]))
                       (event_step errors e1 (Data (m1 @ [CHR 0x0A])) (new_session [], w)))
         in c_stratumInitialized c \<and> c_subscribedToBlocks c \<and>
            map fst (c_backgroundWork c) = [DifficultyTimer, JobTimer, WorkTimer] \<and>
            k_sent (c_socket c) =
              [Success (sb_id u) (subscription_result (e_randomHex e1) (isHobbyMiner (e_cfg e1) (sb_userAgent u))),
               Success (au_id a) (Bool True), SetDifficulty (c_sessionDifficulty c)]"
proof -
  have nl: "CHR 0x0A \<notin> set m1" "CHR 0x0A \<notin> set m2"
    using assms(9) by auto
  show ?thesis
    unfolding event_step.simps(1) handshake_subscribe[OF assms(1-3,7) nl(1)] handshake_authorize[OF assms(4-6,8) nl(2)]
    by (simp add: served_session_def start_timers_def Let_def starting_difficulty_fields authorised_fields)
qed

definition subscribe_line :: string where
  "subscribe_line = ''{\"id\":1,\"method\":\"mining.subscribe\",\"params\":[\"bitaxe/BM1370\"]}''"

definition authorize_line :: string where
  "authorize_line = ''{\"id\":2,\"method\":\"mining.authorize\",\"params\":[\"be1q.rig\",\"x\"]}''"

definition subscribe_value :: jsval where
  "subscribe_value =
     Obj [(''params'', Arr [String ''bitaxe/BM1370'']), (''method'', String ''mining.subscribe''), (''id'', Number (Num 1))]"

definition authorize_value :: jsval where
  "authorize_value =
     Obj [(''params'', Arr [String ''be1q.rig'', String ''x'']), (''method'', String ''mining.authorize''), (''id'', Number (Num 2))]"

lemma example_lines: "json_parse subscribe_line = Some subscribe_value" "json_parse authorize_line = Some authorize_value"
  by code_simp+

definition example_subscription :: subscription where
  "example_subscription = \<lparr>sb_id = Number (Num 1), sb_userAgent = ''bitaxe''\<rparr>"

definition rig_authorization :: authorization where
  "rig_authorization =
     \<lparr>au_id = Number (Num 2), au_address = ''be1q'', au_worker = ''rig'', au_startingDiff = None, au_password = Some ''x''\<rparr>"

theorem handshake_completes_witness:
  "let c = fst (event_step (\<lambda>v. []) example_env (Data (authorize_line @ [CHR 0x0A]))
                  (event_step (\<lambda>v. []) example_env (Data (subscribe_line @ [CHR 0x0A])) (new_session [], example_world)))
   in c_stratumInitialized c \<and> c_subscribedToBlocks c \<and>
      map fst (c_backgroundWork c) = [DifficultyTimer, JobTimer, WorkTimer] \<and>
      k_sent (c_socket c) =
        [Success (sb_id example_subscription) (subscription_result (e_randomHex example_env)
           (isHobbyMiner (e_cfg example_env) (sb_userAgent example_subscription))),
         Success (au_id rig_authorization) (Bool True), SetDifficulty (c_sessionDifficulty c)]"
proof (rule handshake_completes[OF example_lines(1) _ _ example_lines(2)])
  show "method_of subscribe_value = Some SUBSCRIBE" "method_of authorize_value = Some AUTHORIZE"
    "parse_subscription subscribe_value = Inr (Valid example_subscription)"
    by code_simp+
  show "parse_authorization (valid_for_network (e_decodes example_env) (e_cfg example_env)) authorize_value =
      Inr (Valid rig_authorization)"
    unfolding example_env_def by code_simp
  show "CHR 0x0A \<notin> set (subscribe_line @ authorize_line)"
    by code_simp
qed (simp_all add: isBlockedUserAgent_def example_env_def or_else_def)

theorem session_always_ok_witness:
  "session_ok (e_cfg example_env) (e_decodes example_env)
     (fst (event_step (\<lambda>v. []) example_env (Data (subscribe_line @ [CHR 0x0A])) (new_session [], example_world)))"
  by (rule session_always_ok, rule runs_to.step[OF runs_to.start]) simp_all

end
