(* ===== verification/VersionRolling.thy ===== *)
theory VersionRolling
  imports StratumSession
begin

unbundle bit_operations_syntax

text \<open>
  The version bits of a job (\<open>sendNewMiningJob\<close>, \<open>ConfigurationMessage\<close>): the pool counts in four bits the
  miner's mask leaves out, so the headers of sixteen consecutive jobs on one template never collide.
\<close>

definition pool_mask :: "32 word" where
  "pool_mask = push_bit 13 (mask 4)"

lemma pool_mask_value: "pool_mask = 0x0001e000" "to_int32 ELEKTRON_POOL_VERSION_BITS_MASK = pool_mask"
  by (simp_all add: pool_mask_def mask_numeral ELEKTRON_POOL_VERSION_BITS_MASK_def)

lemma to_int32_uint [simp]: "to_int32 (of_uint32 w) = w"
  by (simp only: of_uint32_def to_int32.simps js_trunc_int) simp

declare to_int32_int [simp]

lemma mod_16: "i mod 16 = take_bit 4 i" for i :: int
  by (simp add: take_bit_eq_mod)

lemma word_of_int_low: "word_of_int i AND (0xF :: 32 word) = word_of_int (i mod 16)"
proof -
  have "word_of_int i AND (mask 4 :: 32 word) = word_of_int (take_bit 4 i)"
    by (rule bit_word_eqI) (auto simp: bit_simps)
  then show ?thesis
    by (simp add: mask_numeral mod_16)
qed

lemma counter_in_mask: "push_bit 13 (word_of_int (i mod 16)) AND pool_mask = push_bit 13 (word_of_int (i mod 16))"
  unfolding mod_16 pool_mask_def by (rule bit_word_eqI) (auto simp: bit_simps)

lemma rotated_version_word:
  "to_int32 (rotated_version i v) = (to_int32 v AND NOT pool_mask) OR push_bit 13 (word_of_int (i mod 16))"
proof -
  have "to_int32 (js_bitand (IntN i) (Num 15)) = word_of_int (i mod 16)"
    using word_of_int_low[of i] by (simp add: js_bitand_def)
  then have "to_int32 (js_ushr (js_shl (js_bitand (IntN i) (Num 15)) 13) 0) = push_bit 13 (word_of_int (i mod 16))"
    by (simp add: js_ushr_def js_shl_def)
  then show ?thesis
    by (simp add: rotated_version_def js_ushr_def js_bitor_def js_bitand_def js_bitnot_def Let_def
        pool_mask_value(2) counter_in_mask)
qed

lemma rotated_version_mask: "to_int32 (rotated_version i v) AND pool_mask = push_bit 13 (word_of_int (i mod 16))"
  unfolding rotated_version_word mod_16 pool_mask_def by (rule bit_word_eqI) (auto simp: bit_simps)

lemma rotated_version_rest: "to_int32 (rotated_version i v) AND NOT pool_mask = to_int32 v AND NOT pool_mask"
  unfolding rotated_version_word mod_16 pool_mask_def by (rule bit_word_eqI) (auto simp: bit_simps)

text \<open>A roll of the miner that stays in the mask he was told leaves the pool's bits alone.\<close>

definition miner_mask :: "32 word" where
  "miner_mask = to_int32 (parse_int 16 announced_mask)"

lemma masks_disjoint: "miner_mask AND pool_mask = 0"
  by code_simp

lemma rolled_keeps_pool_bits:
  assumes "to_int32 m AND NOT miner_mask = 0"
  shows "to_int32 (rolled_version v m) AND pool_mask = to_int32 v AND pool_mask"
proof -
  have m: "to_int32 m AND pool_mask = 0"
  proof (rule bit_word_eqI)
    fix n assume "n < LENGTH(32)"
    have "bit (to_int32 m) n \<Longrightarrow> bit miner_mask n"
      using arg_cong[OF assms, of "\<lambda>w. bit w n"] \<open>n < LENGTH(32)\<close> by (auto simp: bit_simps)
    moreover have "\<not> (bit miner_mask n \<and> bit pool_mask n)"
      using arg_cong[OF masks_disjoint, of "\<lambda>w. bit w n"] by (auto simp: bit_simps)
    ultimately show "bit (to_int32 m AND pool_mask) n = bit (0 :: 32 word) n"
      by (auto simp: bit_simps)
  qed
  have "to_int32 (rolled_version v m) = to_int32 v XOR to_int32 m \<or> to_int32 (rolled_version v m) = to_int32 v"
    by (simp add: rolled_version_def js_bitxor_def)
  moreover have "(to_int32 v XOR to_int32 m) AND pool_mask = to_int32 v AND pool_mask"
    using m by (simp add: bit.conj_xor_distrib2)
  ultimately show ?thesis
    by auto
qed

lemma counter_injective:
  assumes "push_bit 13 (word_of_int (i mod 16)) = (push_bit 13 (word_of_int (j mod 16)) :: 32 word)"
  shows "i mod 16 = j mod 16"
proof -
  have val: "uint (push_bit 13 (word_of_int (k mod 16)) :: 32 word) = (k mod 16) * 8192" for k :: int
  proof -
    have "(k mod 16) * 8192 < 2 ^ 32" "0 \<le> (k mod 16) * 8192"
      using pos_mod_bound[of 16 k] pos_mod_sign[of 16 k] by simp_all
    moreover have "(push_bit 13 (word_of_int (k mod 16)) :: 32 word) = word_of_int ((k mod 16) * 8192)"
      by (simp add: push_bit_eq_mult)
    ultimately show ?thesis
      by (simp add: word_of_int_inverse uint_word_of_int)
  qed
  show ?thesis
    using arg_cong[OF assms, of uint] unfolding val by simp
qed

text \<open>
  C31. The pool's rotation and the miner's rolling never meet: on one template, a header of a job and a
  header of another job whose counter differs modulo 16 have different versions, whatever bits inside
  the announced mask the miner flips in either; and the rotation changes no other bit of the version.
\<close>

theorem rotated_work_disjoint:
  assumes "to_int32 m AND NOT miner_mask = 0" and "to_int32 m' AND NOT miner_mask = 0" and "i mod 16 \<noteq> j mod 16"
  shows "rolled_version (rotated_version i v) m \<noteq> rolled_version (rotated_version j v) m' \<and>
         to_int32 (rotated_version i v) AND NOT pool_mask = to_int32 v AND NOT pool_mask"
proof -
  have "to_int32 (rolled_version (rotated_version i v) m) AND pool_mask = push_bit 13 (word_of_int (i mod 16))"
    "to_int32 (rolled_version (rotated_version j v) m') AND pool_mask = push_bit 13 (word_of_int (j mod 16))"
    unfolding rolled_keeps_pool_bits[OF assms(1)] rolled_keeps_pool_bits[OF assms(2)] by (rule rotated_version_mask)+
  then show ?thesis
    using counter_injective[of i j] assms(3) rotated_version_rest by metis
qed

theorem rotated_work_disjoint_witness:
  "rolled_version (rotated_version 15 (Num 0x20000000)) (Num 0x1ffe0000) \<noteq>
     rolled_version (rotated_version 16 (Num 0x20000000)) (Num 0x00020000) \<and>
   to_int32 (rotated_version 15 (Num 0x20000000)) AND NOT pool_mask = to_int32 (Num 0x20000000) AND NOT pool_mask"
  by (rule rotated_work_disjoint) code_simp+

end
