(* ===== verification/Simulation.thy ===== *)
theory Simulation
  imports Prelude
begin

text \<open>
  The contract between a component that keeps its own state and the abstract machine it implements:
  under an invariant of the component, every operation commutes with the abstraction. The lemmas
  carry it from one operation to a run of operations.
\<close>

locale simulation =
  fixes inv :: "'s \<Rightarrow> bool" and abstr :: "'s \<Rightarrow> 'a" and step :: "'e \<Rightarrow> 's \<Rightarrow> 's" and spec :: "'e \<Rightarrow> 'a \<Rightarrow> 'a"
  assumes step_inv: "inv s \<Longrightarrow> inv (step e s)"
    and step_commutes: "inv s \<Longrightarrow> abstr (step e s) = spec e (abstr s)"
begin

lemma run_inv: "inv s \<Longrightarrow> inv (fold step es s)"
  by (induction es arbitrary: s) (auto intro: step_inv)

lemma run_commutes: "inv s \<Longrightarrow> abstr (fold step es s) = fold spec es (abstr s)"
  by (induction es arbitrary: s) (simp_all add: step_inv step_commutes)

end

end
