(* ===== verification/StratumServer.thy ===== *)
theory StratumServer
  imports Simulation Config ClientRegistry
begin

text \<open>
  The listeners of the Stratum server and the monitor that stops accepting connections while the
  process is overloaded (\<open>src/services/stratum-v1.service.ts\<close>). \<open>percentile\<close> is the 95th percentile of
  the event loop's delay histogram, in nanoseconds, and the resident memory is what the system
  reports, in bytes. The connections themselves are \<open>StratumClient\<close>.
\<close>

section \<open>State and settings\<close>

record server =
  sv_port :: jsnum
  sv_maxConnections :: jsnum
  sv_dropMaxConnection :: bool

record listener =
  li_port :: jsnum
  li_server :: "server option"
  li_paused :: bool

record stratum_service =
  ss_listeners :: "listener list"
  ss_delays :: "jsnum list"
  ss_monitor :: "jsnum option"
  ss_healthyChecks :: int
  ss_startTimer :: bool

definition new_service :: stratum_service where
  "new_service =
     \<lparr>ss_listeners = [], ss_delays = [], ss_monitor = None, ss_healthyChecks = 0, ss_startTimer = False\<rparr>"

definition getBackpressureCheckIntervalMs :: "config \<Rightarrow> jsnum" where
  "getBackpressureCheckIntervalMs env = getPositiveIntegerEnv env ''STRATUM_BACKPRESSURE_CHECK_INTERVAL_MS'' 5000"

definition getBackpressureEventLoopP95Ms :: "config \<Rightarrow> jsnum" where
  "getBackpressureEventLoopP95Ms env = getPositiveIntegerEnv env ''STRATUM_BACKPRESSURE_EVENT_LOOP_P95_MS'' 2000"

definition getBackpressureResumeEventLoopP95Ms :: "config \<Rightarrow> jsnum" where
  "getBackpressureResumeEventLoopP95Ms env =
     getPositiveIntegerEnv env ''STRATUM_BACKPRESSURE_EVENT_LOOP_RESUME_P95_MS'' 250"

definition getBackpressureRssMb :: "config \<Rightarrow> jsnum" where
  "getBackpressureRssMb env = getPositiveIntegerEnv env ''STRATUM_BACKPRESSURE_RSS_MB'' 2500"

definition getBackpressureResumeRssMb :: "config \<Rightarrow> jsnum" where
  "getBackpressureResumeRssMb env = getPositiveIntegerEnv env ''STRATUM_BACKPRESSURE_RESUME_RSS_MB'' 2000"

definition getBackpressureHealthyChecks :: "config \<Rightarrow> jsnum" where
  "getBackpressureHealthyChecks env = getPositiveIntegerEnv env ''STRATUM_BACKPRESSURE_HEALTHY_CHECKS'' 3"

definition getMaxConnectionsPerListener :: "config \<Rightarrow> jsnum" where
  "getMaxConnectionsPerListener env = getPositiveIntegerEnv env ''STRATUM_MAX_CONNECTIONS_PER_LISTENER'' 10000"

definition getStratumPort :: "config \<Rightarrow> jsnum" where
  "getStratumPort env = getPositiveIntegerEnv env ''STRATUM_PORT'' 3333"

section \<open>Listeners\<close>

definition createSocketServer :: "config \<Rightarrow> jsnum \<Rightarrow> server" where
  "createSocketServer env port =
     \<lparr>sv_port = port, sv_maxConnections = getMaxConnectionsPerListener env, sv_dropMaxConnection = True\<rparr>"

definition listen :: "config \<Rightarrow> listener \<Rightarrow> listener" where
  "listen env l =
     (if li_server l \<noteq> None then l
      else l\<lparr>li_server := Some (createSocketServer env (li_port l)), li_paused := False\<rparr>)"

definition startSocketServer :: "config \<Rightarrow> jsnum \<Rightarrow> stratum_service \<Rightarrow> stratum_service" where
  "startSocketServer env port st =
     st\<lparr>ss_listeners := ss_listeners st @ [listen env \<lparr>li_port = port, li_server = None, li_paused = False\<rparr>]\<rparr>"

definition pauseAccepting :: "stratum_service \<Rightarrow> stratum_service" where
  "pauseAccepting st =
     st\<lparr>ss_listeners := map (\<lambda>l. if li_paused l \<or> li_server l = None then l
                                   else l\<lparr>li_server := None, li_paused := True\<rparr>) (ss_listeners st)\<rparr>"

definition resumeAccepting :: "config \<Rightarrow> stratum_service \<Rightarrow> stratum_service" where
  "resumeAccepting env st =
     st\<lparr>ss_listeners := map (\<lambda>l. if \<not> li_paused l \<or> li_server l \<noteq> None then l else listen env l) (ss_listeners st)\<rparr>"

section \<open>The monitor\<close>

definition startBackpressureMonitor :: "config \<Rightarrow> stratum_service \<Rightarrow> stratum_service" where
  "startBackpressureMonitor env st =
     (if is_backpressure_disabled env \<or> ss_monitor st \<noteq> None then st
      else st\<lparr>ss_monitor := Some (getBackpressureCheckIntervalMs env)\<rparr>)"

definition getEventLoopP95Ms :: "(jsnum list \<Rightarrow> jsnum) \<Rightarrow> jsnum list \<Rightarrow> jsnum" where
  "getEventLoopP95Ms percentile delays = js_round (js_div (percentile delays) (Num 1000000))"

definition rss_mb :: "jsnum \<Rightarrow> jsnum" where
  "rss_mb rss = js_round (js_div (js_div rss (Num 1024)) (Num 1024))"

definition is_overloaded :: "config \<Rightarrow> jsnum \<Rightarrow> jsnum \<Rightarrow> bool" where
  "is_overloaded env p95 mb \<longleftrightarrow> js_ge p95 (getBackpressureEventLoopP95Ms env) \<or> js_ge mb (getBackpressureRssMb env)"

definition is_healthy :: "config \<Rightarrow> jsnum \<Rightarrow> jsnum \<Rightarrow> bool" where
  "is_healthy env p95 mb \<longleftrightarrow>
     js_le p95 (getBackpressureResumeEventLoopP95Ms env) \<and> js_le mb (getBackpressureResumeRssMb env)"

definition checkBackpressure ::
  "config \<Rightarrow> (jsnum list \<Rightarrow> jsnum) \<Rightarrow> jsnum \<Rightarrow> stratum_service \<Rightarrow> stratum_service" where
  "checkBackpressure env percentile rss st =
     (let p95 = getEventLoopP95Ms percentile (ss_delays st);
          mb = rss_mb rss;
          paused = (\<exists>l \<in> set (ss_listeners st). li_paused l);
          reset = (\<lambda>st. st\<lparr>ss_delays := []\<rparr>)
      in if is_overloaded env p95 mb
         then let st1 = st\<lparr>ss_healthyChecks := 0\<rparr> in reset (if paused then st1 else pauseAccepting st1)
         else if \<not> paused then reset st
         else if \<not> is_healthy env p95 mb then reset (st\<lparr>ss_healthyChecks := 0\<rparr>)
         else let st1 = st\<lparr>ss_healthyChecks := ss_healthyChecks st + 1\<rparr>
              in reset (if js_ge (IntN (ss_healthyChecks st1)) (getBackpressureHealthyChecks env)
                        then (resumeAccepting env st1)\<lparr>ss_healthyChecks := 0\<rparr> else st1))"

text \<open>
  The start of the module: the first instance and the master clear the client table, the master opens
  no listener, every other instance opens one ten seconds later and starts the monitor.
\<close>

definition on_module_init :: "config \<Rightarrow> int \<Rightarrow> client_service \<times> stratum_service \<Rightarrow> client_service \<times> stratum_service" where
  "on_module_init env now s =
     (case s of (cl, st) \<Rightarrow>
        (if env ''NODE_APP_INSTANCE'' = Some ''0'' \<or> env ''MASTER'' = Some ''true'' then deleteAll_clients now cl else cl,
         if env ''MASTER'' = Some ''true'' then st
         else startBackpressureMonitor env (st\<lparr>ss_startTimer := True\<rparr>)))"

text \<open>What happens afterwards: the start timer, a sample of the event loop's delay, a check.\<close>

datatype server_event = StartTimer | Delay jsnum | Check jsnum

fun server_step :: "config \<Rightarrow> (jsnum list \<Rightarrow> jsnum) \<Rightarrow> server_event \<Rightarrow> stratum_service \<Rightarrow> stratum_service" where
  "server_step env percentile StartTimer st =
     (if ss_startTimer st then startSocketServer env (getStratumPort env) (st\<lparr>ss_startTimer := False\<rparr>) else st)"
| "server_step env percentile (Delay d) st =
     (if ss_monitor st = None then st else st\<lparr>ss_delays := ss_delays st @ [d]\<rparr>)"
| "server_step env percentile (Check rss) st =
     (if ss_monitor st = None then st else checkBackpressure env percentile rss st)"

section \<open>The gate it implements\<close>

text \<open>
  Abstractly there is one gate for all listeners: it shuts when a check finds the process overloaded and
  opens after the configured number of healthy checks in a row, which any unhealthy check restarts.
\<close>

datatype gate = Accepting | Paused int

definition gate_check :: "config \<Rightarrow> jsnum \<Rightarrow> jsnum \<Rightarrow> gate \<Rightarrow> gate" where
  "gate_check env p95 mb g =
     (if is_overloaded env p95 mb then Paused 0
      else case g of
             Accepting \<Rightarrow> Accepting
           | Paused k \<Rightarrow>
               if \<not> is_healthy env p95 mb then Paused 0
               else if js_ge (IntN (k + 1)) (getBackpressureHealthyChecks env) then Accepting
               else Paused (k + 1))"

fun gate_step :: "config \<Rightarrow> (jsnum list \<Rightarrow> jsnum) \<Rightarrow> server_event \<Rightarrow> gate \<times> jsnum list \<Rightarrow> gate \<times> jsnum list" where
  "gate_step env percentile StartTimer g = g"
| "gate_step env percentile (Delay d) (g, ds) = (g, ds @ [d])"
| "gate_step env percentile (Check rss) (g, ds) =
     (gate_check env (getEventLoopP95Ms percentile ds) (rss_mb rss) g, [])"

definition gate_of :: "stratum_service \<Rightarrow> gate" where
  "gate_of st = (if \<exists>l \<in> set (ss_listeners st). li_paused l then Paused (ss_healthyChecks st) else Accepting)"

text \<open>The invariant: listeners exist and agree, and a listener has its server unless it is paused.\<close>

definition service_ok :: "config \<Rightarrow> jsnum list \<Rightarrow> stratum_service \<Rightarrow> bool" where
  "service_ok env ports st \<longleftrightarrow>
     ports \<noteq> [] \<and> map li_port (ss_listeners st) = ports \<and> ss_monitor st \<noteq> None \<and> \<not> ss_startTimer st \<and>
     (\<forall>l \<in> set (ss_listeners st).
        li_paused l = (gate_of st \<noteq> Accepting) \<and>
        li_server l = (if li_paused l then None else Some (createSocketServer env (li_port l))))"

lemma service_okD:
  assumes "service_ok env ports st" and "l \<in> set (ss_listeners st)"
  shows "li_paused l \<longleftrightarrow> gate_of st \<noteq> Accepting"
    and "li_server l = (if gate_of st = Accepting then Some (createSocketServer env (li_port l)) else None)"
  using assms by (auto simp: service_ok_def)

lemma service_ok_gate:
  assumes "map li_port (ss_listeners st) = ports" and "ports \<noteq> []" and "ss_monitor st \<noteq> None" and "\<not> ss_startTimer st"
    and "\<And>l. l \<in> set (ss_listeners st) \<Longrightarrow>
           li_paused l = p \<and> li_server l = (if p then None else Some (createSocketServer env (li_port l)))"
  shows "service_ok env ports st \<and> gate_of st = (if p then Paused (ss_healthyChecks st) else Accepting)"
proof -
  have "ss_listeners st \<noteq> []"
    using assms(1,2) by auto
  then obtain l where "l \<in> set (ss_listeners st)"
    by (cases "ss_listeners st") auto
  then have g: "gate_of st = (if p then Paused (ss_healthyChecks st) else Accepting)"
    using assms(5) by (auto simp: gate_of_def)
  then show ?thesis
    using assms by (auto simp: service_ok_def)
qed

lemma check_gate:
  fixes rss :: jsnum and percentile :: "jsnum list \<Rightarrow> jsnum"
  assumes "service_ok env ports st"
  defines "st' \<equiv> checkBackpressure env percentile rss st"
  shows "service_ok env ports st' \<and>
         (gate_of st', ss_delays st') = gate_step env percentile (Check rss) (gate_of st, ss_delays st)"
proof -
  let ?o = "is_overloaded env (getEventLoopP95Ms percentile (ss_delays st)) (rss_mb rss)"
  let ?h = "is_healthy env (getEventLoopP95Ms percentile (ss_delays st)) (rss_mb rss)"
  let ?n = "js_ge (IntN (ss_healthyChecks st + 1)) (getBackpressureHealthyChecks env)"
  define p where "p = (if ?o then True else gate_of st \<noteq> Accepting \<and> \<not> (?h \<and> ?n))"
  have ok: "map li_port (ss_listeners st) = ports" "ports \<noteq> []" "ss_monitor st \<noteq> None" "\<not> ss_startTimer st"
    using assms(1) by (auto simp: service_ok_def)
  note d = service_okD[OF assms(1)]
  have g: "gate_of st = (if gate_of st = Accepting then Accepting else Paused (ss_healthyChecks st))"
    by (auto simp: gate_of_def)
  have paused: "(\<exists>l \<in> set (ss_listeners st). li_paused l) \<longleftrightarrow> gate_of st \<noteq> Accepting"
    by (auto simp: gate_of_def)
  have "service_ok env ports st' \<and> gate_of st' = (if p then Paused (ss_healthyChecks st') else Accepting)"
    unfolding st'_def
    by (rule service_ok_gate)
      (use ok in \<open>auto simp: checkBackpressure_def Let_def paused p_def d pauseAccepting_def resumeAccepting_def listen_def o_def
        cong: map_cong split: if_splits\<close>)
  moreover have "ss_delays st' = []"
    by (simp add: st'_def checkBackpressure_def Let_def)
  moreover have "p \<Longrightarrow> ss_healthyChecks st' = (if ?o \<or> \<not> ?h then 0 else ss_healthyChecks st + 1)"
    by (auto simp: st'_def checkBackpressure_def Let_def p_def paused pauseAccepting_def)
  ultimately show ?thesis
    by (subst g) (auto simp: gate_check_def p_def)
qed

text \<open>Every step of a started service is a step of the gate; the sampled delays are the same on both sides.\<close>

definition gate_view :: "stratum_service \<Rightarrow> gate \<times> jsnum list" where
  "gate_view st = (gate_of st, ss_delays st)"

lemma server_step_gate:
  assumes "service_ok env ports st"
  shows "service_ok env ports (server_step env percentile e st) \<and>
         gate_view (server_step env percentile e st) = gate_step env percentile e (gate_view st)"
proof (cases e)
  case (Check rss)
  then show ?thesis
    using check_gate[OF assms, of percentile rss] assms by (auto simp: gate_view_def service_ok_def)
next
  case (Delay d)
  have g: "gate_of (st\<lparr>ss_delays := ds\<rparr>) = gate_of st" for ds
    by (simp add: gate_of_def)
  have "service_ok env ports (st\<lparr>ss_delays := ss_delays st @ [d]\<rparr>)"
    using assms by (simp add: service_ok_def g)
  then show ?thesis
    using Delay assms by (simp add: gate_view_def g service_ok_def)
next
  case StartTimer
  then show ?thesis
    using assms by (simp add: service_ok_def)
qed

interpretation backpressure: simulation "service_ok env ports" gate_view "server_step env percentile" "gate_step env percentile"
  for env ports percentile
  by unfold_locales (simp_all add: server_step_gate)

definition started_service :: "config \<Rightarrow> (jsnum list \<Rightarrow> jsnum) \<Rightarrow> int \<Rightarrow> client_service \<Rightarrow> stratum_service" where
  "started_service env percentile now cl =
     server_step env percentile StartTimer (snd (on_module_init env now (cl, new_service)))"

lemma started_service_ok:
  assumes "env ''MASTER'' \<noteq> Some ''true''" and "\<not> is_backpressure_disabled env"
  shows "service_ok env [getStratumPort env] (started_service env percentile now cl)"
    and "gate_view (started_service env percentile now cl) = (Accepting, [])"
  using assms
  by (simp_all add: started_service_def on_module_init_def startBackpressureMonitor_def startSocketServer_def listen_def
      new_service_def service_ok_def gate_view_def gate_of_def)

text \<open>
  C33. The listener of a started worker implements the gate: after any sequence of delay samples and
  checks there is still exactly one listener, on the configured port; it has a server, with the
  configured limit of connections, exactly when the gate that looks only at the samples and the
  memory accepts.
\<close>

theorem server_refines_gate:
  assumes "env ''MASTER'' \<noteq> Some ''true''" and "\<not> is_backpressure_disabled env"
  shows "let run = fold (server_step env percentile) es (started_service env percentile now cl)
         in gate_view run = fold (gate_step env percentile) es (Accepting, []) \<and>
            map (\<lambda>l. (li_port l, li_server l)) (ss_listeners run) =
              [(getStratumPort env, if gate_of run = Accepting
                                    then Some (createSocketServer env (getStratumPort env)) else None)]"
proof -
  let ?run = "fold (server_step env percentile) es (started_service env percentile now cl)"
  note ok = started_service_ok[OF assms, of percentile now cl]
  have r: "service_ok env [getStratumPort env] ?run"
    by (rule backpressure.run_inv[OF ok(1)])
  then have "map li_port (ss_listeners ?run) = [getStratumPort env]"
    by (simp add: service_ok_def)
  then obtain l where "ss_listeners ?run = [l]" "li_port l = getStratumPort env"
    by auto
  then show ?thesis
    using service_okD[OF r, of l] backpressure.run_commutes[OF ok(1), of percentile es]
    by (simp add: ok(2))
qed

text \<open>A round of the monitor is calm if its check is healthy; enough calm rounds in a row open the gate.\<close>

definition calm :: "config \<Rightarrow> (jsnum list \<Rightarrow> jsnum) \<Rightarrow> jsnum list \<times> jsnum \<Rightarrow> bool" where
  "calm env percentile r \<longleftrightarrow>
     \<not> is_overloaded env (getEventLoopP95Ms percentile (fst r)) (rss_mb (snd r)) \<and>
     is_healthy env (getEventLoopP95Ms percentile (fst r)) (rss_mb (snd r))"

definition round_events :: "jsnum list \<times> jsnum \<Rightarrow> server_event list" where
  "round_events r = map Delay (fst r) @ [Check (snd r)]"

lemma gate_delays: "fold (gate_step env percentile) (map Delay ds) (g, xs) = (g, xs @ ds)"
  by (induction ds arbitrary: xs) simp_all

lemma calm_round:
  "calm env percentile r \<Longrightarrow>
     fold (gate_step env percentile) (round_events r) (g, []) =
       (case g of Accepting \<Rightarrow> Accepting
        | Paused k \<Rightarrow> if js_ge (IntN (k + 1)) (getBackpressureHealthyChecks env) then Accepting else Paused (k + 1), [])"
  by (simp add: round_events_def gate_delays gate_check_def calm_def split: gate.split)

lemma calm_rounds_stay_open:
  "list_all (calm env percentile) rs \<Longrightarrow>
     fold (gate_step env percentile) (concat (map round_events rs)) (Accepting, []) = (Accepting, [])"
  by (induction rs) (simp_all add: calm_round)

lemma calm_rounds_open:
  assumes "getBackpressureHealthyChecks env = IntN m" and "list_all (calm env percentile) rs"
    and "m \<le> k + int (length rs)" and "rs \<noteq> []"
  shows "fold (gate_step env percentile) (concat (map round_events rs)) (Paused k, []) = (Accepting, [])"
  using assms(2-)
proof (induction rs arbitrary: k)
  case (Cons r rs)
  then show ?case
    using Cons.IH[of "k + 1"] calm_rounds_stay_open[of env percentile rs]
    by (cases rs) (auto simp: calm_round assms(1) simp del: of_int_add)
qed simp

definition gate_nonneg :: "gate \<times> jsnum list \<Rightarrow> bool" where
  "gate_nonneg g \<longleftrightarrow> (case fst g of Accepting \<Rightarrow> True | Paused k \<Rightarrow> 0 \<le> k)"

lemma gate_step_nonneg: "gate_nonneg g \<Longrightarrow> gate_nonneg (gate_step env percentile e g)"
  by (cases e; cases g) (auto simp: gate_nonneg_def gate_check_def split: gate.splits)

text \<open>
  Overload never shuts a worker out for good: after any history that ends with a check, once as many
  calm rounds as configured follow each other, the listener has its server again.
\<close>

theorem calm_rounds_reopen:
  assumes "env ''MASTER'' \<noteq> Some ''true''" and "\<not> is_backpressure_disabled env"
    and "getBackpressureHealthyChecks env = IntN m" and "m \<le> int (length rs)"
    and "list_all (calm env percentile) rs"
  shows "map li_server (ss_listeners
           (fold (server_step env percentile) (es @ Check rss # concat (map round_events rs))
              (started_service env percentile now cl))) =
         [Some (createSocketServer env (getStratumPort env))]"
proof -
  let ?run = "fold (server_step env percentile) (es @ Check rss # concat (map round_events rs))
                (started_service env percentile now cl)"
  note ok = started_service_ok[OF assms(1,2), of percentile now cl]
  have "positive_integer (getBackpressureHealthyChecks env)"
    by (simp add: getBackpressureHealthyChecks_def getPositiveIntegerEnv_def positive_setting_positive)
  then have ne: "rs \<noteq> []"
    using assms(3,4) by auto
  let ?g = "fold (gate_step env percentile) (es @ [Check rss]) (Accepting, [])"
  have "gate_nonneg ?g"
    by (rule fold_invariant[where Q = "\<lambda>_. True"]) (simp, simp add: gate_nonneg_def, rule gate_step_nonneg)
  moreover have "snd ?g = []"
    by (cases "fold (gate_step env percentile) es (Accepting, [])") simp
  ultimately have "fold (gate_step env percentile) (concat (map round_events rs)) ?g = (Accepting, [])"
    using calm_rounds_open[OF assms(3,5) _ ne] calm_rounds_stay_open[OF assms(5)] assms(4)
    by (cases ?g; cases "fst ?g") (auto simp: gate_nonneg_def)
  then have "gate_of ?run = Accepting"
    using backpressure.run_commutes[OF ok(1), of percentile "es @ Check rss # concat (map round_events rs)"]
    by (simp add: gate_view_def ok(2)[unfolded gate_view_def])
  moreover have r: "service_ok env [getStratumPort env] ?run"
    by (rule backpressure.run_inv[OF ok(1)])
  ultimately show ?thesis
    using service_okD(2)[OF r] by (auto simp: service_ok_def)
qed

section \<open>Examples\<close>

text \<open>A worker with the default settings and a system whose event loop is never late.\<close>

definition no_delay :: "jsnum list \<Rightarrow> jsnum" where
  "no_delay ds = Num 0"

lemma default_settings:
  "(\<lambda>k. None) ''MASTER'' \<noteq> Some ''true''" "\<not> is_backpressure_disabled (\<lambda>k. None)"
  "getBackpressureHealthyChecks (\<lambda>k. None) = IntN 3"
  by (simp_all add: is_backpressure_disabled_def getBackpressureHealthyChecks_def getPositiveIntegerEnv_def
      positive_setting_def parse_int_opt_def)

lemma default_calm: "calm (\<lambda>k. None) no_delay ([], Num 0)"
  by code_simp

theorem server_refines_gate_witness:
  "let run = fold (server_step (\<lambda>k. None) no_delay) [Delay (Num 5), Check (Num 3000000000)]
               (started_service (\<lambda>k. None) no_delay 0 new_client_service)
   in gate_view run = fold (gate_step (\<lambda>k. None) no_delay) [Delay (Num 5), Check (Num 3000000000)] (Accepting, []) \<and>
      map (\<lambda>l. (li_port l, li_server l)) (ss_listeners run) =
        [(getStratumPort (\<lambda>k. None), if gate_of run = Accepting
            then Some (createSocketServer (\<lambda>k. None) (getStratumPort (\<lambda>k. None))) else None)]"
  by (rule server_refines_gate[OF default_settings(1,2)])

theorem calm_rounds_reopen_witness:
  "map li_server (ss_listeners
     (fold (server_step (\<lambda>k. None) no_delay)
        ([] @ Check (Num 3000000000) # concat (map round_events (replicate 3 ([], Num 0))))
        (started_service (\<lambda>k. None) no_delay 0 new_client_service))) =
   [Some (createSocketServer (\<lambda>k. None) (getStratumPort (\<lambda>k. None)))]"
  by (rule calm_rounds_reopen[OF default_settings]) (simp_all add: default_calm numeral_3_eq_3)

end
