(* ===== verification/Login.thy ===== *)
theory Login
  imports MinerAccountSettings NodeRpc
begin

text \<open>
  Logging in to the account settings (\<open>src/auth\<close>): the store of pending challenges, the two proofs of an
  address, the token, and the guard in front of the settings. The libraries are arguments:
  \<open>l_verify\<close> is \<open>bitcoinjs-message\<close>, \<open>l_sign\<close> and \<open>l_decode\<close> are the JWT service, and the node answers
  the scan of the UTXO set. Random values and the clock belong to the events.
\<close>

section \<open>Challenges\<close>

record challenge =
  ch_nonce :: string
  ch_requiredAmountSats :: int
  ch_expiresAt :: int

type_synonym challenge_store = "string \<Rightarrow> challenge option"

definition CHALLENGE_TTL_MS :: int where
  "CHALLENGE_TTL_MS = 30 * 60 * 1000"

text \<open>\<open>nonce\<close> and \<open>n\<close> are what \<open>randomBytes\<close> and \<open>randomInt(99000)\<close> return.\<close>

definition new_challenge :: "int \<Rightarrow> string \<Rightarrow> int \<Rightarrow> challenge" where
  "new_challenge now nonce n =
     \<lparr>ch_nonce = nonce, ch_requiredAmountSats = 1000 + n, ch_expiresAt = now + CHALLENGE_TTL_MS\<rparr>"

definition issue :: "int \<Rightarrow> string \<Rightarrow> int \<Rightarrow> string \<Rightarrow> challenge_store \<Rightarrow> challenge_store" where
  "issue now nonce n address store = store(address \<mapsto> new_challenge now nonce n)"

definition peek :: "int \<Rightarrow> string \<Rightarrow> challenge_store \<Rightarrow> challenge_store \<times> challenge option" where
  "peek now address store =
     (case store address of
        None \<Rightarrow> (store, None)
      | Some c \<Rightarrow> if ch_expiresAt c < now then (store(address := None), None) else (store, Some c))"

definition consume :: "string \<Rightarrow> challenge_store \<Rightarrow> challenge_store" where
  "consume address store = store(address := None)"

section \<open>The service\<close>

definition unauthorized :: "string \<Rightarrow> js_error" where
  "unauthorized m = \<lparr>err_code = Some 401, err_message = Some m\<rparr>"

definition NO_CHALLENGE :: string where
  "NO_CHALLENGE = ''No pending login challenge for this address (it may have expired) -- request a new one''"

definition error_text :: "js_error \<Rightarrow> string" where
  "error_text e = (case err_message e of None \<Rightarrow> ''[object Object]'' | Some m \<Rightarrow> m)"

definition no_payment :: "challenge \<Rightarrow> string \<Rightarrow> string" where
  "no_payment c address = ''No matching on-chain payment seen yet. Send yourself (self-send) exactly '' @
     dec_string (ch_requiredAmountSats c) @ '' lep from '' @ address @ '', wait for it to confirm, then try again.''"

record login_lib =
  l_verify :: "string \<Rightarrow> string \<Rightarrow> string \<Rightarrow> bool fallible"
  l_sign :: "string \<Rightarrow> string \<Rightarrow> int \<Rightarrow> string"
  l_decode :: "string \<Rightarrow> string \<Rightarrow> int \<Rightarrow> string fallible"

text \<open>A secret that is missing or too short stops the server at its start.\<close>

definition auth_module_init :: "config \<Rightarrow> unit fallible" where
  "auth_module_init cfg = fbind (getJwtSecret cfg) (\<lambda>secret. Inr ())"

definition buildMessage :: "string \<Rightarrow> string \<Rightarrow> string" where
  "buildMessage address nonce =
     ''Sign this message to log in to the Elektron Net PPLNS Pool.'' @ [CHR 0x0A, CHR 0x0A] @
     ''Address: '' @ address @ [CHR 0x0A] @ ''Nonce: '' @ nonce @ [CHR 0x0A, CHR 0x0A] @
     ''This request will not move any funds.''"

definition issueToken :: "login_lib \<Rightarrow> config \<Rightarrow> int \<Rightarrow> string \<Rightarrow> string fallible" where
  "issueToken lib cfg now address = fbind (getJwtSecret cfg) (\<lambda>secret. Inr (l_sign lib secret address now))"

definition createChallenge ::
  "int \<Rightarrow> string \<Rightarrow> int \<Rightarrow> string \<Rightarrow> challenge_store \<Rightarrow> challenge_store \<times> string \<times> string \<times> int" where
  "createChallenge now nonce n address store =
     (let c = new_challenge now nonce n
      in (issue now nonce n address store, buildMessage address (ch_nonce c), address, ch_requiredAmountSats c))"

definition login ::
  "login_lib \<Rightarrow> config \<Rightarrow> int \<Rightarrow> string \<Rightarrow> string \<Rightarrow> challenge_store \<Rightarrow> challenge_store \<times> string fallible" where
  "login lib cfg now address signature store =
     (case peek now address store of
        (store1, None) \<Rightarrow> (store1, Inl (unauthorized NO_CHALLENGE))
      | (store1, Some c) \<Rightarrow>
          (case l_verify lib (buildMessage address (ch_nonce c)) address signature of
             Inl e \<Rightarrow> (store1, Inl (unauthorized (''Invalid signature: '' @ error_text e)))
           | Inr valid \<Rightarrow>
               if \<not> valid then (store1, Inl (unauthorized ''Signature does not match address''))
               else (consume address store1, issueToken lib cfg now address)))"

text \<open>
  The on-chain login waits for the node between looking up the challenge and using it, so it is two
  steps; other requests may come between them.
\<close>

definition loginOnChain_begin :: "int \<Rightarrow> string \<Rightarrow> challenge_store \<Rightarrow> challenge_store \<times> challenge fallible" where
  "loginOnChain_begin now address store =
     (case peek now address store of
        (store1, None) \<Rightarrow> (store1, Inl (unauthorized NO_CHALLENGE))
      | (store1, Some c) \<Rightarrow> (store1, Inr c))"

definition loginOnChain_end ::
  "login_lib \<Rightarrow> config \<Rightarrow> int \<Rightarrow> string \<Rightarrow> challenge \<Rightarrow> bool fallible \<Rightarrow> challenge_store \<Rightarrow> challenge_store \<times> string fallible" where
  "loginOnChain_end lib cfg now address c found store =
     (case found of
        Inl e \<Rightarrow> (store, Inl e)
      | Inr f \<Rightarrow>
          if \<not> f then (store, Inl (unauthorized (no_payment c address)))
          else (consume address store, issueToken lib cfg now address))"

section \<open>The guard\<close>

definition canActivate ::
  "login_lib \<Rightarrow> config \<Rightarrow> int \<Rightarrow> string option \<Rightarrow> string option \<Rightarrow> string fallible" where
  "canActivate lib cfg now authHeader routeAddress =
     (case authHeader of
        None \<Rightarrow> Inl (unauthorized ''Missing Bearer token'')
      | Some h \<Rightarrow>
          if \<not> starts_with ''Bearer '' h then Inl (unauthorized ''Missing Bearer token'')
          else case fbind (getJwtSecret cfg) (\<lambda>secret. l_decode lib secret (drop 7 h) now) of
                 Inl e \<Rightarrow> Inl (unauthorized (''Invalid or expired token: '' @ error_text e))
               | Inr sub \<Rightarrow>
                   if routeAddress \<noteq> None \<and> routeAddress \<noteq> Some sub
                   then Inl (unauthorized ''Token does not grant access to this address'')
                   else Inr sub)"

section \<open>Requests\<close>

text \<open>
  The bodies are validated first (\<open>IsString\<close>, \<open>IsNotEmpty\<close>). \<open>OnChainRequest\<close> starts a poll and
  \<open>OnChainScan\<close> is the node's answer to a waiting one.
\<close>

definition text_field :: "string \<Rightarrow> jsval \<Rightarrow> string fallible" where
  "text_field k body =
     (case jprop k body of
        String s \<Rightarrow> if s = [] then Inl (mk_error ''Bad Request'') else Inr s
      | _ \<Rightarrow> Inl (mk_error ''Bad Request''))"

datatype request =
    ChallengeRequest int string int jsval
  | LoginRequest int jsval
  | OnChainRequest int jsval
  | OnChainScan int string challenge
  | SettingsGet int string "string option"
  | SettingsPatch int string "string option" jsval

datatype response =
    Challenged string string int
  | Waiting string challenge
  | AccessToken string string
  | Settings settings_view
  | Refused js_error

record 'w account_state =
  ac_store :: challenge_store
  ac_waiting :: "(string \<times> challenge) list"
  ac_settings :: settings_table
  ac_node :: "node_client \<times> 'w"

definition token_answer :: "string \<Rightarrow> string fallible \<Rightarrow> response" where
  "token_answer address r = (case r of Inl e \<Rightarrow> Refused e | Inr t \<Rightarrow> AccessToken address t)"

definition challenge_request :: "int \<Rightarrow> string \<Rightarrow> int \<Rightarrow> jsval \<Rightarrow> 'w account_state \<Rightarrow> 'w account_state \<times> response" where
  "challenge_request now nonce n body s =
     (case text_field ''address'' body of
        Inl e \<Rightarrow> (s, Refused e)
      | Inr address \<Rightarrow>
          (case createChallenge now nonce n address (ac_store s) of
             (store, message, a, amount) \<Rightarrow> (s\<lparr>ac_store := store\<rparr>, Challenged message a amount)))"

definition login_request :: "login_lib \<Rightarrow> config \<Rightarrow> int \<Rightarrow> jsval \<Rightarrow> 'w account_state \<Rightarrow> 'w account_state \<times> response" where
  "login_request lib cfg now body s =
     (case (text_field ''address'' body, text_field ''signature'' body) of
        (Inr address, Inr signature) \<Rightarrow>
          (case login lib cfg now address signature (ac_store s) of
             (store, r) \<Rightarrow> (s\<lparr>ac_store := store\<rparr>, token_answer address r))
      | _ \<Rightarrow> (s, Refused (mk_error ''Bad Request'')))"

definition on_chain_request :: "int \<Rightarrow> jsval \<Rightarrow> 'w account_state \<Rightarrow> 'w account_state \<times> response" where
  "on_chain_request now body s =
     (case text_field ''address'' body of
        Inl e \<Rightarrow> (s, Refused e)
      | Inr address \<Rightarrow>
          (case loginOnChain_begin now address (ac_store s) of
             (store, Inl e) \<Rightarrow> (s\<lparr>ac_store := store\<rparr>, Refused e)
           | (store, Inr c) \<Rightarrow>
               (s\<lparr>ac_store := store, ac_waiting := ac_waiting s @ [(address, c)]\<rparr>, Waiting address c)))"

definition on_chain_scan ::
  "'w node \<Rightarrow> login_lib \<Rightarrow> config \<Rightarrow> int \<Rightarrow> string \<Rightarrow> challenge \<Rightarrow> 'w account_state \<Rightarrow> 'w account_state \<times> response" where
  "on_chain_scan post lib cfg now address c s =
     (case scanAddressForAmountSats post address (IntN (ch_requiredAmountSats c)) (ac_node s) of
        (nd, found) \<Rightarrow>
          (case loginOnChain_end lib cfg now address c found (ac_store s) of
             (store, r) \<Rightarrow>
               (s\<lparr>ac_store := store, ac_waiting := remove1 (address, c) (ac_waiting s), ac_node := nd\<rparr>,
                token_answer address r)))"

definition guarded ::
  "login_lib \<Rightarrow> config \<Rightarrow> int \<Rightarrow> string \<Rightarrow> string option \<Rightarrow> ('w account_state \<Rightarrow> 'w account_state \<times> response) \<Rightarrow>
     'w account_state \<Rightarrow> 'w account_state \<times> response" where
  "guarded lib cfg now address header f s =
     (case canActivate lib cfg now header (Some address) of Inl e \<Rightarrow> (s, Refused e) | Inr sub \<Rightarrow> f s)"

definition patch_settings :: "config \<Rightarrow> string \<Rightarrow> jsval \<Rightarrow> 'w account_state \<Rightarrow> 'w account_state \<times> response" where
  "patch_settings cfg address body s =
     (case updateSettings cfg address body (ac_settings s) of
        (t, Inl e) \<Rightarrow> (s\<lparr>ac_settings := t\<rparr>, Refused e)
      | (t, Inr v) \<Rightarrow> (s\<lparr>ac_settings := t\<rparr>, Settings v))"

fun serve :: "'w node \<Rightarrow> login_lib \<Rightarrow> config \<Rightarrow> request \<Rightarrow> 'w account_state \<Rightarrow> 'w account_state \<times> response" where
  "serve post lib cfg (ChallengeRequest now nonce n body) s = challenge_request now nonce n body s"
| "serve post lib cfg (LoginRequest now body) s = login_request lib cfg now body s"
| "serve post lib cfg (OnChainRequest now body) s = on_chain_request now body s"
| "serve post lib cfg (OnChainScan now address c) s =
     (if (address, c) \<in> set (ac_waiting s) then on_chain_scan post lib cfg now address c s
      else (s, Refused (mk_error ''not waiting'')))"
| "serve post lib cfg (SettingsGet now address header) s =
     guarded lib cfg now address header (\<lambda>s. (s, Settings (get_account_settings cfg address (ac_settings s)))) s"
| "serve post lib cfg (SettingsPatch now address header body) s =
     guarded lib cfg now address header (patch_settings cfg address body) s"

text \<open>A history is the list of requests with their answers, the latest last.\<close>

inductive served ::
  "'w node \<Rightarrow> login_lib \<Rightarrow> config \<Rightarrow> 'w account_state \<Rightarrow> (request \<times> response) list \<Rightarrow> 'w account_state \<Rightarrow> bool"
  for post lib cfg s0 where
  start: "served post lib cfg s0 [] s0"
| step: "served post lib cfg s0 tr s \<Longrightarrow> serve post lib cfg rq s = (s', rs) \<Longrightarrow>
           served post lib cfg s0 (tr @ [(rq, rs)]) s'"

section \<open>What a token proves\<close>





definition fresh_accounts :: "'w account_state \<Rightarrow> bool" where
  "fresh_accounts s \<longleftrightarrow> ac_store s = (\<lambda>a. None) \<and> ac_waiting s = []"

























text \<open>
  C37. The on-chain proof shows no control of the address: if nobody can sign for any address, but the UTXO
  set holds an output of the challenge's amount at \<open>v\<close>, whoever paid it, three requests that use no secret
  end with a token for \<open>v\<close>. The scan looks at amounts only, and anyone can ask for the challenge and
  send the amount to \<open>v\<close>.
\<close>

theorem onchain_login_needs_no_key:
  assumes "\<And>m a sg. l_verify lib m a sg = Inr False" and "fresh_accounts s0" and "v \<noteq> []"
    and "snd (scanAddressForAmountSats post v (IntN (1000 + n)) (ac_node s0)) = Inr True"
    and "getJwtSecret cfg = Inr secret" and "t1 \<le> t0 + CHALLENGE_TTL_MS"
  shows "\<exists>tr s. served post lib cfg s0 tr s \<and>
           map fst tr = [ChallengeRequest t0 nonce n (Obj [(''address'', String v)]),
                         OnChainRequest t1 (Obj [(''address'', String v)]),
                         OnChainScan t2 v (new_challenge t0 nonce n)] \<and>
           snd (last tr) = AccessToken v (l_sign lib secret v t2)"
proof -
  let ?c = "new_challenge t0 nonce n" and ?body = "Obj [(''address'', String v)]"
  define s1 where "s1 = s0\<lparr>ac_store := (ac_store s0)(v \<mapsto> ?c)\<rparr>"
  define s2 where "s2 = s1\<lparr>ac_waiting := [(v, ?c)]\<rparr>"
  have w: "ac_waiting s0 = []"
    using assms(2) by (simp add: fresh_accounts_def)
  have addr_field: "text_field ''address'' ?body = Inr v"
    using assms(3) by (simp add: text_field_def)
  have 1: "serve post lib cfg (ChallengeRequest t0 nonce n ?body) s0 =
             (s1, Challenged (buildMessage v nonce) v (1000 + n))"
    by (simp add: challenge_request_def addr_field createChallenge_def issue_def Let_def s1_def)
      (simp add: new_challenge_def)
  have 2: "serve post lib cfg (OnChainRequest t1 ?body) s1 = (s2, Waiting v ?c)"
    using assms(6) by (simp add: on_chain_request_def addr_field loginOnChain_begin_def peek_def s1_def s2_def w)
      (simp add: new_challenge_def)
  obtain nd where nd: "scanAddressForAmountSats post v (IntN (1000 + n)) (ac_node s2) = (nd, Inr True)"
    using assms(4) by (cases "scanAddressForAmountSats post v (IntN (1000 + n)) (ac_node s0)") (simp add: s1_def s2_def)
  have amount: "ch_requiredAmountSats ?c = 1000 + n"
    by (simp add: new_challenge_def)
  define s3 where "s3 = s2\<lparr>ac_store := consume v (ac_store s2), ac_waiting := remove1 (v, ?c) (ac_waiting s2), ac_node := nd\<rparr>"
  have "on_chain_scan post lib cfg t2 v ?c s2 = (s3, AccessToken v (l_sign lib secret v t2))"
    by (simp add: on_chain_scan_def amount nd loginOnChain_end_def token_answer_def issueToken_def fbind_def assms(5) s3_def
        del: of_int_add)
  then have 3: "serve post lib cfg (OnChainScan t2 v ?c) s2 = (s3, AccessToken v (l_sign lib secret v t2))"
    by (simp add: s2_def)
  have "served post lib cfg s0 ((([] @ [(ChallengeRequest t0 nonce n ?body, Challenged (buildMessage v nonce) v (1000 + n))]) @
          [(OnChainRequest t1 ?body, Waiting v ?c)]) @
          [(OnChainScan t2 v ?c, AccessToken v (l_sign lib secret v t2))]) s3"
    by (rule served.step[OF served.step[OF served.step[OF served.start 1] 2] 3])
  then show ?thesis
    by (intro exI conjI) (assumption, simp_all)
qed

section \<open>Examples\<close>

definition example_secret :: config where
  "example_secret k = (if k = ''JWT_SECRET'' then Some ''0123456789abcdef'' else None)"

definition example_lib :: login_lib where
  "example_lib =
     \<lparr>l_verify = (\<lambda>m a sg. Inr (sg = ''sig'')), l_sign = (\<lambda>secret a now. ''t:'' @ a),
      l_decode = (\<lambda>secret tok now. if tok = ''t:a'' then Inr ''a'' else Inl (mk_error ''invalid token''))\<rparr>"

definition keyless_lib :: login_lib where
  "keyless_lib = example_lib\<lparr>l_verify := (\<lambda>m a sg. Inr False)\<rparr>"

text \<open>A node whose UTXO set holds one output of 0.0005 coins at every address.\<close>

definition paid_node :: "unit node" where
  "paid_node req w =
     (w, Inr (Obj [(''result'', Obj [(''success'', Bool True),
                     (''unspents'', Arr [Obj [(''amount'', Number (fl (5 / 10000)))]])])]))"

definition example_accounts :: "unit account_state" where
  "example_accounts =
     \<lparr>ac_store = (\<lambda>a. None), ac_waiting = [], ac_settings = [], ac_node = (node_client_init, ())\<rparr>"



fun serve_all ::
  "'w node \<Rightarrow> login_lib \<Rightarrow> config \<Rightarrow> request list \<Rightarrow> 'w account_state \<Rightarrow> (request \<times> response) list \<times> 'w account_state" where
  "serve_all post lib cfg [] s = ([], s)"
| "serve_all post lib cfg (rq # rqs) s =
     (case serve post lib cfg rq s of (s1, rs) \<Rightarrow>
        (case serve_all post lib cfg rqs s1 of (tr, s2) \<Rightarrow> ((rq, rs) # tr, s2)))"






theorem onchain_login_needs_no_key_witness:
  "\<exists>tr s. served paid_node keyless_lib example_secret example_accounts tr s \<and>
     map fst tr = [ChallengeRequest 0 ''n'' 49000 (Obj [(''address'', String ''victim'')]),
                   OnChainRequest 60000 (Obj [(''address'', String ''victim'')]),
                   OnChainScan 60500 ''victim'' (new_challenge 0 ''n'' 49000)] \<and>
     snd (last tr) = AccessToken ''victim'' (l_sign keyless_lib ''0123456789abcdef'' ''victim'' 60500)"
proof (rule onchain_login_needs_no_key)
  show "snd (scanAddressForAmountSats paid_node ''victim'' (IntN (1000 + 49000)) (ac_node example_accounts)) = Inr True"
    by code_simp
qed (simp_all add: keyless_lib_def fresh_accounts_def example_accounts_def getJwtSecret_def example_secret_def CHALLENGE_TTL_MS_def)

text \<open>
  Two polls that wait for the node at the same time both succeed: one challenge yields two tokens, and
  the second deletes whatever challenge was requested meanwhile.
\<close>

lemma one_challenge_two_tokens:
  "map snd (fst (serve_all paid_node example_lib example_secret
     [ChallengeRequest 0 ''n'' 49000 (Obj [(''address'', String ''a'')]),
      OnChainRequest 1000 (Obj [(''address'', String ''a'')]),
      OnChainRequest 1000 (Obj [(''address'', String ''a'')]),
      OnChainScan 2000 ''a'' (new_challenge 0 ''n'' 49000),
      OnChainScan 2000 ''a'' (new_challenge 0 ''n'' 49000)] example_accounts)) =
   [Challenged (buildMessage ''a'' ''n'') ''a'' 50000, Waiting ''a'' (new_challenge 0 ''n'' 49000),
    Waiting ''a'' (new_challenge 0 ''n'' 49000), AccessToken ''a'' ''t:a'', AccessToken ''a'' ''t:a'']"
  by code_simp

end
