(* ===== verification/TelegramBot.thy ===== *)
theory TelegramBot
  imports Effects JsValue PayoutLedger Config
begin

text \<open>
  The Telegram bot (\<open>src/services/telegram.service.ts\<close>), its table of subscriptions
  (\<open>src/ORM/telegram-subscriptions\<close>), the notifications of the Discord bot and the service in front of
  both. Telegram answers the polls with JSON; whether a message is delivered is decided by
  \<open>tb_refused\<close>, the chats whose messages it refuses (they have blocked the bot) with the HTTP status of the refusal. \<open>decodes\<close> is \<open>bitcoinjs.address.toOutputScript\<close>.
\<close>

section \<open>Subscriptions\<close>

record chat_subscription =
  tg_id :: int
  tg_telegramChatId :: jsnum
  tg_address :: string

type_synonym subscription_table = "chat_subscription list"

definition getSubscriptions :: "string \<Rightarrow> subscription_table \<Rightarrow> subscription_table" where
  "getSubscriptions address t = filter (\<lambda>r. tg_address r = address) t"

definition getSubscriptionsForChat :: "jsnum \<Rightarrow> subscription_table \<Rightarrow> subscription_table" where
  "getSubscriptionsForChat chatId t = filter (\<lambda>r. tg_telegramChatId r = chatId) t"

definition next_subscription_id :: "subscription_table \<Rightarrow> int" where
  "next_subscription_id t = foldr (\<lambda>r m. max (tg_id r + 1) m) t 1"

definition saveSubscription :: "jsnum \<Rightarrow> string \<Rightarrow> subscription_table \<Rightarrow> subscription_table" where
  "saveSubscription chatId address t =
     (if \<exists>r \<in> set t. tg_telegramChatId r = chatId \<and> tg_address r = address then t
      else t @ [\<lparr>tg_id = next_subscription_id t, tg_telegramChatId = chatId, tg_address = address\<rparr>])"

definition removeSubscription :: "jsnum \<Rightarrow> string \<Rightarrow> subscription_table \<Rightarrow> subscription_table \<times> bool" where
  "removeSubscription chatId address t =
     (let t' = filter (\<lambda>r. \<not> (tg_telegramChatId r = chatId \<and> tg_address r = address)) t
      in (t', length t' < length t))"

definition removeAllSubscriptions :: "jsnum \<Rightarrow> subscription_table \<Rightarrow> subscription_table \<times> int" where
  "removeAllSubscriptions chatId t =
     (let t' = filter (\<lambda>r. tg_telegramChatId r \<noteq> chatId) t in (t', int (length t) - int (length t')))"

section \<open>The bot\<close>

record bot =
  tb_enabled :: bool
  tb_updateOffset :: jsnum
  tb_conflictBackoffUntil :: int
  tb_isPolling :: bool
  tb_subscriptions :: subscription_table
  tb_refused :: "(jsnum \<times> int) list"
  tb_sent :: "(jsnum \<times> string) list"

definition bot_token :: "config \<Rightarrow> string option" where
  "bot_token cfg =
     (case map_option trim (cfg ''TELEGRAM_BOT_TOKEN'') of None \<Rightarrow> None | Some t \<Rightarrow> if t = [] then None else Some t)"

definition new_bot :: "config \<Rightarrow> subscription_table \<Rightarrow> bot" where
  "new_bot cfg t =
     \<lparr>tb_enabled = (bot_token cfg \<noteq> None), tb_updateOffset = Num 0, tb_conflictBackoffUntil = 0, tb_isPolling = False,
      tb_subscriptions = t, tb_refused = [], tb_sent = []\<rparr>"

text \<open>Only the first instance polls.\<close>

definition polls_updates :: "config \<Rightarrow> bot \<Rightarrow> bool" where
  "polls_updates env b \<longleftrightarrow> tb_enabled b \<and> is_primary_instance env"

definition refusal :: "int \<Rightarrow> js_error" where
  "refusal status = \<lparr>err_code = Some status, err_message = Some (''Request failed with status code '' @ dec_string status)\<rparr>"

definition refuses :: "bot \<Rightarrow> jsnum \<Rightarrow> bool" where
  "refuses b chatId \<longleftrightarrow> map_of (tb_refused b) chatId \<noteq> None"

definition sendMessage :: "jsnum \<Rightarrow> string \<Rightarrow> (bot, unit) action" where
  "sendMessage chatId txt b =
     (case map_of (tb_refused b) chatId of
        Some status \<Rightarrow> lift (Inl (refusal status)) b
      | None \<Rightarrow> returns () (b\<lparr>tb_sent := tb_sent b @ [(chatId, txt)]\<rparr>))"

definition on_subscriptions :: "(subscription_table \<Rightarrow> subscription_table) \<Rightarrow> (bot, unit) action" where
  "on_subscriptions f = change (\<lambda>b. b\<lparr>tb_subscriptions := f (tb_subscriptions b)\<rparr>)"

section \<open>Commands\<close>

definition HELP_TEXT :: string where
  "HELP_TEXT = join_with [CHR 0x0A]
     [''Elektron Net PPLNS Pool bot commands:'',
      ''/subscribe <address> - get notified here about blocks found and payouts for this address'',
      ''/unsubscribe <address> - stop notifications for this address'',
      ''/unsubscribe - stop all notifications for this chat'',
      ''/list - show which addresses you are subscribed to'',
      ''/balance <address> - show the pending (not yet paid out) balance for this address'',
      ''/help - show this message'']"

definition extractArg :: "string \<Rightarrow> string \<Rightarrow> string option" where
  "extractArg txt command = (let rest = trim (drop (length command) txt) in if rest = [] then None else Some rest)"

definition isValidAddress :: "(string \<Rightarrow> network \<Rightarrow> bool) \<Rightarrow> config \<Rightarrow> string option \<Rightarrow> bool" where
  "isValidAddress decodes cfg address =
     (case address of
        None \<Rightarrow> False
      | Some a \<Rightarrow> a \<noteq> [] \<and> (case resolveConfiguredNetwork cfg of None \<Rightarrow> False | Some n \<Rightarrow> decodes a n))"

text \<open>\<open>toLocaleString('en-US')\<close> of a whole number: groups of three digits.\<close>

fun group_digits :: "string \<Rightarrow> string" where
  "group_digits (a # b # c # d # rest) = a # b # c # CHR '','' # group_digits (d # rest)"
| "group_digits ds = ds"

definition locale_string :: "jsnum \<Rightarrow> string" where
  "locale_string x =
     (case x of
        Num a \<Rightarrow> (if a < 0 then ''-'' else []) @ rev (group_digits (rev (dec_string \<lfloor>\<bar>a\<bar>\<rfloor>)))
      | _ \<Rightarrow> ''NaN'')"

definition on_unsubscribe :: "jsnum \<Rightarrow> string \<Rightarrow> (bot, unit) action" where
  "on_unsubscribe chatId txt =
     (case extractArg txt ''/unsubscribe'' of
        None \<Rightarrow>
          binds (reads (\<lambda>b. snd (removeAllSubscriptions chatId (tb_subscriptions b)))) (\<lambda>removed.
            seq (on_subscriptions (\<lambda>t. fst (removeAllSubscriptions chatId t)))
              (sendMessage chatId (if removed > 0 then ''Unsubscribed from all '' @ dec_string removed @ '' address(es).''
                                   else ''You weren't subscribed to anything.'')))
      | Some address \<Rightarrow>
          binds (reads (\<lambda>b. snd (removeSubscription chatId address (tb_subscriptions b)))) (\<lambda>removed.
            seq (on_subscriptions (\<lambda>t. fst (removeSubscription chatId address t)))
              (sendMessage chatId (if removed then ''Unsubscribed from '' @ address @ ''.''
                                   else ''You weren't subscribed to '' @ address @ ''.''))))"

definition on_subscribe :: "(string \<Rightarrow> network \<Rightarrow> bool) \<Rightarrow> config \<Rightarrow> jsnum \<Rightarrow> string \<Rightarrow> (bot, unit) action" where
  "on_subscribe decodes cfg chatId txt =
     (let address = extractArg txt ''/subscribe''
      in if \<not> isValidAddress decodes cfg address
         then sendMessage chatId ''Invalid address. Usage: /subscribe <address>''
         else seq (on_subscriptions (saveSubscription chatId (the address)))
                (sendMessage chatId
                   (''Subscribed! You'll be notified here about blocks found and payouts for '' @ the address @ ''.'')))"

definition on_list :: "jsnum \<Rightarrow> (bot, unit) action" where
  "on_list chatId =
     binds (reads (\<lambda>b. getSubscriptionsForChat chatId (tb_subscriptions b))) (\<lambda>subs.
       sendMessage chatId
         (if subs \<noteq> [] then ''Subscribed addresses:'' @ [CHR 0x0A] @ join_with [CHR 0x0A] (map tg_address subs)
          else ''You're not subscribed to any address yet. Use /subscribe <address>.''))"

definition on_balance ::
  "(string \<Rightarrow> network \<Rightarrow> bool) \<Rightarrow> config \<Rightarrow> ledger \<Rightarrow> jsnum \<Rightarrow> string \<Rightarrow> (bot, unit) action" where
  "on_balance decodes cfg l chatId txt =
     (let address = extractArg txt ''/balance''
      in if \<not> isValidAddress decodes cfg address then sendMessage chatId ''Usage: /balance <address>''
         else sendMessage chatId (''Pending (not yet paid out) balance for '' @ the address @ '': '' @
                locale_string (getPendingTotal (the address) l) @ '' lep''))"

definition run_command ::
  "(string \<Rightarrow> network \<Rightarrow> bool) \<Rightarrow> config \<Rightarrow> ledger \<Rightarrow> jsnum \<Rightarrow> string \<Rightarrow> (bot, unit) action" where
  "run_command decodes cfg l chatId txt =
     (if starts_with ''/unsubscribe'' txt then on_unsubscribe chatId txt
      else if starts_with ''/subscribe'' txt then on_subscribe decodes cfg chatId txt
      else if starts_with ''/list'' txt then on_list chatId
      else if starts_with ''/balance'' txt then on_balance decodes cfg l chatId txt
      else if starts_with ''/help'' txt \<or> starts_with ''/start'' txt then sendMessage chatId HELP_TEXT
      else returns ())"

text \<open>
  A message without a text is ignored; a text that is no string or a message without a chat throws. A chat always has an
  id: without one TypeORM would leave the chat out of its conditions.
\<close>

definition handleMessage ::
  "(string \<Rightarrow> network \<Rightarrow> bool) \<Rightarrow> config \<Rightarrow> ledger \<Rightarrow> jsval \<Rightarrow> (bot, unit) action" where
  "handleMessage decodes cfg l msg =
     (if nullish msg \<or> nullish (jprop ''text'' msg) then returns ()
      else case jprop ''text'' msg of
             String s \<Rightarrow>
               binds (lift (get_jprop ''id'' (jprop ''chat'' msg))) (\<lambda>chatId.
                 run_command decodes cfg l (val_num chatId) (trim s))
           | _ \<Rightarrow> throws ''msg.text.trim is not a function'')"

section \<open>Polling\<close>

text \<open>A \<open>result\<close> that is no array is treated as empty; Telegram always sends an array.\<close>

datatype poll_answer = Body jsval | PollFailed "int option"

definition poll_begin :: "int \<Rightarrow> bot \<Rightarrow> bot \<times> jsnum option" where
  "poll_begin now b =
     (if now < tb_conflictBackoffUntil b then (b, None)
      else if tb_isPolling b then (b, None)
      else (b\<lparr>tb_isPolling := True\<rparr>, Some (tb_updateOffset b)))"

fun handle_updates ::
  "(string \<Rightarrow> network \<Rightarrow> bool) \<Rightarrow> config \<Rightarrow> ledger \<Rightarrow> jsval list \<Rightarrow> (bot, unit) action" where
  "handle_updates decodes cfg l [] = returns ()"
| "handle_updates decodes cfg l (u # us) =
     binds (lift (get_jprop ''update_id'' u)) (\<lambda>i.
       seq (change (\<lambda>b. b\<lparr>tb_updateOffset := js_add (val_num i) (Num 1)\<rparr>))
         (seq (handleMessage decodes cfg l (jprop ''message'' u)) (handle_updates decodes cfg l us)))"

definition poll_end ::
  "(string \<Rightarrow> network \<Rightarrow> bool) \<Rightarrow> config \<Rightarrow> ledger \<Rightarrow> int \<Rightarrow> poll_answer \<Rightarrow> bot \<Rightarrow> bot" where
  "poll_end decodes cfg l now answer b =
     (let (b1, failure) = (case answer of
                  Body data \<Rightarrow>
                    (case handle_updates decodes cfg l (case jprop ''result'' data of Arr us \<Rightarrow> us | _ \<Rightarrow> []) b of
                       (b1, Inr u) \<Rightarrow> (b1, None) | (b1, Inl e) \<Rightarrow> (b1, err_code e))
                | PollFailed status \<Rightarrow> (b, status));
          b2 = (if failure = Some 409 then b1\<lparr>tb_conflictBackoffUntil := now + 60000\<rparr> else b1)
      in b2\<lparr>tb_isPolling := False\<rparr>)"

lemma poll_end_body:
  assumes "b1 = poll_end decodes cfg l now (Body (Obj [(''result'', Arr us)])) b"
  shows "tb_updateOffset b1 = tb_updateOffset (fst (handle_updates decodes cfg l us b))" and "\<not> tb_isPolling b1"
    and "tb_subscriptions b1 = tb_subscriptions (fst (handle_updates decodes cfg l us b))"
    and "tb_sent b1 = tb_sent (fst (handle_updates decodes cfg l us b))"
  using assms by (auto simp: poll_end_def split: prod.splits sum.splits)

section \<open>Notifications\<close>

text \<open>\<open>Promise.all\<close> starts every send; it fails if one fails, but the others are sent.\<close>

fun send_all :: "jsnum list \<Rightarrow> string \<Rightarrow> (bot, unit) action" where
  "send_all [] txt = returns ()"
| "send_all (c # cs) txt =
     (\<lambda>b. case sendMessage c txt b of
            (b1, Inr u) \<Rightarrow> send_all cs txt b1
          | (b1, Inl e) \<Rightarrow> (fst (send_all cs txt b1), Inl e))"

definition notify_subscribers :: "string \<Rightarrow> string \<Rightarrow> (bot, unit) action" where
  "notify_subscribers address txt b =
     (if \<not> tb_enabled b then returns () b
      else send_all (map tg_telegramChatId (getSubscriptions address (tb_subscriptions b))) txt b)"

definition telegram_block_found :: "string \<Rightarrow> jsnum \<Rightarrow> string \<Rightarrow> (bot, unit) action" where
  "telegram_block_found address height message =
     notify_subscribers address
       (''Block Found! Result: '' @ message @ '', Height: '' @ dec_string (case height of Num a \<Rightarrow> \<lfloor>a\<rfloor> | _ \<Rightarrow> 0))"

definition telegram_payout_sent :: "string \<Rightarrow> int \<Rightarrow> string \<Rightarrow> (bot, unit) action" where
  "telegram_payout_sent address amountSats tx =
     notify_subscribers address (''Payout sent: '' @ dec_string amountSats @ '' lep (txid: '' @ tx @ '')'')"

text \<open>
  The Discord bot exists on the first instance with a complete configuration; \<open>channel\<close> is what fetching
  the guild and the channel returns. The send itself is not awaited.
\<close>

definition discord_enabled :: "config \<Rightarrow> config \<Rightarrow> bool" where
  "discord_enabled env cfg \<longleftrightarrow> is_primary_instance env \<and>
     list_all (\<lambda>k. truthy (cfg k))
       [''DISCORD_BOT_TOKEN'', ''DISCORD_BOT_CLIENTID'', ''DISCORD_BOT_GUILD_ID'', ''DISCORD_BOT_CHANNEL_ID'']"

definition discord_send :: "config \<Rightarrow> config \<Rightarrow> unit fallible \<Rightarrow> string \<Rightarrow> string list \<Rightarrow> string list \<times> unit fallible" where
  "discord_send env cfg channel txt posted =
     (if \<not> discord_enabled env cfg then (posted, Inr ())
      else case channel of Inl e \<Rightarrow> (posted, Inl e) | Inr u \<Rightarrow> (posted @ [txt], Inr ()))"

definition discord_restarted :: "config \<Rightarrow> config \<Rightarrow> unit fallible \<Rightarrow> string list \<Rightarrow> string list \<times> unit fallible" where
  "discord_restarted env cfg channel = discord_send env cfg channel ''Server Restarted.''"

definition discord_block_found ::
  "config \<Rightarrow> config \<Rightarrow> unit fallible \<Rightarrow> jsnum \<Rightarrow> string \<Rightarrow> string list \<Rightarrow> string list \<times> unit fallible" where
  "discord_block_found env cfg channel height message =
     discord_send env cfg channel
       (''Block Found! Result: '' @ message @ '', Height: '' @ dec_string (case height of Num a \<Rightarrow> \<lfloor>a\<rfloor> | _ \<Rightarrow> 0))"

text \<open>The service in front: Discord first; when it throws, Telegram is not told.\<close>

definition notifySubscribersBlockFound ::
  "config \<Rightarrow> config \<Rightarrow> unit fallible \<Rightarrow> string \<Rightarrow> jsnum \<Rightarrow> string \<Rightarrow> string list \<times> bot \<Rightarrow> (string list \<times> bot) \<times> unit fallible" where
  "notifySubscribersBlockFound env cfg channel address height message s =
     (case s of (posted, b) \<Rightarrow>
        (case discord_block_found env cfg channel height message posted of
           (posted', Inl e) \<Rightarrow> ((posted', b), Inl e)
         | (posted', Inr u) \<Rightarrow>
             (case telegram_block_found address height message b of (b', r) \<Rightarrow> ((posted', b'), r))))"

section \<open>The table stays well formed\<close>

definition subscription_key :: "chat_subscription \<Rightarrow> jsnum \<times> string" where
  "subscription_key r = (tg_telegramChatId r, tg_address r)"

definition subscriptions_ok :: "(string \<Rightarrow> network \<Rightarrow> bool) \<Rightarrow> config \<Rightarrow> subscription_table \<Rightarrow> bool" where
  "subscriptions_ok decodes cfg t \<longleftrightarrow>
     distinct (map subscription_key t) \<and> distinct (map tg_id t) \<and>
     (\<forall>r \<in> set t. isValidAddress decodes cfg (Some (tg_address r)))"

abbreviation bot_ok :: "(string \<Rightarrow> network \<Rightarrow> bool) \<Rightarrow> config \<Rightarrow> bot \<Rightarrow> bool" where
  "bot_ok decodes cfg b \<equiv> subscriptions_ok decodes cfg (tb_subscriptions b)"

lemma next_subscription_id_less: "r \<in> set t \<Longrightarrow> tg_id r < next_subscription_id t"
  unfolding next_subscription_id_def by (induction t) (auto simp: max_def)

lemma subscriptions_ok_filter: "subscriptions_ok decodes cfg t \<Longrightarrow> subscriptions_ok decodes cfg (filter p t)"
  by (auto simp: subscriptions_ok_def distinct_map_filter)

lemma subscriptions_ok_save:
  assumes "subscriptions_ok decodes cfg t" and "isValidAddress decodes cfg (Some a)"
  shows "subscriptions_ok decodes cfg (saveSubscription c a t)"
  using assms next_subscription_id_less[of _ t]
  by (fastforce simp: saveSubscription_def subscriptions_ok_def subscription_key_def)

lemma keeps_sendMessage [keeps_intros]: "keeps (bot_ok decodes cfg) (sendMessage c txt)"
  unfolding sendMessage_def keeps_def by (auto simp: step_simps split: option.splits)

lemma keeps_on_subscriptions [keeps_intros]:
  "(\<And>t. subscriptions_ok decodes cfg t \<Longrightarrow> subscriptions_ok decodes cfg (f t)) \<Longrightarrow>
     keeps (bot_ok decodes cfg) (on_subscriptions f)"
  unfolding on_subscriptions_def by (rule keeps_change) simp

lemma valid_the: "isValidAddress decodes cfg x \<Longrightarrow> isValidAddress decodes cfg (Some (the x))"
  by (cases x) (simp_all add: isValidAddress_def)

lemma keeps_run_command: "keeps (bot_ok decodes cfg) (run_command decodes cfg l c txt)"
  unfolding run_command_def on_unsubscribe_def on_subscribe_def on_list_def on_balance_def Let_def
    removeAllSubscriptions_def removeSubscription_def fst_conv
  by (intro keeps_intros) (auto intro: subscriptions_ok_filter subscriptions_ok_save valid_the)

lemma keeps_handleMessage: "keeps (bot_ok decodes cfg) (TelegramBot.handleMessage decodes cfg l msg)"
  unfolding TelegramBot.handleMessage_def
  by (cases "jprop ''text'' msg"; intro keeps_intros; simp; intro keeps_intros keeps_run_command)

text \<open>A history: every message is handled with its own ledger, and chats block and unblock the bot at will.\<close>

datatype bot_event = Message ledger jsval | Blocked "(jsnum \<times> int) list"

fun bot_step :: "(string \<Rightarrow> network \<Rightarrow> bool) \<Rightarrow> config \<Rightarrow> bot_event \<Rightarrow> bot \<Rightarrow> bot" where
  "bot_step decodes cfg (Message l msg) b = fst (TelegramBot.handleMessage decodes cfg l msg b)"
| "bot_step decodes cfg (Blocked cs) b = b\<lparr>tb_refused := cs\<rparr>"

lemma bot_history_ok: "bot_ok decodes cfg b \<Longrightarrow> bot_ok decodes cfg (fold (bot_step decodes cfg) es b)"
proof (induction es arbitrary: b)
  case (Cons e es)
  have "bot_ok decodes cfg (bot_step decodes cfg e b)"
    using Cons.prems keepsD[OF keeps_handleMessage] by (cases e) simp_all
  then show ?case
    using Cons.IH by simp
qed simp

lemma bot_step_enabled: "tb_enabled (bot_step decodes cfg e b) = tb_enabled b"
proof (cases e)
  case (Message l msg)
  have "keeps (\<lambda>b'. tb_enabled b' = tb_enabled b) (TelegramBot.handleMessage decodes cfg l msg)"
    unfolding TelegramBot.handleMessage_def run_command_def on_unsubscribe_def on_subscribe_def on_list_def on_balance_def Let_def
    by (cases "jprop ''text'' msg"; intro keeps_intros; simp; intro keeps_intros)
      (auto simp: keeps_def sendMessage_def on_subscriptions_def step_simps split: option.splits)
  then show ?thesis
    using Message by (auto simp: keeps_def)
qed simp

lemma bot_history_enabled: "tb_enabled (fold (bot_step decodes cfg) es b) = tb_enabled b"
  by (induction es arbitrary: b) (simp_all add: bot_step_enabled)

text \<open>Every chat that has not blocked the bot gets the message, also when an earlier one has.\<close>

lemma send_all_effect:
  "fst (send_all cs txt b) = b\<lparr>tb_sent := tb_sent b @ map (\<lambda>c. (c, txt)) (filter (\<lambda>c. \<not> refuses b c) cs)\<rparr>"
  "isl (snd (send_all cs txt b)) \<longleftrightarrow> (\<exists>c \<in> set cs. refuses b c)"
  by (induction cs arbitrary: b) (auto simp: sendMessage_def step_simps refuses_def split: option.splits)

lemma distinct_subscribed_chats:
  "distinct (map subscription_key t) \<Longrightarrow> distinct (map tg_telegramChatId (getSubscriptions a t))"
  by (induction t) (auto simp: subscription_key_def getSubscriptions_def)

text \<open>
  C38. Whatever the chats send to the bot and whenever they block or unblock it, its table stays well formed: no chat
  is subscribed twice to an address, ids are unique, and every address is valid for the pool's network. So when
  a block is found for an address, each chat subscribed to it that has not blocked the bot gets exactly one message, and
  nobody else one, provided the bot is enabled and Discord, which is told first, did not fail. The notification
  fails exactly when Discord fails or a subscribed chat has blocked the bot.
\<close>

theorem subscriptions_well_formed:
  assumes "b = fold (bot_step decodes cfg) es (new_bot cfg [])"
    and "notifySubscribersBlockFound env cfg channel a (IntN h) msg (posted, b) = ((posted', b'), r)"
  shows "subscriptions_ok decodes cfg (tb_subscriptions b) \<and>
         (let chats = map tg_telegramChatId (getSubscriptions a (tb_subscriptions b));
              discord_fails = (discord_enabled env cfg \<and> isl channel);
              told = (bot_token cfg \<noteq> None \<and> \<not> discord_fails);
              reached = (if told then filter (\<lambda>c. \<not> refuses b c) chats else [])
          in distinct chats \<and>
             b' = b\<lparr>tb_sent := tb_sent b @
                    map (\<lambda>c. (c, ''Block Found! Result: '' @ msg @ '', Height: '' @ dec_string h)) reached\<rparr> \<and>
             (isl r \<longleftrightarrow> discord_fails \<or> told \<and> (\<exists>c \<in> set chats. refuses b c)))"
proof -
  have ok: "subscriptions_ok decodes cfg (tb_subscriptions b)"
    unfolding assms(1) by (rule bot_history_ok) (simp add: new_bot_def subscriptions_ok_def)
  moreover have "tb_enabled b \<longleftrightarrow> bot_token cfg \<noteq> None"
    unfolding assms(1) bot_history_enabled by (simp add: new_bot_def)
  ultimately show ?thesis
    using assms(2) distinct_subscribed_chats[of "tb_subscriptions b" a]
      send_all_effect[of "map tg_telegramChatId (getSubscriptions a (tb_subscriptions b))" _ b]
    by (auto simp: notifySubscribersBlockFound_def discord_block_found_def discord_send_def telegram_block_found_def
        notify_subscribers_def subscriptions_ok_def Let_def returns_def prod_eq_iff isl_def split: if_splits sum.splits prod.splits)
qed

text \<open>One subscriber who has blocked the bot makes the whole notification fail.\<close>

lemma blocked_chat_fails_notification:
  "c \<in> set cs \<Longrightarrow> refuses b c \<Longrightarrow> \<exists>e. snd (send_all cs txt b) = Inl e"
  by (metis isl_def send_all_effect(2))

section \<open>Every update is handled once\<close>

text \<open>
  \<open>steady m\<close>: the action neither reads nor writes what belongs to the polling, so it commutes with
  setting the offset.
\<close>

definition at_offset :: "jsnum \<Rightarrow> bot \<Rightarrow> bot" where
  "at_offset o1 b = b\<lparr>tb_updateOffset := o1\<rparr>"

definition steady :: "(bot, 'a) action \<Rightarrow> bool" where
  "steady m \<longleftrightarrow> (\<forall>o1 b. m (at_offset o1 b) = apfst (at_offset o1) (m b))"

named_theorems steady_intros "actions that leave the polling alone"

lemma steadyD: "steady m \<Longrightarrow> m (at_offset o1 b) = apfst (at_offset o1) (m b)"
  by (simp add: steady_def)

lemma steady_basic [steady_intros]: "steady (returns x)" "steady (throws e)" "steady (lift r)"
  by (simp_all add: steady_def step_simps)

lemma steady_binds [steady_intros]: "steady m \<Longrightarrow> (\<And>x. steady (f x)) \<Longrightarrow> steady (binds m f)"
  unfolding steady_def binds_case by (simp split: sum.split)

lemma steady_seq [steady_intros]: "steady m \<Longrightarrow> steady k \<Longrightarrow> steady (seq m k)"
  unfolding seq_def by (intro steady_intros)

lemma steady_reads [steady_intros]: "(\<And>o1 b. f (at_offset o1 b) = f b) \<Longrightarrow> steady (reads f)"
  by (simp add: steady_def step_simps)

lemma steady_sendMessage [steady_intros]: "steady (sendMessage c txt)"
  by (simp add: steady_def sendMessage_def at_offset_def step_simps split: option.splits)

lemma steady_on_subscriptions [steady_intros]: "steady (on_subscriptions f)"
  by (simp add: steady_def on_subscriptions_def at_offset_def step_simps)

lemma steady_if [steady_intros]: "steady m \<Longrightarrow> steady k \<Longrightarrow> steady (if c then m else k)"
  by simp

lemma steady_option [steady_intros]: "steady m \<Longrightarrow> (\<And>x. steady (f x)) \<Longrightarrow> steady (case v of None \<Rightarrow> m | Some x \<Rightarrow> f x)"
  by (cases v) simp_all

lemma steady_run_command: "steady (run_command decodes cfg l c txt)"
  unfolding run_command_def on_unsubscribe_def on_subscribe_def on_list_def on_balance_def Let_def
  by (intro steady_intros) (simp_all add: at_offset_def)

lemma steady_handleMessage: "steady (TelegramBot.handleMessage decodes cfg l msg)"
  unfolding TelegramBot.handleMessage_def
  by (cases "jprop ''text'' msg"; intro steady_intros; simp; intro steady_intros steady_run_command)

text \<open>Telegram's queue: updates with growing whole ids; a poll with offset \<open>o1\<close> is answered with the first ones from \<open>o1\<close> on.\<close>

definition update_json :: "int \<times> jsval \<Rightarrow> jsval" where
  "update_json u = Obj [(''update_id'', Number (IntN (fst u))), (''message'', snd u)]"

definition queue_ok :: "(int \<times> jsval) list \<Rightarrow> bool" where
  "queue_ok q \<longleftrightarrow> sorted_wrt (<) (map fst q) \<and> (\<forall>(i, m) \<in> set q. safe_int i \<and> safe_int (i + 1))"

definition pending :: "int \<Rightarrow> (int \<times> jsval) list \<Rightarrow> (int \<times> jsval) list" where
  "pending o1 q = filter (\<lambda>(i, m). o1 \<le> i) q"

lemma handle_updates_json:
  assumes "safe_int i" and "safe_int (i + 1)"
  shows "handle_updates decodes cfg l (update_json (i, m) # us) b =
           (case TelegramBot.handleMessage decodes cfg l m b of
              (b1, Inr u) \<Rightarrow> handle_updates decodes cfg l us (at_offset (IntN (i + 1)) b1)
            | (b1, Inl e) \<Rightarrow> (at_offset (IntN (i + 1)) b1, Inl e))"
proof -
  have "get_jprop ''update_id'' (update_json (i, m)) = Inr (Number (IntN i))" "jprop ''message'' (update_json (i, m)) = m"
    by (simp_all add: update_json_def get_jprop_def nullish_def)
  moreover have "js_add (IntN i) (Num 1) = IntN (i + 1)"
    using js_add_int[of i 1] assms by simp
  ultimately show ?thesis
    by (auto simp: step_simps seq_def binds_case steadyD[OF steady_handleMessage, unfolded at_offset_def] at_offset_def
        split: prod.split sum.split)
qed

lemma handle_updates_prefix:
  assumes "\<forall>(i, m) \<in> set us. safe_int i \<and> safe_int (i + 1)"
  shows "\<exists>k \<le> length us. 
           (k < length us \<longrightarrow> 0 < k) \<and>
           fst (handle_updates decodes cfg l (map update_json us) b) =
             (if k = 0 then b else at_offset (IntN (fst (us ! (k - 1)) + 1))
                (fold (\<lambda>u b. fst (TelegramBot.handleMessage decodes cfg l (snd u) b)) (take k us) b))"
  using assms
proof (induction us arbitrary: b)
  case (Cons u us)
  obtain i m where u: "u = (i, m)" by fastforce
  have i: "safe_int i" "safe_int (i + 1)"
    using Cons.prems u by auto
  show ?case
  proof (cases "TelegramBot.handleMessage decodes cfg l m b")
    case (Pair b1 r)
    show ?thesis
    proof (cases r)
      case (Inl e)
      then show ?thesis
        using Pair i by (intro exI[of _ 1]) (simp add: u handle_updates_json del: handle_updates.simps(2) of_int_add)
    next
      case (Inr x)
      let ?b = "at_offset (IntN (i + 1)) b1"
      obtain k where k: "k \<le> length us" "k < length us \<longrightarrow> 0 < k"
        "fst (handle_updates decodes cfg l (map update_json us) ?b) =
           (if k = 0 then ?b else at_offset (IntN (fst (us ! (k - 1)) + 1))
              (fold (\<lambda>u b. fst (TelegramBot.handleMessage decodes cfg l (snd u) b)) (take k us) ?b))"
        using Cons.IH[of ?b] Cons.prems by auto
      have move: "at_offset x (fold (\<lambda>u b. fst (TelegramBot.handleMessage decodes cfg l (snd u) b)) vs (at_offset y b)) =
            at_offset x (fold (\<lambda>u b. fst (TelegramBot.handleMessage decodes cfg l (snd u) b)) vs b)" for x y vs b
        by (induction vs arbitrary: b) (simp_all add: steadyD[OF steady_handleMessage], simp_all add: at_offset_def)
      show ?thesis
        using k Pair i Inr by (intro exI[of _ "Suc k"]) (auto simp: u handle_updates_json move nth_Cons'
            simp del: of_int_add handle_updates.simps(2))
    qed
  qed
qed (simp add: step_simps)

lemma pending_after:
  assumes "sorted_wrt (<) (map fst p)" and "k < length p"
  shows "pending (fst (p ! k) + 1) p = drop (Suc k) p"
  using assms
proof (induction p arbitrary: k)
  case (Cons u p)
  obtain i m where u: "u = (i, m)" by fastforce
  show ?case
  proof (cases k)
    case 0
    have "filter (\<lambda>(j, m). i + 1 \<le> j) p = p"
      using Cons.prems(1) by (intro filter_True) (auto simp: u)
    then show ?thesis
      by (simp add: u 0 pending_def)
  next
    case (Suc k')
    have "i < fst (p ! k')"
      using Cons.prems Suc by (simp add: u)
    then have "\<not> fst (p ! k') + 1 \<le> i"
      by simp
    then have "pending (fst (p ! k') + 1) (u # p) = pending (fst (p ! k') + 1) p"
      by (simp add: u pending_def)
    then show ?thesis
      using Cons.IH[of k'] Cons.prems Suc by simp
  qed
qed simp

lemma pending_next:
  assumes "queue_ok q" and "k < length (pending o1 q)"
  shows "pending (fst (pending o1 q ! k) + 1) q = drop (Suc k) (pending o1 q)"
proof -
  let ?p = "pending o1 q" and ?i = "fst (pending o1 q ! k)"
  have "?p ! k \<in> set ?p"
    using assms(2) by simp
  then have "o1 \<le> ?i"
    by (auto simp: pending_def)
  then have "pending (?i + 1) q = pending (?i + 1) ?p"
    unfolding pending_def by (auto intro!: filter_cong)
  moreover have "sorted_wrt (<) (map fst ?p)"
    using assms(1) by (simp add: queue_ok_def pending_def sorted_wrt_map sorted_wrt_filter)
  ultimately show ?thesis
    using pending_after assms(2) by metis
qed

text \<open>
  C39. Every update is handled at most once, in order, and none is skipped: after a poll the updates Telegram
  would send next are those sent now without a handled prefix, at least one long unless the answer was
  empty; the bot's table and its messages are what handling that prefix gives. A message whose handler
  throws, like an answer to a chat that blocked the bot, ends the round but is not asked for again.
\<close>

theorem updates_handled_once:
  assumes "queue_ok q" and "tb_updateOffset b = IntN o1" and "us = take n (pending o1 q)"
    and "b1 = poll_end decodes cfg l now (Body (Obj [(''result'', Arr (map update_json us))])) b"
  shows "\<exists>k o2. k \<le> length us \<and> (k = 0 \<longleftrightarrow> us = []) \<and> tb_updateOffset b1 = IntN o2 \<and>
           pending o2 q = drop k (pending o1 q) \<and> \<not> tb_isPolling b1 \<and>
           (let done1 = fold (\<lambda>u b. fst (TelegramBot.handleMessage decodes cfg l (snd u) b)) (take k us) b
            in tb_subscriptions b1 = tb_subscriptions done1 \<and> tb_sent b1 = tb_sent done1)"
proof -
  let ?done = "\<lambda>k. fold (\<lambda>u b. fst (TelegramBot.handleMessage decodes cfg l (snd u) b)) (take k us) b"
  note b1 = poll_end_body[OF assms(4)]
  have "\<forall>(i, m) \<in> set us. safe_int i \<and> safe_int (i + 1)"
    using assms(1) set_take_subset[of n "pending o1 q"] unfolding assms(3) queue_ok_def pending_def by fastforce
  then obtain k where k: "k \<le> length us" "k < length us \<longrightarrow> 0 < k"
    "fst (handle_updates decodes cfg l (map update_json us) b) =
       (if k = 0 then b else at_offset (IntN (fst (us ! (k - 1)) + 1)) (?done k))"
    using handle_updates_prefix by blast
  show ?thesis
  proof (cases "k = 0")
    case True
    then show ?thesis
      using k assms(2) by (intro exI[of _ 0] exI[of _ o1]) (simp add: b1)
  next
    case False
    then have "k - 1 < length (pending o1 q)" and "us ! (k - 1) = pending o1 q ! (k - 1)"
      using k(1) unfolding assms(3) by auto
    then have "pending (fst (us ! (k - 1)) + 1) q = drop k (pending o1 q)"
      using pending_next[OF assms(1), of "k - 1" o1] False by simp
    then show ?thesis
      using k False by (intro exI[of _ k] exI[of _ "fst (us ! (k - 1)) + 1"]) (auto simp: b1 at_offset_def)
  qed
qed

section \<open>Examples\<close>

definition example_bot_cfg :: config where
  "example_bot_cfg k =
     (if k = ''TELEGRAM_BOT_TOKEN'' then Some ''123:abc'' else if k = ''NETWORK'' then Some ''regtest'' else None)"

definition example_message :: "string \<Rightarrow> jsval" where
  "example_message txt = Obj [(''text'', String txt), (''chat'', Obj [(''id'', Number (Num 99))])]"

definition any_address :: "string \<Rightarrow> network \<Rightarrow> bool" where
  "any_address a n \<longleftrightarrow> True"

definition example_bot :: bot where
  "example_bot = fold (bot_step any_address example_bot_cfg)
     [Message empty_ledger (example_message ''/subscribe bcrt1a''), Message empty_ledger (example_message ''/subscribe  bcrt1a '')]
     (new_bot example_bot_cfg [])"

lemma example_bot_subscribed: "map tg_telegramChatId (getSubscriptions ''bcrt1a'' (tb_subscriptions example_bot)) = [Num 99]"
  by code_simp

text \<open>A second chat subscribes as well and then blocks the bot; the first one is told all the same.\<close>

definition example_blocked_bot :: bot where
  "example_blocked_bot = fold (bot_step any_address example_bot_cfg)
     [Message empty_ledger (example_message ''/subscribe bcrt1a''), Message empty_ledger (example_message ''/subscribe  bcrt1a ''),
      Message empty_ledger (Obj [(''text'', String ''/subscribe bcrt1a''), (''chat'', Obj [(''id'', Number (Num 7))])]),
      Blocked [(Num 7, 403)]]
     (new_bot example_bot_cfg [])"

lemma example_blocked_chats:
  "map tg_telegramChatId (getSubscriptions ''bcrt1a'' (tb_subscriptions example_blocked_bot)) = [Num 99, Num 7]"
  "refuses example_blocked_bot (Num 7)" "\<not> refuses example_blocked_bot (Num 99)" "bot_token example_bot_cfg \<noteq> None" "\<not> discord_enabled Map.empty example_bot_cfg"
  by code_simp+

theorem subscriptions_well_formed_witness:
  "\<exists>posted b' r. notifySubscribersBlockFound Map.empty example_bot_cfg (Inr ()) ''bcrt1a'' (IntN 5) ''SUCCESS!''
       ([], example_blocked_bot) = ((posted, b'), r) \<and>
     tb_sent b' = tb_sent example_blocked_bot @ [(Num 99, ''Block Found! Result: SUCCESS!, Height: 5'')] \<and> isl r"
proof -
  obtain posted b' r where notified: "notifySubscribersBlockFound Map.empty example_bot_cfg (Inr ()) ''bcrt1a'' (IntN 5)
      ''SUCCESS!'' ([], example_blocked_bot) = ((posted, b'), r)"
    by (metis prod.collapse)
  have "dec_string 5 = ''5''"
    by code_simp
  then show ?thesis
    using notified subscriptions_well_formed[OF example_blocked_bot_def notified] example_blocked_chats by (auto simp: Let_def)
qed

definition example_queue :: "(int \<times> jsval) list" where
  "example_queue = [(41, example_message ''/help''), (42, example_message ''/list''), (45, Null)]"

definition example_poll :: "bot \<Rightarrow> bot" where
  "example_poll b = poll_end any_address example_bot_cfg empty_ledger 0
     (Body (Obj [(''result'', Arr (map update_json (take 100 (pending 0 example_queue))))])) b"

theorem updates_handled_once_witness:
  "\<exists>k o2. k \<le> length (take 100 (pending 0 example_queue)) \<and> (k = 0 \<longleftrightarrow> take 100 (pending 0 example_queue) = []) \<and>
     tb_updateOffset (example_poll example_bot) = IntN o2 \<and> pending o2 example_queue = drop k (pending 0 example_queue) \<and>
     \<not> tb_isPolling (example_poll example_bot) \<and>
     (let done1 = fold (\<lambda>u b. fst (TelegramBot.handleMessage any_address example_bot_cfg empty_ledger (snd u) b))
                    (take k (take 100 (pending 0 example_queue))) example_bot
      in tb_subscriptions (example_poll example_bot) = tb_subscriptions done1 \<and>
         tb_sent (example_poll example_bot) = tb_sent done1)"
proof (rule updates_handled_once[OF _ _ refl example_poll_def])
  show "queue_ok example_queue"
    by (simp add: queue_ok_def example_queue_def safe_int_def)
  show "tb_updateOffset example_bot = IntN 0"
    by code_simp
qed

end
