(* ===== verification/JsDate.thy ===== *)
theory JsDate
  imports JsString
begin

text \<open>
  The calendar of \<open>Date\<close>: from milliseconds since 1970 to year, month, day and time of day in UTC, after
  the definitions of the language (day of a year, the year as the one that contains the day), and the
  text of \<open>toISOString\<close>.
\<close>

definition day_from_year :: "int \<Rightarrow> int" where
  "day_from_year y = 365 * (y - 1970) + (y - 1969) div 4 - (y - 1901) div 100 + (y - 1601) div 400"

definition leap_year :: "int \<Rightarrow> bool" where
  "leap_year y \<longleftrightarrow> y mod 4 = 0 \<and> (y mod 100 \<noteq> 0 \<or> y mod 400 = 0)"

lemma div_succ:
  fixes x k :: int
  assumes "0 < k"
  shows "(x + 1) div k = x div k + (if k dvd x + 1 then 1 else 0)"
proof -
  define q r where "q = x div k" and "r = x mod k"
  have x: "x = k * q + r" "0 \<le> r" "r < k"
    using assms by (simp_all add: q_def r_def)
  show ?thesis
  proof (cases "r + 1 = k")
    case True
    then have "x + 1 = k * (q + 1)"
      using x(1) by (simp add: distrib_left)
    then show ?thesis
      using assms by (simp add: q_def)
  next
    case False
    then have "(x + 1) div k = q" "(x + 1) mod k = r + 1"
      using x by (auto intro!: int_div_pos_eq[of _ _ _ "r + 1"] int_mod_pos_eq[of _ _ q])
    then show ?thesis
      using x(2) by (auto simp: q_def dvd_eq_mod_eq_0)
  qed
qed

lemma year_length: "day_from_year (y + 1) = day_from_year y + (if leap_year y then 366 else 365)"
proof -
  have dvd: "4 dvd y - 1968 \<longleftrightarrow> y mod 4 = 0" "100 dvd y - 1900 \<longleftrightarrow> y mod 100 = 0" "400 dvd y - 1600 \<longleftrightarrow> y mod 400 = 0"
    by (simp_all add: dvd_diff_left_iff flip: dvd_eq_mod_eq_0)
  have eq: "y - 1969 + 1 = y - 1968" "y - 1901 + 1 = y - 1900" "y - 1601 + 1 = y - 1600"
    by simp_all
  note steps = div_succ[of 4 "y - 1969", OF zero_less_numeral, unfolded eq dvd]
    div_succ[of 100 "y - 1901", OF zero_less_numeral, unfolded eq dvd]
    div_succ[of 400 "y - 1601", OF zero_less_numeral, unfolded eq dvd]
  have start: "y + 1 - 1970 = y - 1969" "y + 1 - 1969 = y - 1968" "y + 1 - 1901 = y - 1900" "y + 1 - 1601 = y - 1600"
    by simp_all
  define a b c where "a = (if y mod 4 = 0 then 1 else (0 :: int))" and "b = (if y mod 100 = 0 then 1 else (0 :: int))"
    and "c = (if y mod 400 = 0 then 1 else (0 :: int))"
  have "day_from_year (y + 1) = day_from_year y + 365 + (a - b + c)"
    unfolding day_from_year_def start steps a_def[symmetric] b_def[symmetric] c_def[symmetric] by simp
  moreover have "a - b + c = (if leap_year y then 1 else 0)"
  proof -
    have "y mod 400 = 0 \<Longrightarrow> y mod 100 = 0" "y mod 100 = 0 \<Longrightarrow> y mod 4 = 0"
      by (auto simp flip: dvd_eq_mod_eq_0 elim: dvd_trans[rotated])
    then show ?thesis
      unfolding a_def b_def c_def leap_year_def by (cases "y mod 400 = 0"; cases "y mod 100 = 0"; cases "y mod 4 = 0"; simp only: if_True if_False simp_thms; simp)
  qed
  ultimately show ?thesis
    by simp
qed

lemma year_grows: "day_from_year y < day_from_year (y + 1)"
  by (simp add: year_length)

text \<open>The year of a day: the last one that does not start after it, searched from a year that is not too late.\<close>

function year_search :: "int \<Rightarrow> int \<Rightarrow> int" where
  "year_search d y = (if day_from_year (y + 1) \<le> d then year_search d (y + 1) else y)"
  by auto
termination
proof (relation "measure (\<lambda>(d, y). nat (d - day_from_year y))")
  fix d y
  assume "day_from_year (y + 1) \<le> d"
  then show "((d, y + 1), d, y) \<in> measure (\<lambda>(d, y). nat (d - day_from_year y))"
    using year_grows[of y] by simp
qed simp

declare year_search.simps [simp del]

definition year_of_day :: "int \<Rightarrow> int" where
  "year_of_day d = year_search d (1970 + (if d < 0 then d div 365 - 1 else d div 366))"

lemma year_search_bounds:
  "day_from_year y \<le> d \<Longrightarrow> day_from_year (year_search d y) \<le> d \<and> d < day_from_year (year_search d y + 1)"
proof (induction d y rule: year_search.induct)
  case (1 d y)
  then show ?case
    by (subst (1 2) year_search.simps) auto
qed

lemma day_from_year_upper:
  "0 \<le> n \<Longrightarrow> day_from_year (1970 + n) \<le> 366 * n" "0 \<le> n \<Longrightarrow> day_from_year (1970 - n) \<le> - 365 * n"
proof -
  show "day_from_year (1970 + n) \<le> 366 * n" if "0 \<le> n"
    using that
  proof (induction n rule: int_ge_induct)
    case (step n)
    then show ?case
      using year_length[of "1970 + n"] by (simp add: algebra_simps)
  qed (simp add: day_from_year_def)
  show "day_from_year (1970 - n) \<le> - 365 * n" if "0 \<le> n"
    using that
  proof (induction n rule: int_ge_induct)
    case (step n)
    then show ?case
      using year_length[of "1970 - n - 1"] by (simp add: algebra_simps split: if_splits)
  qed (simp add: day_from_year_def)
qed

lemma year_of_day:
  "day_from_year (year_of_day d) \<le> d" "d < day_from_year (year_of_day d + 1)"
proof -
  have "day_from_year (1970 + (if d < 0 then d div 365 - 1 else d div 366)) \<le> d"
  proof (cases "d < 0")
    case True
    have "day_from_year (1970 - (1 - d div 365)) \<le> - 365 * (1 - d div 365)"
      using True by (intro day_from_year_upper) (smt (verit) pos_imp_zdiv_neg_iff)
    also have "\<dots> \<le> d"
    proof -
      have "0 \<le> d mod 365" "d div 365 * 365 + d mod 365 = d"
        by simp_all
      then show ?thesis
        by simp
    qed
    finally show ?thesis
      using True by (simp add: algebra_simps)
  next
    case False
    then have "day_from_year (1970 + d div 366) \<le> 366 * (d div 366)"
      by (intro day_from_year_upper) (simp add: pos_imp_zdiv_nonneg_iff)
    also have "\<dots> \<le> d"
    proof -
      have "0 \<le> d mod 366" "d div 366 * 366 + d mod 366 = d"
        by simp_all
      then show ?thesis
        by simp
    qed
    finally show ?thesis
      using False by simp
  qed
  then show "day_from_year (year_of_day d) \<le> d" "d < day_from_year (year_of_day d + 1)"
    using year_search_bounds by (simp_all add: year_of_day_def)
qed

text \<open>Month and day: the day of the year, counted through the months.\<close>

definition month_lengths :: "int \<Rightarrow> int list" where
  "month_lengths y = [31, if leap_year y then 29 else 28, 31, 30, 31, 30, 31, 31, 30, 31, 30, 31]"

fun month_search :: "int \<Rightarrow> int list \<Rightarrow> int \<Rightarrow> int \<times> int" where
  "month_search m [] d = (m, d)"
| "month_search m (n # ns) d = (if d < n then (m, d + 1) else month_search (m + 1) ns (d - n))"

definition civil_date :: "int \<Rightarrow> int \<times> int \<times> int" where
  "civil_date d = (let y = year_of_day d in (y, month_search 1 (month_lengths y) (d - day_from_year y)))"

lemma month_search_bounds:
  "0 \<le> d \<Longrightarrow> d < sum_list ns \<Longrightarrow> list_all (\<lambda>n. n \<le> 31) ns \<Longrightarrow> month_search m ns d = (m', d') \<Longrightarrow>
     m \<le> m' \<and> m' < m + int (length ns) \<and> 1 \<le> d' \<and> d' \<le> 31"
  by (induction m ns d rule: month_search.induct) (auto split: if_splits)

lemma civil_date_bounds:
  assumes "civil_date d = (y, m, k)"
  shows "1 \<le> m \<and> m \<le> 12 \<and> 1 \<le> k \<and> k \<le> 31"
proof -
  let ?y = "year_of_day d" and ?r = "d - day_from_year (year_of_day d)"
  have "month_search 1 (month_lengths ?y) ?r = (m, k)"
    using assms by (auto simp: civil_date_def Let_def)
  moreover have "0 \<le> ?r" "?r < sum_list (month_lengths ?y)"
    using year_of_day[of d] year_length[of ?y] by (auto simp: month_lengths_def)
  moreover have "list_all (\<lambda>n. n \<le> 31) (month_lengths ?y)" "length (month_lengths ?y) = 12"
    by (simp_all add: month_lengths_def)
  ultimately show ?thesis
    using month_search_bounds[of ?r "month_lengths ?y" 1 m k] by simp
qed

definition pad2 :: "int \<Rightarrow> string" where
  "pad2 n = pad_left 2 (CHR ''0'') (dec_string n)"

definition day_of :: "int \<Rightarrow> int" where
  "day_of ms = ms div 86400000"

definition toISOString :: "int \<Rightarrow> string" where
  "toISOString ms =
     (case civil_date (day_of ms) of
        (y, m, d) \<Rightarrow>
          (let t = ms mod 86400000
           in (if 0 \<le> y \<and> y \<le> 9999 then pad_left 4 (CHR ''0'') (dec_string y)
               else (if y < 0 then ''-'' else ''+'') @ pad_left 6 (CHR ''0'') (dec_string \<bar>y\<bar>)) @
              ''-'' @ pad2 m @ ''-'' @ pad2 d @ ''T'' @ pad2 (t div 3600000) @ '':'' @ pad2 (t div 60000 mod 60) @ '':'' @
              pad2 (t div 1000 mod 60) @ ''.'' @ pad_left 3 (CHR ''0'') (dec_string (t mod 1000)) @ ''Z''))"

lemma toISOString_examples:
  "toISOString 0 = ''1970-01-01T00:00:00.000Z''" "toISOString 951782399999 = ''2000-02-28T23:59:59.999Z''"
  "toISOString 951782400000 = ''2000-02-29T00:00:00.000Z''" "toISOString (- 1) = ''1969-12-31T23:59:59.999Z''"
  by code_simp+

section \<open>Reading a time back\<close>

definition read_nat :: "string \<Rightarrow> int" where
  "read_nat s = digits_value 10 (map digit_val s)"

lemma read_nat_dec: "0 \<le> n \<Longrightarrow> read_nat (dec_string n) = n"
  by (simp add: read_nat_def dec_string_def radix_string_value)

lemma read_nat_pad: "0 \<le> n \<Longrightarrow> read_nat (pad_left k (CHR ''0'') (dec_string n)) = n"
proof -
  assume "0 \<le> n"
  moreover have "digit_val (CHR ''0'') = 0"
    by (simp add: digit_val_def code_unit_def)
  ultimately show ?thesis
    using read_nat_dec[of n] by (simp add: read_nat_def pad_left_def digits_value_append map_replicate_const)
qed

lemma length_pad: "0 \<le> n \<Longrightarrow> n < 10 ^ k \<Longrightarrow> 0 < k \<Longrightarrow> length (pad_left k (CHR ''0'') (dec_string n)) = k"
  using radix_string_length[of n 10 k] by (simp add: pad_left_def dec_string_def)

text \<open>The day of a date, the inverse of \<open>civil_date\<close>.\<close>

definition day_of_date :: "int \<Rightarrow> int \<Rightarrow> int \<Rightarrow> int" where
  "day_of_date y m k = day_from_year y + sum_list (take (nat (m - 1)) (month_lengths y)) + k - 1"

lemma month_search_inverse:
  "0 \<le> d \<Longrightarrow> d < sum_list ns \<Longrightarrow> list_all (\<lambda>n. n \<le> 31) ns \<Longrightarrow> month_search m ns d = (m', k) \<Longrightarrow>
     sum_list (take (nat (m' - m)) ns) + k - 1 = d"
proof (induction m ns d rule: month_search.induct)
  case (2 m n ns d)
  show ?case
  proof (cases "d < n")
    case False
    then have rec: "month_search (m + 1) ns (d - n) = (m', k)" "0 \<le> d - n" "d - n < sum_list ns" "list_all (\<lambda>n. n \<le> 31) ns"
      using "2.prems" by auto
    have "m + 1 \<le> m'"
      using month_search_bounds[OF rec(2-4,1)] by simp
    then have "nat (m' - m) = Suc (nat (m' - (m + 1)))"
      by simp
    then show ?thesis
      using "2.IH"[OF False rec(2-4,1)] by simp
  qed (use "2.prems" in auto)
qed simp

lemma civil_date_inverse:
  assumes "civil_date d = (y, m, k)"
  shows "day_of_date y m k = d"
proof -
  let ?r = "d - day_from_year y"
  have y: "y = year_of_day d" and "month_search 1 (month_lengths y) ?r = (m, k)"
    using assms by (auto simp: civil_date_def Let_def)
  moreover have "0 \<le> ?r" "?r < sum_list (month_lengths y)"
    using year_of_day[of d] year_length[of y] unfolding y by (auto simp: month_lengths_def)
  moreover have "list_all (\<lambda>n. n \<le> 31) (month_lengths y)"
    by (simp add: month_lengths_def)
  ultimately show ?thesis
    using month_search_inverse[of ?r "month_lengths y" 1 m k] by (simp add: day_of_date_def)
qed

text \<open>Milliseconds since 1970 of a text as \<open>toISOString\<close> writes it for the years 0 to 9999.\<close>

definition read_iso :: "string \<Rightarrow> int" where
  "read_iso s =
     day_of_date (read_nat (take 4 s)) (read_nat (take 2 (drop 5 s))) (read_nat (take 2 (drop 8 s))) * 86400000 +
     read_nat (take 2 (drop 11 s)) * 3600000 + read_nat (take 2 (drop 14 s)) * 60000 +
     read_nat (take 2 (drop 17 s)) * 1000 + read_nat (take 3 (drop 20 s))"

text \<open>The first and the last millisecond of the years 1970 to 9999.\<close>

definition common_time :: "int \<Rightarrow> bool" where
  "common_time ms \<longleftrightarrow> 0 \<le> ms \<and> ms < 253402300800000"

lemma day_from_year_mono: "y \<le> y' \<Longrightarrow> day_from_year y \<le> day_from_year y'"
proof (induction y' rule: int_ge_induct)
  case (step i)
  then show ?case
    using year_grows[of i] by simp
qed simp

lemma year_common:
  assumes "common_time ms"
  shows "1970 \<le> year_of_day (day_of ms)" and "year_of_day (day_of ms) \<le> 9999"
proof -
  let ?d = "day_of ms"
  have "0 \<le> ms div 86400000" "ms div 86400000 < 2932897"
    using assms unfolding common_time_def by linarith+
  then have d: "day_from_year 1970 \<le> ?d" "?d < day_from_year 10000"
    by (simp_all add: day_of_def day_from_year_def)
  show "1970 \<le> year_of_day ?d"
    using day_from_year_mono[of "year_of_day ?d + 1" 1970] year_of_day(2)[of ?d] d(1) by linarith
  show "year_of_day ?d \<le> 9999"
    using day_from_year_mono[of 10000 "year_of_day ?d"] year_of_day(1)[of ?d] d(2) by linarith
qed

lemma read_iso_text:
  assumes "common_time ms"
  shows "read_iso (toISOString ms) = ms"
proof -
  obtain y m k where date: "civil_date (day_of ms) = (y, m, k)"
    by (metis prod_cases3)
  then have y: "1970 \<le> y" "y \<le> 9999" and m: "1 \<le> m" "m \<le> 12" and k: "1 \<le> k" "k \<le> 31"
    using year_common[OF assms] civil_date_bounds[OF date] by (auto simp: civil_date_def Let_def)
  define t where "t = ms mod 86400000"
  define h n s z where "h = t div 3600000" and "n = t div 60000 mod 60" and "s = t div 1000 mod 60" and "z = t mod 1000"
  have t: "0 \<le> t" "t < 86400000"
    by (simp_all add: t_def)
  have b: "0 \<le> h" "h < 24" "0 \<le> n" "n < 60" "0 \<le> s" "s < 60" "0 \<le> z" "z < 1000"
    using t by (auto simp: h_def n_def s_def z_def)
  have time: "h * 3600000 + n * 60000 + s * 1000 + z = t"
  proof -
    have "t div 60000 = t div 1000 div 60" "t div 3600000 = t div 1000 div 60 div 60"
      by (simp_all flip: zdiv_zmult2_eq)
    moreover have "t div 1000 div 60 div 60 * 60 + t div 1000 div 60 mod 60 = t div 1000 div 60"
      "t div 1000 div 60 * 60 + t div 1000 mod 60 = t div 1000" "t div 1000 * 1000 + t mod 1000 = t"
      by (rule div_mult_mod_eq)+
    moreover have "H * 60 + M = A \<Longrightarrow> A * 60 + S = B \<Longrightarrow> B * 1000 + Z = T \<Longrightarrow>
        H * 3600000 + M * 60000 + S * 1000 + Z = T" for H M A S B Z T :: int
      by simp
    ultimately show ?thesis
      unfolding h_def n_def s_def z_def by metis
  qed
  have iso: "toISOString ms = pad_left 4 (CHR ''0'') (dec_string y) @ ''-'' @ pad2 m @ ''-'' @ pad2 k @ ''T'' @ pad2 h @ '':'' @
      pad2 n @ '':'' @ pad2 s @ ''.'' @ pad_left 3 (CHR ''0'') (dec_string z) @ ''Z''"
    using y by (simp add: toISOString_def date t_def h_def n_def s_def z_def Let_def)
  have len: "length (pad_left 4 (CHR ''0'') (dec_string y)) = 4" "length (pad2 m) = 2" "length (pad2 k) = 2" "length (pad2 h) = 2"
    "length (pad2 n) = 2" "length (pad2 s) = 2" "length (pad_left 3 (CHR ''0'') (dec_string z)) = 3"
    unfolding pad2_def using y m k b by (auto intro!: length_pad)
  have val: "read_nat (pad_left 4 (CHR ''0'') (dec_string y)) = y" "read_nat (pad2 m) = m" "read_nat (pad2 k) = k"
    "read_nat (pad2 h) = h" "read_nat (pad2 n) = n" "read_nat (pad2 s) = s" "read_nat (pad_left 3 (CHR ''0'') (dec_string z)) = z"
    unfolding pad2_def using y m k b by (auto intro!: read_nat_pad)
  have "read_iso (toISOString ms) = day_of_date y m k * 86400000 + h * 3600000 + n * 60000 + s * 1000 + z"
    unfolding read_iso_def iso by (simp add: len val)
  also have "\<dots> = ms div 86400000 * 86400000 + t"
    using time civil_date_inverse[OF date] by (simp add: day_of_def)
  finally show ?thesis
    by (simp add: t_def)
qed

end
