(* ===== verification/LogRotation.thy ===== *)
theory LogRotation
  imports JsDate Config "HOL-Library.Sublist" "HOL-Library.AList"
begin

text \<open>
  The log files (\<open>src/services/log-rotation.service.ts\<close>): everything written to the console is appended to
  a file of the day, and files older than the retention are deleted once a day. The directory is a list
  of names with their modification time and text; arguments of a log call are given as the texts
  \<open>formatArg\<close> makes of them.
\<close>

record log_file =
  lf_mtimeMs :: int
  lf_text :: string

record log_service =
  lg_retentionDays :: jsnum
  lg_hooked :: bool
  lg_currentDate :: "string option"
  lg_currentStream :: "string option"
  lg_files :: "(string \<times> log_file) list"

definition new_log_service :: "config \<Rightarrow> (string \<times> log_file) list \<Rightarrow> log_service" where
  "new_log_service env files =
     (let parsed = parse_int 10 (if truthy (env ''LOG_RETENTION_DAYS'') then the (env ''LOG_RETENTION_DAYS'') else ''7'')
      in \<lparr>lg_retentionDays = (if js_is_finite parsed \<and> js_gt parsed (Num 0) then parsed else Num 7),
          lg_hooked = False, lg_currentDate = None, lg_currentStream = None, lg_files = files\<rparr>)"

definition todayStamp :: "int \<Rightarrow> string" where
  "todayStamp now =
     (case civil_date (day_of now) of (y, m, d) \<Rightarrow> dec_string y @ ''-'' @ pad2 m @ ''-'' @ pad2 d)"

definition log_name :: "string \<Rightarrow> string" where
  "log_name date = ''pool-'' @ date @ ''.log''"

text \<open>\<open>/^pool-\d{4}-\d{2}-\d{2}\.log$/\<close>\<close>

definition all_digits :: "string \<Rightarrow> bool" where
  "all_digits s \<longleftrightarrow> list_all (\<lambda>c. digit_val c < 10) s"

definition is_log_name :: "string \<Rightarrow> bool" where
  "is_log_name s \<longleftrightarrow> length s = 19 \<and> take 5 s = ''pool-'' \<and> all_digits (take 4 (drop 5 s)) \<and> s ! 9 = CHR ''-'' \<and>
     all_digits (take 2 (drop 10 s)) \<and> s ! 12 = CHR ''-'' \<and> all_digits (take 2 (drop 13 s)) \<and> drop 15 s = ''.log''"

definition rollStream :: "string \<Rightarrow> int \<Rightarrow> log_service \<Rightarrow> log_service" where
  "rollStream target now st =
     st\<lparr>lg_currentStream := Some (log_name target), lg_currentDate := Some target,
       lg_files := (if log_name target \<in> fst ` set (lg_files st) then lg_files st
                    else lg_files st @ [(log_name target, \<lparr>lf_mtimeMs = now, lf_text = []\<rparr>)])\<rparr>"

definition ensureStream :: "int \<Rightarrow> log_service \<Rightarrow> log_service" where
  "ensureStream now st =
     (let today = todayStamp now
      in if lg_currentStream st \<noteq> None \<and> lg_currentDate st = Some today then st else rollStream today now st)"

definition log_cutoff :: "int \<Rightarrow> log_service \<Rightarrow> jsnum" where
  "log_cutoff now st =
     js_sub (IntN now) (js_mul (js_mul (js_mul (js_mul (lg_retentionDays st) (Num 24)) (Num 60)) (Num 60)) (Num 1000))"

definition cleanupOldLogs :: "int \<Rightarrow> log_service \<Rightarrow> log_service" where
  "cleanupOldLogs now st =
     st\<lparr>lg_files := filter (\<lambda>(name, f). \<not> (is_log_name name \<and> js_lt (IntN (lf_mtimeMs f)) (log_cutoff now st)))
                      (lg_files st)\<rparr>"

text \<open>A line goes to the open stream; when its file was deleted meanwhile the line is lost.\<close>

definition log_line :: "int \<Rightarrow> string \<Rightarrow> string list \<Rightarrow> string" where
  "log_line now level args = toISOString now @ '' ['' @ level @ ''] '' @ join_with '' '' args @ [CHR 0x0A]"

definition append_line :: "int \<Rightarrow> string \<Rightarrow> string \<Rightarrow> (string \<times> log_file) list \<Rightarrow> (string \<times> log_file) list" where
  "append_line now name line files =
     map (\<lambda>(n, f). (n, if n = name then \<lparr>lf_mtimeMs = now, lf_text = lf_text f @ line\<rparr> else f)) files"

definition log_write :: "int \<Rightarrow> string \<Rightarrow> string list \<Rightarrow> log_service \<Rightarrow> log_service" where
  "log_write now level args st =
     (if \<not> lg_hooked st then st
      else let st1 = ensureStream now st
           in st1\<lparr>lg_files := append_line now (the (lg_currentStream st1)) (log_line now level args) (lg_files st1)\<rparr>)"

definition log_module_init :: "config \<Rightarrow> bool \<Rightarrow> int \<Rightarrow> log_service \<Rightarrow> log_service" where
  "log_module_init env directory now st =
     (if \<not> is_primary_instance env then st
      else if \<not> directory then st
      else cleanupOldLogs now (st\<lparr>lg_hooked := True\<rparr>))"

definition dailyRotate :: "int \<Rightarrow> log_service \<Rightarrow> log_service" where
  "dailyRotate now st = cleanupOldLogs now (rollStream (todayStamp now) now st)"

section \<open>What is kept\<close>

datatype log_event = Write int string "string list" | Rotate int

fun log_time :: "log_event \<Rightarrow> int" where
  "log_time (Write now level args) = now"
| "log_time (Rotate now) = now"

fun log_step :: "log_event \<Rightarrow> log_service \<Rightarrow> log_service" where
  "log_step (Write now level args) st = log_write now level args st"
| "log_step (Rotate now) st = dailyRotate now st"

text \<open>\<open>holds name txt t st\<close>: the file exists, starts with the text, and was last written at \<open>t\<close> or later.\<close>

definition holds :: "string \<Rightarrow> string \<Rightarrow> int \<Rightarrow> log_service \<Rightarrow> bool" where
  "holds name txt t st \<longleftrightarrow> (\<exists>f. (name, f) \<in> set (lg_files st) \<and> prefix txt (lf_text f) \<and> t \<le> lf_mtimeMs f)"

lemma holds_roll: "holds name txt t st \<Longrightarrow> holds name txt t (rollStream target now st)"
  by (auto simp: holds_def rollStream_def)

lemma holds_append:
  assumes "holds name txt t st" and "t \<le> now"
  shows "holds name txt t (st\<lparr>lg_files := append_line now n line (lg_files st)\<rparr>)"
proof -
  obtain f where "(name, f) \<in> set (lg_files st)" "prefix txt (lf_text f)" "t \<le> lf_mtimeMs f"
    using assms(1) by (auto simp: holds_def)
  then show ?thesis
    using assms(2) unfolding holds_def append_line_def
    by (intro exI[of _ "if name = n then \<lparr>lf_mtimeMs = now, lf_text = lf_text f @ line\<rparr> else f"]) force
qed

lemma holds_cleanup:
  assumes "holds name txt t st" and "js_le (log_cutoff now st) (IntN t)"
  shows "holds name txt t (cleanupOldLogs now st)"
proof -
  obtain f where f: "(name, f) \<in> set (lg_files st)" "prefix txt (lf_text f)" "t \<le> lf_mtimeMs f"
    using assms(1) by (auto simp: holds_def)
  then have "js_le (log_cutoff now st) (IntN (lf_mtimeMs f))"
    using js_le_trans[OF assms(2)] by simp
  then have "\<not> js_lt (IntN (lf_mtimeMs f)) (log_cutoff now st)"
    using js_lt_le_trans js_lt_irrefl by blast
  then show ?thesis
    using f by (auto simp: holds_def cleanupOldLogs_def)
qed

lemma step_keeps_retention: "lg_retentionDays (log_step e st) = lg_retentionDays st"
  by (cases e) (simp_all add: log_write_def ensureStream_def Let_def rollStream_def dailyRotate_def cleanupOldLogs_def)

text \<open>
  A line is kept for the retention time: while no event is further from the time \<open>t\<close> of its writing than
  the retention, its file still starts with what it held then, whatever is logged and rotated.
\<close>

lemma lines_kept_for_retention:
  assumes "holds name txt t st"
    and "\<And>e. e \<in> set es \<Longrightarrow> t \<le> log_time e \<and> js_le (log_cutoff (log_time e) st) (IntN t)"
  shows "holds name txt t (fold log_step es st)"
  using assms
proof (induction es arbitrary: st)
  case (Cons e es)
  have cut: "log_cutoff now (rollStream d now st) = log_cutoff now st" for now d
    by (simp add: log_cutoff_def rollStream_def)
  have "holds name txt t (log_step e st)"
  proof (cases e)
    case (Write now level args)
    then have "t \<le> now"
      using Cons.prems(2)[of e] by simp
    moreover have "holds name txt t (ensureStream now st)"
      using Cons.prems(1) by (simp add: ensureStream_def Let_def holds_roll)
    ultimately show ?thesis
      using Write Cons.prems(1) by (simp add: log_write_def Let_def holds_append)
  next
    case (Rotate now)
    then show ?thesis
      using Cons.prems(1) Cons.prems(2)[of e] by (simp add: dailyRotate_def holds_cleanup holds_roll cut)
  qed
  moreover have "log_cutoff now (log_step e st) = log_cutoff now st" for now
    by (simp add: log_cutoff_def step_keeps_retention)
  ultimately show ?case
    using Cons.IH[of "log_step e st"] Cons.prems(2) by simp
qed simp

text \<open>After a rotation no log file is older than the retention, and other files are never touched.\<close>

lemma rotation_deletes_old:
  "(name, f) \<in> set (lg_files (dailyRotate now st)) \<Longrightarrow> is_log_name name \<Longrightarrow>
     \<not> js_lt (IntN (lf_mtimeMs f)) (log_cutoff now st)"
  by (auto simp: dailyRotate_def cleanupOldLogs_def log_cutoff_def rollStream_def)

lemma rotation_keeps_others:
  "(name, f) \<in> set (lg_files st) \<Longrightarrow> \<not> is_log_name name \<Longrightarrow> (name, f) \<in> set (lg_files (dailyRotate now st))"
  by (auto simp: dailyRotate_def cleanupOldLogs_def rollStream_def)

lemma log_name_example: "is_log_name (log_name (todayStamp 951782400000))" "\<not> is_log_name ''pool-2024-1-01.log''"
  by code_simp+

end
