(* ===== verification/Dashboard.thy ===== *)
theory Dashboard
  imports "HOL-Library.Multiset" JsDate JsValue Config PayoutLedger ShareLog PoolRegistry ClientRegistry ClientStatistics AddressSettings NodeRpc
begin

text \<open>
  What the HTTP interface shows: the views of a miner, a worker and a session
  (\<open>src/controllers/client\<close>), of balances and payouts (\<open>src/controllers/pplns\<close>) and of the site
  (\<open>src/app.controller.ts\<close>), and the clean-up timers of \<open>src/services/app.service.ts\<close>. A view is a
  function of the tables. \<open>sql_sum\<close> is SQLite's \<open>SUM\<close>, the cache of the site's views is the two
  functions \<open>cget\<close> and \<open>cset\<close>, and \<open>miningInfo\<close> is the latest value the node client announced.
\<close>

section \<open>Clients\<close>

record worker_view =
  wv_sessionId :: string
  wv_name :: string
  wv_bestDifficulty :: string
  wv_hashRate :: jsnum
  wv_startTime :: int
  wv_lastSeen :: int

record client_view =
  cv_bestDifficulty :: "jsnum option"
  cv_workersCount :: nat
  cv_accounting :: accounting_view
  cv_bestSubmissionDifficulty :: jsnum
  cv_bestSubmissionDifficultyAt :: "int option"
  cv_workers :: "worker_view list"

definition worker_view_of :: "(jsnum \<Rightarrow> string) \<Rightarrow> client_row \<Rightarrow> worker_view" where
  "worker_view_of big w =
     \<lparr>wv_sessionId = pc_sessionId w, wv_name = pc_clientName w, wv_bestDifficulty = to_fixed big 2 (cl_bestDifficulty w),
      wv_hashRate = cl_hashRate w, wv_startTime = pc_startTime w, wv_lastSeen = cl_updatedAt w\<rparr>"

definition getClientInfo ::
  "(jsnum list \<Rightarrow> jsnum) \<Rightarrow> (jsnum \<Rightarrow> string) \<Rightarrow> int \<Rightarrow> string \<Rightarrow> client_service \<Rightarrow> address_table \<Rightarrow> statistics_table \<Rightarrow> client_view" where
  "getClientInfo sql_sum big now address cl addrs st =
     (let workers = getByAddress address cl;
          addressSettings = snd (AddressSettings.getSettings now address False addrs)
      in \<lparr>cv_bestDifficulty = map_option as_bestDifficulty addressSettings,
          cv_workersCount = length workers,
          cv_accounting = getAccountingForAddress sql_sum now address st,
          cv_bestSubmissionDifficulty = (case addressSettings of None \<Rightarrow> Num 0 | Some r \<Rightarrow> as_bestDifficulty r),
          cv_bestSubmissionDifficultyAt = map_option as_updatedAt addressSettings,
          cv_workers = map (worker_view_of big) workers\<rparr>)"

definition getClientInfoChart ::
  "(jsnum list \<Rightarrow> jsnum) \<Rightarrow> int \<Rightarrow> string \<Rightarrow> statistics_table \<Rightarrow> (string \<times> jsnum) list" where
  "getClientInfoChart sql_sum now address st = getChartDataForAddress sql_sum toISOString now address st"

record group_view =
  gv_name :: string
  gv_bestDifficulty :: jsnum
  gv_chartData :: "(string \<times> jsnum) list"
  gv_accounting :: accounting_view
  gv_bestSubmissionDifficulty :: jsnum

definition getWorkerGroupInfo ::
  "(jsnum list \<Rightarrow> jsnum) \<Rightarrow> int \<Rightarrow> string \<Rightarrow> string \<Rightarrow> client_service \<Rightarrow> statistics_table \<Rightarrow> group_view" where
  "getWorkerGroupInfo sql_sum now address workerName cl st =
     (let workers = getByName address workerName cl;
          bestDifficulty = foldl (\<lambda>pre cur. if js_gt (cl_bestDifficulty cur) pre then cl_bestDifficulty cur else pre)
                             (Num 0) workers
      in \<lparr>gv_name = workerName, gv_bestDifficulty = js_floor bestDifficulty,
          gv_chartData = getChartDataForGroup sql_sum toISOString now address workerName st,
          gv_accounting = getAccountingForGroup sql_sum now address workerName st,
          gv_bestSubmissionDifficulty = bestDifficulty\<rparr>)"

record session_view =
  sv_sessionId :: string
  sv_name :: string
  sv_bestDifficulty :: jsnum
  sv_chartData :: "(string \<times> jsnum) list"
  sv_startTime :: int
  sv_accounting :: accounting_view
  sv_bestSubmissionDifficulty :: jsnum

text \<open>\<open>None\<close> is the \<open>NotFoundException\<close>, which the code returns as a value.\<close>

definition getWorkerInfo ::
  "(jsnum list \<Rightarrow> jsnum) \<Rightarrow> int \<Rightarrow> string \<Rightarrow> string \<Rightarrow> string \<Rightarrow> client_service \<Rightarrow> statistics_table \<Rightarrow> session_view option" where
  "getWorkerInfo sql_sum now address workerName sessionId cl st =
     (case getBySessionId address workerName sessionId cl of
        None \<Rightarrow> None
      | Some w \<Rightarrow>
          (let key = \<lparr>k_address = pc_address w, k_clientName = pc_clientName w, k_sessionId = pc_sessionId w\<rparr>
           in Some \<lparr>sv_sessionId = pc_sessionId w, sv_name = pc_clientName w,
                    sv_bestDifficulty = js_floor (cl_bestDifficulty w),
                    sv_chartData = getChartDataForSession sql_sum toISOString now key st,
                    sv_startTime = pc_startTime w,
                    sv_accounting = getAccountingForSession sql_sum now key st,
                    sv_bestSubmissionDifficulty = cl_bestDifficulty w\<rparr>))"

section \<open>Balances and payouts\<close>

record balance_view =
  bv_pendingSats :: jsnum
  bv_lastPayoutAt :: "int option"
  bv_totalPaidSats :: jsnum

definition getPendingBalance :: "string \<Rightarrow> ledger \<Rightarrow> balance_view" where
  "getPendingBalance address l =
     \<lparr>bv_pendingSats = getPendingTotal address l, bv_lastPayoutAt = getLastPayoutAt address l,
      bv_totalPaidSats = getTotalPaid address l\<rparr>"

record payout_view =
  pv_blockHeight :: int
  pv_amountSats :: int
  pv_txid :: "string option"
  pv_status :: ePayoutStatus
  pv_timestamp :: int

definition payout_view_of :: "ledger_row \<Rightarrow> payout_view" where
  "payout_view_of r =
     \<lparr>pv_blockHeight = l_blockHeight r, pv_amountSats = l_amountSats r, pv_txid = l_txid r, pv_status = l_status r,
      pv_timestamp = l_updatedAt r\<rparr>"

definition payout_history :: "string \<Rightarrow> ledger \<Rightarrow> payout_view list" where
  "payout_history address l = map payout_view_of (getPayoutHistory address 100 l)"

fun status_text :: "ePayoutStatus \<Rightarrow> string" where
  "status_text PENDING = ''PENDING''"
| "status_text SENT = ''SENT''"
| "status_text CONFIRMED = ''CONFIRMED''"

definition int_string :: "int \<Rightarrow> string" where
  "int_string n = (if n < 0 then ''-'' @ dec_string (- n) else dec_string n)"

definition csv_header :: string where
  "csv_header = ''blockHeight,amountSats,txid,status,timestamp''"

definition csv_fields :: "ledger_row \<Rightarrow> string list" where
  "csv_fields r =
     [int_string (l_blockHeight r), int_string (l_amountSats r), (case l_txid r of None \<Rightarrow> [] | Some t \<Rightarrow> t),
      status_text (l_status r), toISOString (l_updatedAt r)]"

definition csv_text :: "ledger_row list \<Rightarrow> string" where
  "csv_text rows = join_with [CHR 0x0A] (csv_header # map (\<lambda>r. join_with [CHR '',''] (csv_fields r)) rows) @ [CHR 0x0A]"

definition getPayoutHistoryCsv :: "string \<Rightarrow> ledger \<Rightarrow> string" where
  "getPayoutHistoryCsv address l = csv_text (getPayoutHistory address 100000 l)"

definition getPplnsWindowStats :: "(jsnum list \<Rightarrow> jsnum) \<Rightarrow> config \<Rightarrow> int \<Rightarrow> share_log \<Rightarrow> jsnum \<times> jsnum \<times> nat" where
  "getPplnsWindowStats sql_sum cfg now sl =
     (let windowMinutes = getWindowMinutes cfg;
          windowStart = js_sub (IntN now) (js_mul (js_mul windowMinutes (Num 60)) (Num 1000))
      in (windowMinutes, getWindowStats sql_sum windowStart sl))"

definition getTelegramInfo :: "config \<Rightarrow> string option" where
  "getTelegramInfo cfg =
     (case map_option trim (cfg ''TELEGRAM_BOT_USERNAME'') of
        None \<Rightarrow> None
      | Some [] \<Rightarrow> None
      | Some (c # cs) \<Rightarrow> Some (if c = CHR ''@'' then cs else c # cs))"

definition trimmed_setting :: "config \<Rightarrow> string \<Rightarrow> string option" where
  "trimmed_setting cfg key =
     (case map_option trim (cfg key) of None \<Rightarrow> None | Some t \<Rightarrow> if t = [] then None else Some t)"

definition getPoolIdentity :: "config \<Rightarrow> string option \<times> string option" where
  "getPoolIdentity cfg = (trimmed_setting cfg ''POOL_IDENTIFIER'', trimmed_setting cfg ''POOL_URL'')"

definition getPoolIdentityConfirm ::
  "config \<Rightarrow> int \<Rightarrow> string option \<Rightarrow> registry \<Rightarrow> registry \<times> bool \<times> string option \<times> string option" where
  "getPoolIdentityConfirm cfg now blockHash reg =
     (case blockHash of
        None \<Rightarrow> (reg, False, getPoolIdentity cfg)
      | Some h \<Rightarrow>
          if h = [] then (reg, False, getPoolIdentity cfg)
          else case wasRecentlyFound now h reg of (reg', found) \<Rightarrow> (reg', found, getPoolIdentity cfg))"

section \<open>The site\<close>

record site_info =
  si_blockData :: "(jsnum \<times> string \<times> string \<times> string) list"
  si_userAgents :: "(string \<times> nat \<times> jsnum \<times> jsnum) list"
  si_highScores :: "(int \<times> jsnum \<times> string option) list"
  si_uptime :: int

record pool_info =
  pi_totalHashRate :: jsnum
  pi_blockHeight :: jsval
  pi_totalMiners :: jsnum
  pi_blocksFound :: "(jsnum \<times> string \<times> string \<times> string) list"
  pi_fee :: int

record site_accounting =
  sa_accounting :: accounting_view
  sa_bestSubmissionDifficulty :: jsnum
  sa_bestSubmissionDifficultyAt :: "int option"
  sa_networkDifficultyPercent :: jsnum

datatype cached_value =
    SiteInfo site_info | PoolInfo pool_info | Chart "(string \<times> jsnum) list" | Accounting site_accounting

definition cached ::
  "(string \<Rightarrow> int \<Rightarrow> 'c \<Rightarrow> 'v option) \<Rightarrow> (string \<Rightarrow> 'v \<Rightarrow> int \<Rightarrow> int \<Rightarrow> 'c \<Rightarrow> 'c) \<Rightarrow> string \<Rightarrow> int \<Rightarrow> 'v \<Rightarrow> int \<Rightarrow> 'c \<Rightarrow> 'c \<times> 'v" where
  "cached cget cset key ttl v now c =
     (case cget key now c of Some w \<Rightarrow> (c, w) | None \<Rightarrow> (cset key v ttl now c, v))"

definition site_info_of ::
  "(jsnum list \<Rightarrow> jsnum) \<Rightarrow> int \<Rightarrow> client_service \<Rightarrow> address_table \<Rightarrow> found_block list \<Rightarrow> site_info" where
  "site_info_of sql_sum uptime cl addrs blocks =
     \<lparr>si_blockData = getFoundBlocks blocks, si_userAgents = getUserAgents sql_sum cl, si_highScores = getHighScores addrs,
      si_uptime = uptime\<rparr>"

text \<open>\<open>parseFloat\<close> and \<open>parseInt\<close> of a number that the query returned give the number back.\<close>

definition pool_info_of ::
  "(jsnum list \<Rightarrow> jsnum) \<Rightarrow> jsval \<Rightarrow> client_service \<Rightarrow> found_block list \<Rightarrow> pool_info" where
  "pool_info_of sql_sum miningInfo cl blocks =
     (let userAgents = getUserAgents sql_sum cl
      in \<lparr>pi_totalHashRate = foldl (\<lambda>acc (ua, n, best, rate). js_add acc rate) (Num 0) userAgents,
          pi_blockHeight = jprop ''blocks'' miningInfo,
          pi_totalMiners = foldl (\<lambda>acc (ua, n, best, rate). js_add acc (IntN (int n))) (Num 0) userAgents,
          pi_blocksFound = getFoundBlocks blocks, pi_fee = 0\<rparr>)"

definition site_accounting_of ::
  "(jsnum list \<Rightarrow> jsnum) \<Rightarrow> int \<Rightarrow> jsval fallible \<Rightarrow> address_table \<Rightarrow> statistics_table \<Rightarrow> site_accounting" where
  "site_accounting_of sql_sum now miningInfo addrs st =
     (let accounting = getAccountingForPool sql_sum now st;
          networkDifficulty = (case miningInfo of
             Inl e \<Rightarrow> Num 0
           | Inr m \<Rightarrow> if nullish (jprop ''difficulty'' m) then Num 0 else val_num (jprop ''difficulty'' m))
      in \<lparr>sa_accounting = accounting,
          sa_bestSubmissionDifficulty = (case getHighScores addrs of [] \<Rightarrow> Num 0 | (at1, best, ua) # _ \<Rightarrow> best),
          sa_bestSubmissionDifficultyAt = (case getHighScores addrs of [] \<Rightarrow> None | (at1, best, ua) # _ \<Rightarrow> Some at1),
          sa_networkDifficultyPercent =
            (if js_gt networkDifficulty (Num 0)
             then js_mul (js_div (a_totalCreditedDifficulty accounting) networkDifficulty) (Num 100) else Num 0)\<rparr>)"

definition info where
  "info cget cset sql_sum uptime now cl addrs blocks c =
     cached cget cset ''SITE_INFO'' (1 * 60 * 1000) (SiteInfo (site_info_of sql_sum uptime cl addrs blocks)) now c"

definition pool where
  "pool cget cset sql_sum miningInfo now cl blocks c =
     cached cget cset ''POOL_INFO'' (5 * 60 * 1000) (PoolInfo (pool_info_of sql_sum miningInfo cl blocks)) now c"

definition infoChart where
  "infoChart cget cset sql_sum now st c =
     cached cget cset ''SITE_HASHRATE_GRAPH'' (10 * 60 * 1000) (Chart (getChartDataForSite sql_sum toISOString now st)) now c"

definition infoAccounting where
  "infoAccounting cget cset sql_sum miningInfo now addrs st c =
     cached cget cset ''SITE_ACCOUNTING'' (10 * 1000) (Accounting (site_accounting_of sql_sum now miningInfo addrs st)) now c"

text \<open>The view \<open>network\<close> is the last block announced by \<open>newBlock$\<close>; it waits for the first one.\<close>

definition network_view :: "jsval list \<Rightarrow> jsval option" where
  "network_view vs = (if vs = [] then None else Some (last vs))"

section \<open>Clean-up timers\<close>

datatype cleanup_job = DeleteOldStatistics | KillDeadClients | DeleteOldBlocks

record tables =
  tt_statistics :: statistics_table
  tt_clients :: client_service
  tt_blocks :: "rpc_block list"

definition cleanup_timers :: "config \<Rightarrow> (cleanup_job \<times> int) list" where
  "cleanup_timers env =
     (if is_primary_instance env
      then [(DeleteOldStatistics, 1000 * 60 * 60), (KillDeadClients, 1000 * 60 * 5), (DeleteOldBlocks, 1000 * 60 * 60 * 24)]
      else [])"

fun run_cleanup :: "cleanup_job \<Rightarrow> int \<Rightarrow> tables \<Rightarrow> tables" where
  "run_cleanup DeleteOldStatistics now t =
     t\<lparr>tt_statistics := deleteOldStatistics now (tt_statistics t), tt_clients := deleteOldClients now (tt_clients t)\<rparr>"
| "run_cleanup KillDeadClients now t = t\<lparr>tt_clients := killDeadClients now (tt_clients t)\<rparr>"
| "run_cleanup DeleteOldBlocks now t = t\<lparr>tt_blocks := deleteOldBlocks (tt_blocks t)\<rparr>"

section \<open>Reading the export back\<close>

text \<open>
  A reader of the export splits it into lines and the lines at the commas, and looks the columns up by the names the first
  line gives them. It knows nothing of the order in which they were written.
\<close>

definition read_csv :: "string \<Rightarrow> string list list" where
  "read_csv txt = map (split_on (CHR '','')) (butlast (split_on (CHR 0x0A) txt))"

definition column :: "string list \<Rightarrow> string list \<Rightarrow> string \<Rightarrow> string" where
  "column header entries name = (case map_of (zip header entries) name of None \<Rightarrow> [] | Some v \<Rightarrow> v)"

definition read_integer :: "string \<Rightarrow> int" where
  "read_integer s = (case scan_sign s of (sg, t) \<Rightarrow> sg * read_nat t)"

definition read_status :: "string \<Rightarrow> ePayoutStatus" where
  "read_status s = (if s = ''SENT'' then SENT else if s = ''CONFIRMED'' then CONFIRMED else PENDING)"

definition read_row :: "string list \<Rightarrow> string list \<Rightarrow> payout_view" where
  "read_row header entries =
     \<lparr>pv_blockHeight = read_integer (column header entries ''blockHeight''),
      pv_amountSats = read_integer (column header entries ''amountSats''),
      pv_txid = (let t = column header entries ''txid'' in if t = [] then None else Some t),
      pv_status = read_status (column header entries ''status''), pv_timestamp = read_iso (column header entries ''timestamp'')\<rparr>"

definition read_export :: "string \<Rightarrow> payout_view list" where
  "read_export txt = (case read_csv txt of [] \<Rightarrow> [] | header # lines \<Rightarrow> map (read_row header) lines)"

lemma split_on_none: "c \<notin> set w \<Longrightarrow> split_on c w = [w]"
  by (induction w) auto

lemma split_on_append: "c \<notin> set w \<Longrightarrow> split_on c (w @ c # s) = w # split_on c s"
  by (induction w) auto

lemma split_join:
  "ws \<noteq> [] \<Longrightarrow> (\<And>w. w \<in> set ws \<Longrightarrow> c \<notin> set w) \<Longrightarrow> split_on c (join_with [c] ws) = ws"
  by (induction "[c]" ws rule: join_with.induct) (simp_all add: split_on_none split_on_append)

lemma split_lines:
  "(\<And>w. w \<in> set ws \<Longrightarrow> c \<notin> set w) \<Longrightarrow> ws \<noteq> [] \<Longrightarrow> split_on c (join_with [c] ws @ [c]) = ws @ [[]]"
  by (induction "[c]" ws rule: join_with.induct) (simp_all add: split_on_append)

lemma set_join: "set (join_with sep ws) \<subseteq> \<Union> (set ` set ws) \<union> set sep"
  by (induction sep ws rule: join_with.induct) auto

text \<open>What the fields of a row are made of: no comma, no line break.\<close>

definition separators :: "char set" where
  "separators = {CHR '','', CHR 0x0A}"

lemma dec_string_clean: "0 \<le> n \<Longrightarrow> set (dec_string n) \<inter> separators = {}"
  using radix_string_chars[of n 10 "CHR '',''"] radix_string_chars[of n 10 "CHR 0x0A"]
  by (auto simp: dec_string_def separators_def digit_val_def code_unit_def Let_def)

lemma pad_left_clean: "0 \<le> n \<Longrightarrow> set (pad_left k (CHR ''0'') (dec_string n)) \<inter> separators = {}"
  using dec_string_clean[of n] by (auto simp: pad_left_def separators_def)

lemma int_string_clean: "set (int_string n) \<inter> separators = {}"
  using dec_string_clean[of n] dec_string_clean[of "- n"] by (auto simp: int_string_def separators_def)

lemma status_text_clean: "set (status_text st) \<inter> separators = {}"
  by (cases st) (auto simp: separators_def)

lemma toISOString_clean: "set (toISOString ms) \<inter> separators = {}"
proof -
  obtain y m d where c: "civil_date (day_of ms) = (y, m, d)"
    by (metis prod_cases3)
  then have "0 \<le> m" "0 \<le> d"
    using civil_date_bounds[OF c] by auto
  then have "set (toISOString ms) \<subseteq> - separators"
    using pad_left_clean[of y] pad_left_clean[of "\<bar>y\<bar>"] pad_left_clean[of m] pad_left_clean[of d]
      pad_left_clean[of "ms mod 86400000 div 3600000"] pad_left_clean[of "ms mod 86400000 div 60000 mod 60"]
      pad_left_clean[of "ms mod 86400000 div 1000 mod 60"] pad_left_clean[of "ms mod 86400000 mod 1000"]
    unfolding toISOString_def c Let_def pad2_def
    by (simp add: pos_imp_zdiv_nonneg_iff disjoint_eq_subset_Compl) (auto simp: separators_def)
  then show ?thesis
    by (simp add: disjoint_eq_subset_Compl)
qed

definition exportable :: "ledger_row \<Rightarrow> bool" where
  "exportable r \<longleftrightarrow> common_time (l_updatedAt r) \<and> (\<forall>t. l_txid r = Some t \<longrightarrow> t \<noteq> [] \<and> set t \<inter> separators = {})"

lemma csv_fields_clean: "exportable r \<Longrightarrow> w \<in> set (csv_fields r) \<Longrightarrow> set w \<inter> separators = {}"
  using int_string_clean status_text_clean toISOString_clean
  by (auto simp: csv_fields_def exportable_def split: option.splits) blast+

lemma read_integer_text: "read_integer (int_string n) = n"
proof (cases "n < 0")
  case False
  then have sign: "CHR ''-'' \<notin> set (dec_string n)" "CHR ''+'' \<notin> set (dec_string n)"
    using radix_string_chars[of n 10 "CHR ''-''"] radix_string_chars[of n 10 "CHR ''+''"]
    by (auto simp: dec_string_def digit_val_def code_unit_def Let_def)
  then have "scan_sign (dec_string n) = (1, dec_string n)"
    by (cases "dec_string n") (auto simp: scan_sign_def)
  then show ?thesis
    using False read_nat_dec[of n] by (simp add: read_integer_def int_string_def)
qed (simp add: read_integer_def int_string_def scan_sign_def read_nat_dec)

abbreviation csv_columns :: "string list" where
  "csv_columns \<equiv> [''blockHeight'', ''amountSats'', ''txid'', ''status'', ''timestamp'']"

lemma read_row_fields: "exportable r \<Longrightarrow> read_row csv_columns (csv_fields r) = payout_view_of r"
  by (cases "l_status r"; cases "l_txid r")
    (auto simp: read_row_def payout_view_of_def csv_fields_def column_def read_integer_text read_status_def read_iso_text
      exportable_def)

lemma read_csv_text:
  assumes "\<And>r. r \<in> set rows \<Longrightarrow> exportable r"
  shows "read_csv (csv_text rows) = csv_columns # map csv_fields rows"
proof -
  have clean: "set w \<inter> separators = {}" if "r \<in> set rows" "w \<in> set (csv_fields r)" for r w
    using csv_fields_clean[OF assms] that by blast
  have "CHR 0x0A \<notin> set (join_with [CHR '',''] (csv_fields r))" if "r \<in> set rows" for r
    using set_join[of "[CHR '','']" "csv_fields r"] clean[OF that] by (fastforce simp: separators_def)
  then have "split_on (CHR 0x0A) (csv_text rows) = (csv_header # map (\<lambda>r. join_with [CHR '',''] (csv_fields r)) rows) @ [[]]"
    unfolding csv_text_def by (intro split_lines) (auto simp: csv_header_def)
  moreover have "split_on (CHR '','') (join_with [CHR '',''] (csv_fields r)) = csv_fields r" if "r \<in> set rows" for r
    using clean[OF that] by (intro split_join) (auto simp: csv_fields_def separators_def)
  moreover have "split_on (CHR '','') csv_header = csv_columns"
    by (simp add: csv_header_def)
  ultimately show ?thesis
    by (simp add: read_csv_def)
qed

lemma read_export_text: "(\<And>r. r \<in> set rows \<Longrightarrow> exportable r) \<Longrightarrow> read_export (csv_text rows) = map payout_view_of rows"
  by (simp add: read_export_def read_csv_text read_row_fields)

lemma sorted_views: "sorted (map (\<lambda>r. - l_updatedAt r) rs) \<Longrightarrow> sorted_wrt (\<lambda>v w. pv_timestamp w \<le> pv_timestamp v) (map payout_view_of rs)"
  by (simp add: sorted_wrt_map payout_view_of_def)

text \<open>
  C40. The payout export can be read back: a reader that looks the columns up by the names in the first line gets height,
  amount, transaction id, status and time of the address's payouts (its rows that are sent or confirmed), the
  latest first: all of them when there are at most 100000, otherwise the latest 100000 (\<open>rest\<close> are those left
  out). The transaction ids, where there are any, are not empty and hold no comma and no line break, and the times are those of the years 1970 to 9999.
\<close>

theorem csv_roundtrip:
  assumes "\<forall>r \<in> set (l_rows l). exportable r"
  shows "let payouts = map payout_view_of (filter (\<lambda>r. l_minerAddress r = address \<and> l_status r \<noteq> PENDING) (l_rows l));
             views = read_export (getPayoutHistoryCsv address l)
         in length views = min 100000 (length payouts) \<and>
            (\<exists>rest. mset views + mset rest = mset payouts \<and> sorted_wrt (\<lambda>v w. pv_timestamp w \<le> pv_timestamp v) (views @ rest))"
proof -
  let ?paid = "filter (\<lambda>r. l_minerAddress r = address \<and> l_status r \<noteq> PENDING) (l_rows l)"
  let ?sorted = "sort_key (\<lambda>r. - l_updatedAt r) ?paid"
  have paid: "is_paid = (\<lambda>r. l_status r \<noteq> PENDING)"
  proof
    show "is_paid r = (l_status r \<noteq> PENDING)" for r
      by (cases "l_status r") (auto simp: is_paid_def)
  qed
  have history: "getPayoutHistory address 100000 l = take 100000 ?sorted"
    by (simp add: getPayoutHistory_def paid)
  have "exportable r" if "r \<in> set (take 100000 ?sorted)" for r
    using assms in_set_takeD[OF that] by simp
  then have views: "read_export (getPayoutHistoryCsv address l) = map payout_view_of (take 100000 ?sorted)"
    unfolding getPayoutHistoryCsv_def history by (rule read_export_text)
  let ?rest = "map payout_view_of (drop 100000 ?sorted)"
  have parts: "map payout_view_of (take 100000 ?sorted) @ ?rest = map payout_view_of ?sorted"
    by (simp flip: map_append)
  have "mset (map payout_view_of (take 100000 ?sorted)) + mset ?rest = mset (map payout_view_of ?paid)"
    unfolding mset_append[symmetric] parts by simp
  moreover have "sorted_wrt (\<lambda>v w. pv_timestamp w \<le> pv_timestamp v) (map payout_view_of (take 100000 ?sorted) @ ?rest)"
    unfolding parts by (rule sorted_views) (rule sorted_sort_key)
  ultimately show ?thesis
    unfolding views Let_def by (intro conjI exI[of _ ?rest]) (simp_all add: min.commute)
qed

text \<open>Two payouts, one of them sent without a transaction id, and a credit that is still pending.\<close>

definition example_paid :: ledger where
  "example_paid =
     insert_credit 3 ''a'' 700 12
       (markSentUpTo 951782400000 ''a'' 2 (Some ''ab12'')
         (insert_credit 2 ''a'' 6000 11 (markSentUpTo 86400000 ''a'' 1 None (insert_credit 1 ''a'' 5000 10 empty_ledger))))"

lemma example_paid_rows: "\<forall>r \<in> set (l_rows example_paid). exportable r"
  by (simp add: example_paid_def exportable_def common_time_def separators_def markSentUpTo_def insert_credit_def
      empty_ledger_def update_where_def claimed_by_def is_pending_def)

theorem csv_roundtrip_witness:
  "length (read_export (getPayoutHistoryCsv ''a'' example_paid)) = 2 \<and>
   \<lparr>pv_blockHeight = 11, pv_amountSats = 6000, pv_txid = Some ''ab12'', pv_status = SENT, pv_timestamp = 951782400000\<rparr>
     \<in> set (read_export (getPayoutHistoryCsv ''a'' example_paid))"
proof -
  let ?payouts = "map payout_view_of (filter (\<lambda>r. l_minerAddress r = ''a'' \<and> l_status r \<noteq> PENDING) (l_rows example_paid))"
  have payouts: "?payouts =
      [\<lparr>pv_blockHeight = 10, pv_amountSats = 5000, pv_txid = None, pv_status = SENT, pv_timestamp = 86400000\<rparr>,
       \<lparr>pv_blockHeight = 11, pv_amountSats = 6000, pv_txid = Some ''ab12'', pv_status = SENT, pv_timestamp = 951782400000\<rparr>]"
    by code_simp
  have len: "length (read_export (getPayoutHistoryCsv ''a'' example_paid)) = 2"
    using csv_roundtrip[OF example_paid_rows, of "''a''"] unfolding Let_def payouts by simp
  obtain rest where parts: "mset (read_export (getPayoutHistoryCsv ''a'' example_paid)) + mset rest = mset ?payouts"
    using csv_roundtrip[OF example_paid_rows, of "''a''"] unfolding Let_def by blast
  from arg_cong[OF this, of size] have "rest = []"
    using len unfolding payouts by simp
  then have "set (read_export (getPayoutHistoryCsv ''a'' example_paid)) = set ?payouts"
    using parts by (intro mset_eq_setD) simp
  then show ?thesis
    using len unfolding payouts by simp
qed

section \<open>Cached views\<close>

text \<open>
  A view is either the value the cache still holds, which changes nothing, or computed now and stored
  with its time to live.
\<close>

lemma cached_fresh_or_stored:
  "cached cget cset key ttl v now c = (c', w) \<Longrightarrow> (w = v \<and> c' = cset key v ttl now c) \<or> (cget key now c = Some w \<and> c' = c)"
  by (auto simp: cached_def split: option.splits)

end
