(* ===== verification/PoolHistory.thy ===== *)
theory PoolHistory
  imports RewardCalculator PayoutScheduler
begin

text \<open>
  The books of the pool over its life: shares are recorded and pruned, blocks are found and split
  (\<open>RewardCalculator\<close>), and payout cycles and confirmations (\<open>PayoutScheduler\<close>) run beside them and beside each
  other, in any order and against any node. The timer starts a cycle, a reconciliation and a balance check in one tick
  and does not wait for those of the tick before, so cycles are cut at their awaits here and may overlap. The history
  counts the rewards the blocks brought in and the batches the wallet answered; the properties compare them
  with the tables. The credits of one block are written in one step: their block is immature, so no cycle
  that reads the table in between would see them as candidates.
\<close>

section \<open>Handlers that only add credits\<close>

definition difficulty_ok :: "jsnum \<Rightarrow> bool" where
  "difficulty_ok d \<longleftrightarrow> js_wf d \<and> js_lt (Num 0) d \<and> js_le d (Num (2 ^ 300))"

text \<open>
  What happens between two steps of a payout cycle. A block of height \<open>h\<close> follows the blocks credited
  before, and its reward and the size of its window are within the bound of exact doubles.
\<close>

inductive earning :: "config \<Rightarrow> pool_state \<times> int list \<Rightarrow> pool_state \<times> int list \<Rightarrow> bool" for cfg s where
  earn_start: "earning cfg s s"
| earn_share: "earning cfg s (p, rs) \<Longrightarrow> difficulty_ok d \<Longrightarrow>
    earning cfg s (p\<lparr>p_shares := record_share now a d h (p_shares p)\<rparr>, rs)"
| earn_sweep: "earning cfg s (p, rs) \<Longrightarrow> earning cfg s (p\<lparr>p_shares := prune_sweep cfg now (p_shares p)\<rparr>, rs)"
| earn_block: "earning cfg s (p, rs) \<Longrightarrow> 0 < R \<Longrightarrow>
    fair_size R (length (getSharesInWindow (window_start cfg now) (p_shares p))) \<Longrightarrow>
    \<forall>r \<in> set (l_rows (p_ledger p)). l_blockHeight r \<le> h \<Longrightarrow>
    processBlockFound cfg now h (IntN R) p = (p', out) \<Longrightarrow> earning cfg s (p', R # rs)"

section \<open>Histories\<close>

text \<open>
  A payout cycle first waits for the wallet, with the ledger it has read its candidates from, then it
  marks the candidates of its batch one after the other.
\<close>

datatype cycle = Asking ledger | Marking "string option" "payout_candidate list"

record history =
  h_pool :: pool_state
  h_rewards :: "int list"
  h_batches :: "(string \<times> jsnum) list list"
  h_cycles :: "cycle list"
  h_overlapped :: bool

definition empty_pool :: pool_state where
  "empty_pool = \<lparr>p_shares = empty_share_log, p_ledger = empty_ledger, p_accounting = None\<rparr>"

abbreviation h_ledger :: "history \<Rightarrow> ledger" where
  "h_ledger H \<equiv> p_ledger (h_pool H)"

definition with_ledger :: "ledger \<Rightarrow> history \<Rightarrow> history" where
  "with_ledger l H = H\<lparr>h_pool := (h_pool H)\<lparr>p_ledger := l\<rparr>\<rparr>"

definition cycle_candidates :: "config \<Rightarrow> settings_table \<Rightarrow> jsval \<Rightarrow> ledger \<Rightarrow> payout_candidate list" where
  "cycle_candidates cfg settings mi l =
     (case jprop ''blocks'' mi of Number h \<Rightarrow> payout_candidates cfg settings h l | _ \<Rightarrow> [])"

text \<open>
  \<open>h_overlapped\<close> records whether a cycle ever started while another was on its way. A reconciliation
  writes one \<open>markConfirmed\<close> after the other, each of which is a step of its own (\<open>reconcile_is_steps\<close>).
\<close>

inductive pool_history :: "'w node \<Rightarrow> config \<Rightarrow> history \<Rightarrow> bool" for post cfg where
  hist_start: "pool_history post cfg
    \<lparr>h_pool = empty_pool, h_rewards = [], h_batches = [], h_cycles = [], h_overlapped = False\<rparr>"
| hist_earn: "pool_history post cfg H \<Longrightarrow> earning cfg (h_pool H, h_rewards H) (p, rs) \<Longrightarrow>
    pool_history post cfg (H\<lparr>h_pool := p, h_rewards := rs\<rparr>)"
| hist_tick: "pool_history post cfg H \<Longrightarrow>
    pool_history post cfg
      (H\<lparr>h_cycles := Asking (h_ledger H) # h_cycles H, h_overlapped := h_overlapped H \<or> h_cycles H \<noteq> []\<rparr>)"
| hist_answer: "pool_history post cfg H \<Longrightarrow> h_cycles H = cs1 @ Asking l0 # cs2 \<Longrightarrow>
    runPayoutCycle post big cfg settings mi (\<lambda>_. h_ledger H) now l0 s = ((l, s'), out) \<Longrightarrow>
    pool_history post cfg
      (case out of
         BatchSent tx batch sent_notes \<Rightarrow>
           H\<lparr>h_batches := batch # h_batches H, h_cycles := cs1 @ Marking tx (cycle_candidates cfg settings mi l0) # cs2\<rparr>
       | _ \<Rightarrow> H\<lparr>h_cycles := cs1 @ cs2\<rparr>)"
| hist_mark: "pool_history post cfg H \<Longrightarrow> h_cycles H = cs1 @ Marking tx (c # cs) # cs2 \<Longrightarrow>
    pool_history post cfg
      (with_ledger (markSentUpTo now (c_minerAddress c) (c_maxRowId c) tx (h_ledger H)) H\<lparr>h_cycles := cs1 @ Marking tx cs # cs2\<rparr>)"
| hist_marked: "pool_history post cfg H \<Longrightarrow> h_cycles H = cs1 @ Marking tx [] # cs2 \<Longrightarrow>
    pool_history post cfg (H\<lparr>h_cycles := cs1 @ cs2\<rparr>)"
| hist_confirm: "pool_history post cfg H \<Longrightarrow> pool_history post cfg (with_ledger (markConfirmed now tx (h_ledger H)) H)"

text \<open>The steps are those of the code: a reconciliation, and a cycle nobody interrupts.\<close>

lemma with_ledger_simps [simp]:
  "with_ledger l (with_ledger l' H) = with_ledger l H" "h_ledger (with_ledger l H) = l" "h_cycles (with_ledger l H) = h_cycles H"
  "h_rewards (with_ledger l H) = h_rewards H" "h_batches (with_ledger l H) = h_batches H"
  "h_overlapped (with_ledger l H) = h_overlapped H" "with_ledger (h_ledger H) H = H"
  by (simp_all add: with_ledger_def)

lemma reconcile_is_steps:
  assumes "pool_history post cfg H" and "reconcileSentPayouts post cfg now (h_ledger H) s = (l, s')"
  shows "pool_history post cfg (with_ledger l H)"
proof -
  have "pool_history post cfg (with_ledger (fold (markConfirmed now) txs (h_ledger H)) H)" for txs
  proof (induction txs rule: rev_induct)
    case (snoc tx txs)
    from hist_confirm[OF this, of now tx] show ?case
      by simp
  qed (simp add: assms(1))
  moreover obtain txs where "l = fold (markConfirmed now) txs (h_ledger H)"
    using assms(2) unfolding reconcileSentPayouts_def by (elim reconcile_txids_fold)
  ultimately show ?thesis
    by simp
qed

lemma marks_are_steps:
  "pool_history post cfg H \<Longrightarrow> h_cycles H = cs1 @ Marking tx cs # cs2 \<Longrightarrow>
     pool_history post cfg (with_ledger (mark_batch now tx cs (h_ledger H)) H\<lparr>h_cycles := cs1 @ cs2\<rparr>)"
proof (induction cs arbitrary: H)
  case Nil
  from hist_marked[OF Nil] show ?case
    by (simp add: mark_batch_def)
next
  case (Cons c cs)
  from Cons.IH[OF hist_mark[OF Cons.prems]] show ?case
    by (simp add: mark_batch_def with_ledger_def)
qed

lemma cycle_is_steps:
  assumes "pool_history post cfg H"
    and "runPayoutCycle post big cfg settings mi (\<lambda>_. h_ledger H) now (h_ledger H) s = ((l, s'), BatchSent tx batch sent_notes)"
  shows "pool_history post cfg
     (with_ledger l (H\<lparr>h_overlapped := h_overlapped H \<or> h_cycles H \<noteq> [], h_batches := batch # h_batches H\<rparr>))"
proof -
  obtain h where h: "jprop ''blocks'' mi = Number h"
    and l: "l = mark_batch now tx (payout_candidates cfg settings h (h_ledger H)) (h_ledger H)"
    using assms(2) by (rule runPayoutCycle_sent)
  note tick = hist_tick[OF assms(1)]
  have "h_cycles (H\<lparr>h_cycles := Asking (h_ledger H) # h_cycles H,
      h_overlapped := h_overlapped H \<or> h_cycles H \<noteq> []\<rparr>) = [] @ Asking (h_ledger H) # h_cycles H"
    by simp
  from hist_answer[OF tick this, of big settings mi now s l s' "BatchSent tx batch sent_notes"]
  have answered: "pool_history post cfg (H\<lparr>h_overlapped := h_overlapped H \<or> h_cycles H \<noteq> [],
      h_batches := batch # h_batches H, h_cycles := Marking tx (cycle_candidates cfg settings mi (h_ledger H)) # h_cycles H\<rparr>)"
    using assms(2) by simp
  from marks_are_steps[OF answered, of "[]" tx _ "h_cycles H" now] show ?thesis
    by (simp add: cycle_candidates_def h l with_ledger_def)
qed

section \<open>Credits append rows\<close>

definition credits_at :: "int \<Rightarrow> ledger \<Rightarrow> ledger \<Rightarrow> bool" where
  "credits_at h l l' \<longleftrightarrow> l_next_id l \<le> l_next_id l' \<and>
     (\<exists>new. l_rows l' = l_rows l @ new \<and>
        (\<forall>r \<in> set new. l_blockHeight r = h \<and> is_pending r \<and> l_next_id l \<le> l_id r))"

lemma credits_at_refl [simp]: "credits_at h l l"
  by (simp add: credits_at_def)

lemma credits_at_trans: "credits_at h l1 l2 \<Longrightarrow> credits_at h l2 l3 \<Longrightarrow> credits_at h l1 l3"
  by (force simp: credits_at_def)

lemma credits_at_credit: "credit now a amt h l = Inr l' \<Longrightarrow> credits_at h l l'"
  by (drule credit_cases) (auto simp: credits_at_def insert_credit_def is_pending_def)

lemma credits_at_all:
  "credit_all now h ms acc l = (l', r) \<Longrightarrow> credits_at h l l' \<and> (ledger_ok l \<longrightarrow> ledger_ok l')"
proof (induction ms arbitrary: acc l)
  case (Cons m ms)
  then show ?case
    by (cases m) (auto split: if_splits sum.splits dest: credits_at_credit ledger_ok_credit intro: credits_at_trans)
qed simp

lemma block_found_credits:
  assumes "processBlockFound cfg now h v p = (p', out)"
  shows "credits_at h (p_ledger p) (p_ledger p')" and "ledger_ok (p_ledger p) \<Longrightarrow> ledger_ok (p_ledger p')"
    and "p_shares p' = p_shares p"
  using assms credits_at_all[of now h _ _ "p_ledger p"]
  by (auto simp: processBlockFound_def Let_def split: if_splits prod.splits sum.splits)

text \<open>The same for several blocks.\<close>

definition later :: "ledger \<Rightarrow> ledger \<Rightarrow> bool" where
  "later l l' \<longleftrightarrow> l_next_id l \<le> l_next_id l' \<and> credits_only l l'"

lemma later_refl [simp]: "later l l"
  by (simp add: later_def)

lemma later_credits_at: "later l1 l2 \<Longrightarrow> credits_at h l2 l3 \<Longrightarrow> later l1 l3"
  by (force simp: later_def credits_at_def credits_only_def)

lemma credits_at_heights:
  assumes "credits_at h l l'" and "heights_ordered l" and "ledger_ok l" and "\<forall>r \<in> set (l_rows l). l_blockHeight r \<le> h"
  shows "heights_ordered l'"
proof -
  obtain new where new: "l_rows l' = l_rows l @ new"
    "\<forall>r \<in> set new. l_blockHeight r = h \<and> is_pending r \<and> l_next_id l \<le> l_id r"
    using assms(1) by (auto simp: credits_at_def)
  have "l_id r < l_next_id l" if "r \<in> set (l_rows l)" for r
    using assms(3) that by (auto simp: ledger_ok_def row_ok_def)
  then show ?thesis
    using assms(2,4) new by (fastforce simp: heights_ordered_def)
qed

section \<open>Totals\<close>

definition total_paid :: "ledger \<Rightarrow> int" where
  "total_paid l = sum_sats is_paid (l_rows l)"

lemma is_paid_eq: "is_paid = (\<lambda>r. \<not> is_pending r)"
proof
  show "is_paid r = (\<not> is_pending r)" for r
    by (cases "l_status r") (auto simp: is_paid_def is_pending_def)
qed

lemma total_rows: "total_owed l + total_paid l = sum_sats (\<lambda>_. True) (l_rows l)"
  using sum_sats_split[of "\<lambda>_. True" "l_rows l" is_paid] by (simp add: total_owed_def total_paid_def is_paid_eq)

lemma sum_sats_none: "\<forall>r \<in> set rs. \<not> p r \<Longrightarrow> sum_sats p rs = 0"
  by (induction rs) auto

lemma sum_all_update:
  "(\<And>r. l_amountSats (f r) = l_amountSats r) \<Longrightarrow>
     sum_sats (\<lambda>_. True) (update_where u f rs) = sum_sats (\<lambda>_. True) rs"
  by (induction rs) auto

lemma total_mark_batch: "sum_sats (\<lambda>_. True) (l_rows (mark_batch now tx cs l)) = sum_sats (\<lambda>_. True) (l_rows l)"
  unfolding mark_batch_def by (induction cs arbitrary: l) (simp_all add: markSentUpTo_def sum_all_update)

lemma total_confirmed: "sum_sats (\<lambda>_. True) (l_rows (fold (markConfirmed now) txs l)) = sum_sats (\<lambda>_. True) (l_rows l)"
  by (induction txs arbitrary: l) (simp_all add: markConfirmed_def sum_all_update)

lemma credits_at_paid: "credits_at h l l' \<Longrightarrow> total_paid l' = total_paid l \<and> paid l' a = paid l a"
proof -
  assume "credits_at h l l'"
  then obtain new where new: "l_rows l' = l_rows l @ new" "\<forall>r \<in> set new. is_pending r"
    by (auto simp: credits_at_def)
  then have "sum_sats is_paid new = 0" and "sum_sats (\<lambda>r. l_minerAddress r = a \<and> is_paid r) new = 0"
    by (auto intro!: sum_sats_none simp: is_paid_eq)
  then show ?thesis
    by (simp add: total_paid_def paid_def new(1))
qed

lemma total_paid_nonneg: "ledger_ok l \<Longrightarrow> 0 \<le> total_paid l"
  unfolding total_paid_def by (rule sum_sats_nonneg) (rule ledger_ok_amounts)

lemma heights_ordered_update:
  "heights_ordered l \<Longrightarrow> (\<And>r. l_id (f r) = l_id r \<and> l_blockHeight (f r) = l_blockHeight r) \<Longrightarrow>
     heights_ordered (l\<lparr>l_rows := update_where u f (l_rows l)\<rparr>)"
  by (auto simp: heights_ordered_def set_update_where)

lemma heights_mark_batch: "heights_ordered l \<Longrightarrow> heights_ordered (mark_batch now tx cs l)"
  unfolding mark_batch_def
  by (induction cs arbitrary: l) (simp_all add: markSentUpTo_def heights_ordered_update)

lemma heights_confirmed: "heights_ordered l \<Longrightarrow> heights_ordered (fold (markConfirmed now) txs l)"
  by (induction txs arbitrary: l) (simp_all add: markConfirmed_def heights_ordered_update)

section \<open>The books balance\<close>

text \<open>\<open>books_ok p R\<close>: the tables are well formed and hold exactly \<open>R\<close> satoshis.\<close>

abbreviation fee_of :: "pool_state \<Rightarrow> int" where
  "fee_of p \<equiv> fst (get_accounting (p_accounting p))"

abbreviation dust_of :: "pool_state \<Rightarrow> int" where
  "dust_of p \<equiv> snd (get_accounting (p_accounting p))"

definition tables_ok :: "pool_state \<Rightarrow> bool" where
  "tables_ok p \<longleftrightarrow> ledger_ok (p_ledger p) \<and> heights_ordered (p_ledger p) \<and>
     (\<forall>s \<in> set (sl_rows (p_shares p)). share_ok s) \<and> 0 \<le> fee_of p \<and> 0 \<le> dust_of p"

definition books_ok :: "pool_state \<Rightarrow> int \<Rightarrow> bool" where
  "books_ok p R \<longleftrightarrow> tables_ok p \<and> total_owed (p_ledger p) + total_paid (p_ledger p) + fee_of p + dust_of p = R"

lemma books_empty: "books_ok empty_pool 0"
  by (simp add: books_ok_def tables_ok_def empty_pool_def heights_ordered_def empty_ledger_def empty_share_log_def
      get_accounting_def total_owed_def total_paid_def ledger_ok_empty[unfolded empty_ledger_def])

lemma books_owed: "books_ok p R \<Longrightarrow> R \<le> B \<Longrightarrow> total_owed (p_ledger p) \<le> B"
  using total_paid_nonneg[of "p_ledger p"] by (auto simp: books_ok_def tables_ok_def)

text \<open>The accounts after a block, with shares in the window and without.\<close>

lemma block_accounts:
  assumes "tables_ok p" and "0 < R"
    and "fair_size R (length (getSharesInWindow (window_start cfg now) (p_shares p)))"
    and "processBlockFound cfg now h (IntN R) p = (p', out)"
  shows "total_owed (p_ledger p') + fee_of p' + dust_of p' = total_owed (p_ledger p) + fee_of p + dust_of p + R"
    and "fee_of p \<le> fee_of p'" and "dust_of p \<le> dust_of p'"
proof -
  let ?ss = "getSharesInWindow (window_start cfg now) (p_shares p)"
  have "total_owed (p_ledger p') + fee_of p' + dust_of p' = total_owed (p_ledger p) + fee_of p + dust_of p + R \<and>
        fee_of p \<le> fee_of p' \<and> dust_of p \<le> dust_of p'"
  proof (cases "?ss = []")
    case True
    show ?thesis
      using empty_window_to_pool[OF True, of h R] assms(2,4) by auto
  next
    case False
    have "block_ok R ?ss"
      using False assms(1-3) by (auto simp: block_ok_def tables_ok_def getSharesInWindow_def)
    from block_totals[OF this, of h] show ?thesis
      using assms(4) by (auto simp: Let_def)
  qed
  then show "total_owed (p_ledger p') + fee_of p' + dust_of p' = total_owed (p_ledger p) + fee_of p + dust_of p + R"
    and "fee_of p \<le> fee_of p'" and "dust_of p \<le> dust_of p'"
    by simp_all
qed

lemma books_block:
  assumes "books_ok p B" and "0 < R"
    and "fair_size R (length (getSharesInWindow (window_start cfg now) (p_shares p)))"
    and "\<forall>r \<in> set (l_rows (p_ledger p)). l_blockHeight r \<le> h"
    and "processBlockFound cfg now h (IntN R) p = (p', out)"
  shows "books_ok p' (R + B)"
  using assms(1,4) block_accounts[OF _ assms(2,3,5)] block_found_credits[OF assms(5)] credits_at_heights[of h "p_ledger p"]
    credits_at_paid[of h "p_ledger p" "p_ledger p'"]
  by (auto simp: books_ok_def tables_ok_def)

lemma books_share:
  "books_ok p B \<Longrightarrow> difficulty_ok d \<Longrightarrow> books_ok (p\<lparr>p_shares := record_share now a d h (p_shares p)\<rparr>) B"
  by (auto simp: books_ok_def tables_ok_def record_share_def share_ok_def difficulty_ok_def)

lemma books_sweep: "books_ok p B \<Longrightarrow> books_ok (p\<lparr>p_shares := prune_sweep cfg now (p_shares p)\<rparr>) B"
  by (auto simp: books_ok_def tables_ok_def prune_sweep_def pruneOlderThan_def)

text \<open>What earning handlers do to the books, seen from where they started.\<close>

definition earned :: "pool_state \<times> int list \<Rightarrow> pool_state \<times> int list \<Rightarrow> bool" where
  "earned s t \<longleftrightarrow> books_ok (fst t) (sum_list (snd t)) \<and> later (p_ledger (fst s)) (p_ledger (fst t)) \<and>
     sum_list (snd s) \<le> sum_list (snd t) \<and> (\<forall>a. paid (p_ledger (fst t)) a = paid (p_ledger (fst s)) a)"

lemma earning_earned: "earning cfg s t \<Longrightarrow> books_ok (fst s) (sum_list (snd s)) \<Longrightarrow> earned s t"
proof (induction rule: earning.induct)
  case earn_start
  then show ?case by (simp add: earned_def)
next
  case (earn_share p rs d now a h)
  then show ?case by (simp add: earned_def books_share)
next
  case (earn_sweep p rs now)
  then show ?case by (simp add: earned_def books_sweep)
next
  case (earn_block p rs R now h p' out)
  then show ?case
    using books_block[of p "sum_list rs"] block_found_credits(1) credits_at_paid later_credits_at
    by (fastforce simp: earned_def)
qed

section \<open>What a cycle may claim\<close>

text \<open>
  A candidate read from the ledger claims rows by their id and status when it is marked. Whatever happens until
  then, it claims at most the amount the batch names for it; as long as no other cycle claims rows, exactly that amount.
\<close>

definition candidate_sats :: "payout_candidate \<Rightarrow> int" where
  "candidate_sats c = (case c_totalPendingSats c of Num x \<Rightarrow> \<lfloor>x\<rfloor> | _ \<Rightarrow> 0)"

definition claim_ok :: "bool \<Rightarrow> ledger \<Rightarrow> payout_candidate \<Rightarrow> bool" where
  "claim_ok overlapped l c \<longleftrightarrow> c_maxRowId c < l_next_id l \<and>
     (let n = claimed (c_minerAddress c) (c_maxRowId c) l
      in n \<le> candidate_sats c \<and> (\<not> overlapped \<longrightarrow> n = candidate_sats c))"

lemma claim_ok_same:
  "claim_ok ov l c \<Longrightarrow> l_next_id l \<le> l_next_id l' \<Longrightarrow>
     claimed (c_minerAddress c) (c_maxRowId c) l' = claimed (c_minerAddress c) (c_maxRowId c) l \<Longrightarrow> claim_ok ov l' c"
  by (simp add: claim_ok_def)

lemma claim_ok_later: "claim_ok ov l c \<Longrightarrow> later l l' \<Longrightarrow> claim_ok ov l' c"
  using claimed_credits_only[of l l' "c_maxRowId c" "c_minerAddress c"] by (auto simp: later_def claim_ok_def)

lemma claim_ok_overlap: "claim_ok ov l c \<Longrightarrow> claim_ok True l c"
  by (auto simp: claim_ok_def Let_def)

lemma claimed_markConfirmed: "claimed a m (markConfirmed now tx l) = claimed a m l"
proof -
  have "sum_sats (\<lambda>r. claimed_by a m r \<and> \<not> (l_txid r = Some tx \<and> l_status r = SENT)) rs = sum_sats (claimed_by a m) rs" for rs
    by (rule sum_sats_cong) (auto simp: claimed_by_def is_pending_def)
  then show ?thesis
    by (simp add: claimed_def markConfirmed_def sum_sats_update_where) (simp add: claimed_by_def is_pending_def)
qed

lemma claimed_markSent_le:
  assumes "ledger_ok l"
  shows "claimed a m (markSentUpTo now b k tx l) \<le> claimed a m l"
proof -
  have "sum_sats (\<lambda>r. claimed_by a m r \<and> \<not> claimed_by b k r) (l_rows l) \<le> claimed a m l"
    unfolding claimed_def by (rule sum_sats_mono) (auto dest: ledger_ok_amounts[OF assms])
  then show ?thesis
    by (simp add: claimed_def markSentUpTo_def sum_sats_update_where) (simp add: claimed_by_def is_pending_def)
qed

lemma next_id_mark [simp]: "l_next_id (markSentUpTo now b k tx l) = l_next_id l" "l_next_id (markConfirmed now t l) = l_next_id l"
  by (simp_all add: markSentUpTo_def markConfirmed_def)

lemma claim_ok_mark: "ledger_ok l \<Longrightarrow> claim_ok ov l c \<Longrightarrow> claim_ok True (markSentUpTo now b k tx l) c"
  using claimed_markSent_le[of l "c_minerAddress c" "c_maxRowId c" now b k tx] by (auto simp: claim_ok_def Let_def)

lemma claim_ok_mark_other: "claim_ok ov l c \<Longrightarrow> c_minerAddress c \<noteq> b \<Longrightarrow> claim_ok ov (markSentUpTo now b k tx l) c"
  by (erule claim_ok_same) (simp_all add: claimed_markSent_other)

lemma claim_ok_confirm: "claim_ok ov l c \<Longrightarrow> claim_ok ov (markConfirmed now tx l) c"
  by (erule claim_ok_same) (simp_all add: claimed_markConfirmed)

lemma claim_ok_read:
  assumes "ledger_ok l" and "heights_ordered l" and "total_owed l \<le> 2 ^ 53" and "c \<in> set (getMaturePendingTotals m l)"
  shows "claim_ok ov l c"
proof -
  have "c_maxRowId c < l_next_id l"
    by (rule candidate_max_row[OF assms(4)]) (use assms(1) in \<open>auto simp: ledger_ok_def row_ok_def\<close>)
  moreover have "candidate_sats c = mature_owed m l (c_minerAddress c)"
    using candidate_total[OF assms(4)] mature_owed_nonneg[OF assms(1)] mature_le_owed[OF assms(1), of m "c_minerAddress c"]
      owed_le_total[OF assms(1), of "c_minerAddress c"] assms(3)
    by (simp add: candidate_sats_def js_of_int_safe safe_int_def)
  ultimately show ?thesis
    using claimed_mature[OF assms(2,4)] by (simp add: claim_ok_def)
qed

fun cycle_ok :: "bool \<Rightarrow> ledger \<Rightarrow> cycle \<Rightarrow> bool" where
  "cycle_ok ov l (Asking l0) \<longleftrightarrow> (\<forall>m. \<forall>c \<in> set (getMaturePendingTotals m l0). claim_ok ov l c)"
| "cycle_ok ov l (Marking tx cs) \<longleftrightarrow> distinct (map c_minerAddress cs) \<and> (\<forall>c \<in> set cs. claim_ok ov l c)"

lemma cycle_ok_map:
  "cycle_ok ov l k \<Longrightarrow> (\<And>c. claim_ok ov l c \<Longrightarrow> claim_ok ov' l' c) \<Longrightarrow> cycle_ok ov' l' k"
  by (cases k) auto

lemma cycle_candidates_mature:
  "c \<in> set (cycle_candidates cfg settings mi l) \<Longrightarrow> \<exists>m. c \<in> set (getMaturePendingTotals m l)"
  by (auto simp: cycle_candidates_def dest: candidate_member split: jsval.splits)

section \<open>The money of the pool\<close>

definition sent_to :: "(string \<times> jsnum) list list \<Rightarrow> string \<Rightarrow> int" where
  "sent_to batches a = sum_list (map (\<lambda>b. batch_sats b a) batches)"

definition to_mark :: "payout_candidate list \<Rightarrow> string \<Rightarrow> int" where
  "to_mark cs a = sum_list (map (\<lambda>c. if c_minerAddress c = a then candidate_sats c else 0) cs)"

fun outstanding :: "string \<Rightarrow> cycle \<Rightarrow> int" where
  "outstanding a (Asking l0) = 0"
| "outstanding a (Marking tx cs) = to_mark cs a"

definition all_outstanding :: "cycle list \<Rightarrow> string \<Rightarrow> int" where
  "all_outstanding ks a = sum_list (map (outstanding a) ks)"

lemma all_outstanding_simps [simp]:
  "all_outstanding [] a = 0" "all_outstanding (k # ks) a = outstanding a k + all_outstanding ks a"
  "all_outstanding (ks @ ks') a = all_outstanding ks a + all_outstanding ks' a"
  by (simp_all add: all_outstanding_def)

lemma to_mark_Nil [simp]: "to_mark [] a = 0"
  by (simp add: to_mark_def)

lemma to_mark_Cons [simp]: "to_mark (c # cs) a = (if c_minerAddress c = a then candidate_sats c else 0) + to_mark cs a"
  by (simp add: to_mark_def)

lemma to_mark_batch: "distinct (map c_minerAddress cs) \<Longrightarrow> to_mark cs a = batch_sats (payout_batch cs) a"
proof (induction cs)
  case (Cons c cs)
  have "c_minerAddress c = a \<Longrightarrow> to_mark cs a = 0"
    using Cons.prems by (induction cs) auto
  then show ?case
    using Cons by (auto simp: payout_batch_def batch_sats_def candidate_sats_def)
qed (simp add: payout_batch_def batch_sats_def)

definition settled_ok :: "history \<Rightarrow> bool" where
  "settled_ok H \<longleftrightarrow>
     (\<forall>a. paid (h_ledger H) a + all_outstanding (h_cycles H) a \<le> sent_to (h_batches H) a \<and>
          (\<not> h_overlapped H \<longrightarrow> paid (h_ledger H) a + all_outstanding (h_cycles H) a = sent_to (h_batches H) a))"

definition history_ok :: "history \<Rightarrow> bool" where
  "history_ok H \<longleftrightarrow> books_ok (h_pool H) (sum_list (h_rewards H)) \<and> settled_ok H \<and>
     (\<forall>k \<in> set (h_cycles H). cycle_ok (h_overlapped H) (h_ledger H) k) \<and>
     (\<not> h_overlapped H \<longrightarrow> length (h_cycles H) \<le> 1)"

lemma history_earn:
  assumes "history_ok H" and "earning cfg (h_pool H, h_rewards H) (p, rs)"
  shows "history_ok (H\<lparr>h_pool := p, h_rewards := rs\<rparr>)"
proof -
  have "earned (h_pool H, h_rewards H) (p, rs)"
    using assms by (intro earning_earned) (auto simp: history_ok_def)
  then have "books_ok p (sum_list rs)" and later: "later (h_ledger H) (p_ledger p)" and "\<And>a. paid (p_ledger p) a = paid (h_ledger H) a"
    by (auto simp: earned_def)
  moreover have "cycle_ok (h_overlapped H) (p_ledger p) k" if "k \<in> set (h_cycles H)" for k
    by (rule cycle_ok_map[of "h_overlapped H" "h_ledger H"])
      (use assms(1) that claim_ok_later[OF _ later] in \<open>auto simp: history_ok_def\<close>)
  ultimately show ?thesis
    using assms(1) by (auto simp: history_ok_def settled_ok_def)
qed

lemma history_tick:
  assumes "history_ok H" and "sum_list (h_rewards H) \<le> 2 ^ 53"
  shows "history_ok (H\<lparr>h_cycles := Asking (h_ledger H) # h_cycles H, h_overlapped := h_overlapped H \<or> h_cycles H \<noteq> []\<rparr>)"
proof -
  have books: "books_ok (h_pool H) (sum_list (h_rewards H))"
    using assms(1) by (simp add: history_ok_def)
  then have "claim_ok ov (h_ledger H) c" if "c \<in> set (getMaturePendingTotals m (h_ledger H))" for c m ov
    using claim_ok_read[OF _ _ books_owed[OF books assms(2)] that] by (simp add: books_ok_def tables_ok_def)
  moreover have "cycle_ok (h_overlapped H \<or> h_cycles H \<noteq> []) (h_ledger H) k" if k: "k \<in> set (h_cycles H)" for k
  proof -
    have "(h_overlapped H \<or> h_cycles H \<noteq> []) = True"
      using k by auto
    moreover have "cycle_ok (h_overlapped H) (h_ledger H) k"
      using assms(1) k by (simp add: history_ok_def)
    ultimately show ?thesis
      using cycle_ok_map[OF _ claim_ok_overlap] by simp
  qed
  ultimately show ?thesis
    using assms(1) by (auto simp: history_ok_def settled_ok_def)
qed

lemma history_drop:
  assumes "history_ok H" and "h_cycles H = cs1 @ k # cs2" and "\<And>a. outstanding a k = 0"
  shows "history_ok (H\<lparr>h_cycles := cs1 @ cs2\<rparr>)"
  using assms by (auto simp: history_ok_def settled_ok_def)

lemma history_answer:
  assumes "history_ok H" and "h_cycles H = cs1 @ Asking l0 # cs2"
    and "runPayoutCycle post big cfg settings mi (\<lambda>_. h_ledger H) now l0 s = ((l, s'), out)"
  shows "history_ok
      (case out of
         BatchSent tx batch sent_notes \<Rightarrow>
           H\<lparr>h_batches := batch # h_batches H, h_cycles := cs1 @ Marking tx (cycle_candidates cfg settings mi l0) # cs2\<rparr>
       | _ \<Rightarrow> H\<lparr>h_cycles := cs1 @ cs2\<rparr>)"
proof (cases out)
  case (BatchSent tx batch sent_notes)
  let ?cs = "cycle_candidates cfg settings mi l0"
  have batch: "batch = payout_batch ?cs" and dist: "distinct (map c_minerAddress ?cs)"
    using assms(3) distinct_payout_candidates unfolding BatchSent
    by (auto simp: cycle_candidates_def elim!: runPayoutCycle_sent)
  have "\<forall>c \<in> set ?cs. claim_ok (h_overlapped H) (h_ledger H) c"
    using assms(1,2) cycle_candidates_mature by (fastforce simp: history_ok_def)
  then show ?thesis
    using assms(1,2) dist to_mark_batch[OF dist]
    by (auto simp: BatchSent batch history_ok_def settled_ok_def sent_to_def)
qed (use history_drop[OF assms(1,2)] in simp_all)

lemma history_mark:
  assumes "history_ok H" and "h_cycles H = cs1 @ Marking tx (c # cs) # cs2"
  shows "history_ok
    (with_ledger (markSentUpTo now (c_minerAddress c) (c_maxRowId c) tx (h_ledger H)) H\<lparr>h_cycles := cs1 @ Marking tx cs # cs2\<rparr>)"
proof -
  let ?l = "h_ledger H" and ?a = "c_minerAddress c"
  let ?l' = "markSentUpTo now ?a (c_maxRowId c) tx ?l"
  have ok: "books_ok (h_pool H) (sum_list (h_rewards H))" "ledger_ok ?l" "heights_ordered ?l"
    and own: "?a \<notin> c_minerAddress ` set cs" "distinct (map c_minerAddress cs)" "claim_ok (h_overlapped H) ?l c"
      "\<And>c'. c' \<in> set cs \<Longrightarrow> claim_ok (h_overlapped H) ?l c'"
    and others: "\<And>k. k \<in> set cs1 \<union> set cs2 \<Longrightarrow> cycle_ok (h_overlapped H) ?l k"
    and alone: "\<not> h_overlapped H \<Longrightarrow> cs1 = [] \<and> cs2 = []"
    using assms by (auto simp: history_ok_def books_ok_def tables_ok_def)
  have "total_owed ?l' + total_paid ?l' = total_owed ?l + total_paid ?l"
    by (simp add: total_rows markSentUpTo_def sum_all_update)
  moreover have "heights_ordered ?l'"
    using ok(3) by (simp add: markSentUpTo_def heights_ordered_update)
  ultimately have "books_ok ((h_pool H)\<lparr>p_ledger := ?l'\<rparr>) (sum_list (h_rewards H))"
    using ok by (simp add: books_ok_def tables_ok_def ledger_ok_markSent)
  moreover have "cycle_ok (h_overlapped H) ?l' k" if "k \<in> set cs1 \<union> set cs2" for k
  proof -
    have "h_overlapped H"
      using that alone by (cases "h_overlapped H") auto
    then show ?thesis
      using cycle_ok_map[OF others[OF that]] claim_ok_mark[OF ok(2)] by simp
  qed
  moreover have "claim_ok (h_overlapped H) ?l' c'" if "c' \<in> set cs" for c'
    using claim_ok_mark_other[OF own(4)[OF that]] own(1) that by (metis imageI)
  moreover have "settled_ok (with_ledger ?l' H\<lparr>h_cycles := cs1 @ Marking tx cs # cs2\<rparr>)"
  proof -
    have "paid ?l a + all_outstanding (h_cycles H) a \<le> sent_to (h_batches H) a \<and>
        (\<not> h_overlapped H \<longrightarrow> paid ?l a + all_outstanding (h_cycles H) a = sent_to (h_batches H) a)" for a
      using assms(1) by (simp add: history_ok_def settled_ok_def)
    moreover have "paid ?l' a = paid ?l a + (if a = ?a then claimed ?a (c_maxRowId c) ?l else 0)" for a
      by (simp add: step_simps)
    moreover have "claimed ?a (c_maxRowId c) ?l \<le> candidate_sats c"
      "\<not> h_overlapped H \<Longrightarrow> claimed ?a (c_maxRowId c) ?l = candidate_sats c"
      using own(3) by (auto simp: claim_ok_def Let_def)
    ultimately have "paid ?l' a + (all_outstanding cs1 a + (to_mark cs a + all_outstanding cs2 a)) \<le> sent_to (h_batches H) a \<and>
        (\<not> h_overlapped H \<longrightarrow>
          paid ?l' a + (all_outstanding cs1 a + (to_mark cs a + all_outstanding cs2 a)) = sent_to (h_batches H) a)" for a
      using assms(2) by (smt (verit) all_outstanding_simps outstanding.simps(2) to_mark_Cons)
    then show ?thesis
      by (simp add: settled_ok_def with_ledger_def)
  qed
  ultimately show ?thesis
    using assms own(2) alone by (auto simp: history_ok_def with_ledger_def)
qed

lemma history_confirm:
  assumes "history_ok H"
  shows "history_ok (with_ledger (markConfirmed now tx (h_ledger H)) H)"
proof -
  let ?l = "h_ledger H" and ?l' = "markConfirmed now tx (h_ledger H)"
  have "total_owed ?l' + total_paid ?l' = total_owed ?l + total_paid ?l"
    by (simp add: total_rows markConfirmed_def sum_all_update)
  moreover have "heights_ordered ?l \<Longrightarrow> heights_ordered ?l'"
    by (simp add: markConfirmed_def heights_ordered_update)
  moreover have "cycle_ok (h_overlapped H) ?l' k" if "k \<in> set (h_cycles H)" for k
    by (rule cycle_ok_map[of "h_overlapped H" ?l]) (use assms that claim_ok_confirm in \<open>auto simp: history_ok_def\<close>)
  ultimately show ?thesis
    using assms
    by (auto simp: history_ok_def settled_ok_def with_ledger_def books_ok_def tables_ok_def ledger_ok_markConfirmed step_simps)
qed

lemma history_rewards_mono: "earning cfg s t \<Longrightarrow> sum_list (snd s) \<le> sum_list (snd t)"
  by (induction rule: earning.induct) auto

lemma pool_history_ok:
  "pool_history post cfg H \<Longrightarrow> sum_list (h_rewards H) \<le> 2 ^ 53 \<Longrightarrow> history_ok H"
proof (induction rule: pool_history.induct)
  case hist_start
  then show ?case
    by (simp add: history_ok_def settled_ok_def books_empty sent_to_def) (simp add: empty_pool_def)
next
  case (hist_earn H p rs)
  then show ?case
    using history_earn history_rewards_mono[OF hist_earn.hyps(2)] by force
next
  case (hist_answer H cs1 l0 cs2 big settings mi now s l s' out)
  have "sum_list (h_rewards H) \<le> 2 ^ 53"
    using hist_answer.prems by (auto split: payout_outcome.splits)
  then show ?case
    using hist_answer by (blast intro: history_answer)
next
  case (hist_marked H cs1 tx cs2)
  then show ?case
    using history_drop[of H cs1 "Marking tx []" cs2] by simp
qed (auto intro: history_tick history_mark history_confirm)

text \<open>
  C1. The pool's books balance: after any history of shares, sweeps and blocks (in the order of their heights), payout
  cycles and confirmations, whose steps may come in any order and whose cycles may overlap, what is owed,
  what was paid, the pool's fee and its dust add up to the rewards of all blocks. A miner is never marked as paid
  more than the batches the wallet answered name for his address, and exactly that whenever no cycle is on
  its way and none ever started during another. This is about the books: a batch whose answer was lost is in none
  of them (C8), and of two overlapping batches that name the same credits only one is marked. The rewards
  stay below 2^53 satoshis, which is more than four times the money supply.
\<close>

theorem pool_money_conserved:
  assumes "pool_history post cfg H" and "sum_list (h_rewards H) \<le> 2 ^ 53"
  shows "total_owed (p_ledger (h_pool H)) + total_paid (p_ledger (h_pool H)) +
           fst (get_accounting (p_accounting (h_pool H))) + snd (get_accounting (p_accounting (h_pool H))) =
           sum_list (h_rewards H) \<and>
         paid (p_ledger (h_pool H)) a \<le> sent_to (h_batches H) a \<and>
         (h_cycles H = [] \<and> \<not> h_overlapped H \<longrightarrow> paid (p_ledger (h_pool H)) a = sent_to (h_batches H) a) \<and>
         0 \<le> owed (p_ledger (h_pool H)) a \<and>
         0 \<le> fst (get_accounting (p_accounting (h_pool H))) \<and> 0 \<le> snd (get_accounting (p_accounting (h_pool H)))"
proof -
  have ok: "history_ok H"
    by (rule pool_history_ok[OF assms])
  then have ledger: "ledger_ok (h_ledger H)"
    by (simp add: history_ok_def books_ok_def tables_ok_def)
  have sats: "0 \<le> candidate_sats c" if "claim_ok ov (h_ledger H) c" for ov c
    using that claimed_nonneg[OF ledger, of "c_minerAddress c" "c_maxRowId c"] by (auto simp: claim_ok_def Let_def)
  have "0 \<le> outstanding a k" if "cycle_ok (h_overlapped H) (h_ledger H) k" for k
    using that sats[of "h_overlapped H"] by (cases k) (auto simp: to_mark_def intro!: sum_list_nonneg)
  then have "0 \<le> all_outstanding (h_cycles H) a"
    using ok unfolding all_outstanding_def history_ok_def by (intro sum_list_nonneg) (metis image_iff list.set_map)
  then have "paid (h_ledger H) a \<le> sent_to (h_batches H) a"
    using ok by (smt (verit) history_ok_def settled_ok_def)
  then show ?thesis
    using ok by (auto simp: history_ok_def settled_ok_def books_ok_def tables_ok_def owed_nonneg)
qed

text \<open>One miner, one block, and a payout cycle a hundred blocks later.\<close>

definition example_shares :: pool_state where
  "example_shares = empty_pool\<lparr>p_shares := record_share 8000000 ''a'' (IntN 100) 5 (p_shares empty_pool)\<rparr>"

definition example_earned :: pool_state where
  "example_earned = fst (processBlockFound Map.empty 9000001 100 (IntN 500000000) example_shares)"

abbreviation example_cycle :: "(ledger \<times> wallet_client \<times> nat) \<times> payout_outcome" where
  "example_cycle \<equiv> runPayoutCycle paying_node (\<lambda>_. []) Map.empty [] (Obj [(''blocks'', Number (Num 200))])
     (\<lambda>_. p_ledger example_earned) 9 (p_ledger example_earned) (wallet_client_init Map.empty, 0)"

definition example_history :: history where
  "example_history =
     \<lparr>h_pool = example_earned\<lparr>p_ledger := fst (fst example_cycle)\<rparr>, h_rewards = [500000000],
      h_batches = [[(''a'', Num 500000000)]], h_cycles = [], h_overlapped = False\<rparr>"

lemma example_cycle_sent: "snd example_cycle = BatchSent (Some ''txid'') [(''a'', Num 500000000)] []"
  by code_simp

lemma example_earning: "earning Map.empty (empty_pool, []) (example_earned, [500000000])"
proof -
  have s: "earning Map.empty (empty_pool, []) (example_shares, [])"
    unfolding example_shares_def by (rule earn_share[OF earn_start]) code_simp
  show ?thesis
  proof (rule earn_block[OF s])
    show "fair_size 500000000 (length (getSharesInWindow (window_start Map.empty 9000001) (p_shares example_shares)))"
      by code_simp
    show "\<forall>r \<in> set (l_rows (p_ledger example_shares)). l_blockHeight r \<le> 100"
      by code_simp
    show "processBlockFound Map.empty 9000001 100 (IntN 500000000) example_shares =
            (example_earned, snd (processBlockFound Map.empty 9000001 100 (IntN 500000000) example_shares))"
      by (simp add: example_earned_def)
  qed simp
qed

lemma example_history_run: "pool_history paying_node Map.empty example_history"
proof -
  let ?H = "\<lparr>h_pool = example_earned, h_rewards = [500000000], h_batches = [], h_cycles = [], h_overlapped = False\<rparr>"
  have H: "pool_history paying_node Map.empty ?H"
    using hist_earn[OF hist_start] example_earning by fastforce
  have "runPayoutCycle paying_node (\<lambda>_. []) Map.empty [] (Obj [(''blocks'', Number (Num 200))])
      (\<lambda>_. h_ledger ?H) 9 (h_ledger ?H) (wallet_client_init Map.empty, 0) =
      ((fst (fst example_cycle), snd (fst example_cycle)), BatchSent (Some ''txid'') [(''a'', Num 500000000)] [])"
    using example_cycle_sent by (simp add: prod_eq_iff)
  from cycle_is_steps[OF H this] show ?thesis
    by (simp add: example_history_def with_ledger_def)
qed

theorem pool_money_conserved_witness:
  "total_owed (p_ledger (h_pool example_history)) + total_paid (p_ledger (h_pool example_history)) +
     fst (get_accounting (p_accounting (h_pool example_history))) +
     snd (get_accounting (p_accounting (h_pool example_history))) = 500000000 \<and>
   paid (p_ledger (h_pool example_history)) ''a'' = 500000000"
proof -
  have "sent_to (h_batches example_history) ''a'' = 500000000"
    by (simp add: example_history_def sent_to_def batch_sats_def)
  moreover have "sum_list (h_rewards example_history) = 500000000" "h_cycles example_history = []" "\<not> h_overlapped example_history"
    by (simp_all add: example_history_def)
  ultimately show ?thesis
    using pool_money_conserved[OF example_history_run, of "''a''"] by simp
qed

end
