(* ===== verification/ServerPool.thy ===== *)
theory ServerPool
  imports StratumClient PayoutScheduler
begin

text \<open>
  Many connections on one pool: any number of miners whose events interleave on the shared tables, the
  hourly sweep and the payout scheduler beside them. What is shown is a property of the whole path from
  \<open>mining.authorize\<close> over the share log and the ledger to the wallet: only addresses valid on the
  configured network get into a batch. One that is not would make the wallet refuse all of it.
\<close>

section \<open>Addresses in the tables\<close>

definition pool_addresses :: "pool_state \<Rightarrow> string set" where
  "pool_addresses p = s_minerAddress ` set (sl_rows (p_shares p)) \<union> l_minerAddress ` set (l_rows (p_ledger p))"

definition addresses_ok :: "(string \<Rightarrow> bool) \<Rightarrow> pool_state \<Rightarrow> bool" where
  "addresses_ok V p \<longleftrightarrow> (\<forall>a \<in> pool_addresses p. V a)"

lemma tally_keys: "fst ` set (tally xs) = fst ` set xs"
proof (induction xs rule: rev_induct)
  case (snoc x xs)
  then show ?case
    by (cases x) (simp add: tally_snoc dom_update)
qed (simp add: tally_def)

lemma perMinerTotals_keys: "fst ` set (perMinerTotals D T ss) = s_minerAddress ` set ss"
  by (simp add: perMinerTotals_def tally_keys image_image)

lemma subset_chain: "A \<subseteq> B \<union> {a} \<Longrightarrow> C \<subseteq> A \<union> D \<Longrightarrow> E = {a} \<union> D \<Longrightarrow> C \<subseteq> B \<union> E"
  by blast

lemma credit_all_addresses:
  "credit_all now h ms acc l = (l', r) \<Longrightarrow>
     l_minerAddress ` set (l_rows l') \<subseteq> l_minerAddress ` set (l_rows l) \<union> fst ` set ms"
proof (induction ms arbitrary: acc l)
  case (Cons m ms)
  obtain a v where m: "m = (a, v)" by fastforce
  show ?case
  proof (cases "js_le v (Num 0)")
    case True
    then show ?thesis
      using Cons.IH[of acc l] Cons.prems by (auto simp: m)
  next
    case False
    show ?thesis
    proof (cases "credit now a v h l")
      case (Inl e)
      then show ?thesis
        using Cons.prems False by (auto simp: m)
    next
      case (Inr l1)
      have "l_minerAddress ` set (l_rows l1) \<subseteq> l_minerAddress ` set (l_rows l) \<union> {a}"
        using credit_cases[OF Inr] by (auto simp: insert_credit_def)
      moreover have "credit_all now h ms (js_add acc v) l1 = (l', r)"
        using Cons.prems False Inr unfolding m by simp
      then have "l_minerAddress ` set (l_rows l') \<subseteq> l_minerAddress ` set (l_rows l1) \<union> fst ` set ms"
        by (rule Cons.IH)
      moreover have "fst ` set (m # ms) = {a} \<union> fst ` set ms"
        by (simp add: m)
      ultimately show ?thesis
        by (rule subset_chain)
    qed
  qed
qed simp

lemma block_addresses:
  assumes "addresses_ok V p"
  shows "addresses_ok V (fst (processBlockFound cfg now h R p))"
proof -
  let ?ss = "getSharesInWindow (window_start cfg now) (p_shares p)" and ?D = "distributable_sats cfg R"
  obtain l' r where c: "credit_all now h (perMinerTotals ?D (total_difficulty ?ss) ?ss) (Num 0) (p_ledger p) = (l', r)"
    by fastforce
  have ss: "s_minerAddress ` set ?ss \<subseteq> s_minerAddress ` set (sl_rows (p_shares p))"
    by (auto simp: getSharesInWindow_def)
  have "p_ledger (fst (processBlockFound cfg now h R p)) = p_ledger p \<or> p_ledger (fst (processBlockFound cfg now h R p)) = l'"
    using c by (simp add: processBlockFound_def Let_def split: prod.split sum.split)
  moreover have "l_minerAddress ` set (l_rows l') \<subseteq> pool_addresses p"
    using credit_all_addresses[OF c] ss unfolding perMinerTotals_keys pool_addresses_def by blast
  ultimately have "pool_addresses (fst (processBlockFound cfg now h R p)) \<subseteq> pool_addresses p"
    by (auto simp: pool_addresses_def processBlockFound_shares)
  then show ?thesis
    using assms by (auto simp: addresses_ok_def)
qed

lemma addresses_record:
  "addresses_ok V p \<Longrightarrow> V a \<Longrightarrow> addresses_ok V (p\<lparr>p_shares := record_share now a d h (p_shares p)\<rparr>)"
  by (auto simp: addresses_ok_def pool_addresses_def record_share_def)

lemma addresses_sweep: "addresses_ok V p \<Longrightarrow> addresses_ok V (p\<lparr>p_shares := prune_sweep cfg now (p_shares p)\<rparr>)"
  by (auto simp: addresses_ok_def pool_addresses_def prune_sweep_def pruneOlderThan_def)

section \<open>One connection\<close>

definition guarded_pool :: "config \<Rightarrow> (string \<Rightarrow> network \<Rightarrow> bool) \<Rightarrow> state \<Rightarrow> bool" where
  "guarded_pool cfg decodes s \<longleftrightarrow>
     session_ok cfg decodes (fst s) \<and> addresses_ok (valid_for_network decodes cfg) (w_pool (snd s))"

lemma guarded_both:
  "keeps (ok_state cfg decodes) m \<Longrightarrow> leaves w_pool m \<Longrightarrow> keeps (guarded_pool cfg decodes) m"
  by (auto simp: keeps_def leaves_def guarded_pool_def)

text \<open>The actions that do not touch the pool's tables.\<close>

lemma pool_closeSocket [leaves_intros]: "leaves w_pool (closeSocket e)"
  unfolding closeSocket_def by (intro leaves_intros pool.leaves_destroy)

lemma pool_prepare_job [leaves_intros]: "leaves w_pool (prepare_job e t)"
  unfolding prepare_job_def
  by (intro leaves_intros leaves_world) (auto intro!: leaves_intros leaves_world split: option.split)

lemma pool_send [leaves_intros]: "leaves w_pool (sendNewMiningJob e t)"
  unfolding sendNewMiningJob_def
  by (intro leaves_intros) (auto intro!: leaves_intros pool.leaves_write_line split: prod.split)

lemma pool_fetch [leaves_intros]: "leaves w_pool (fetch_template e)"
  unfolding fetch_template_def
  by (intro leaves_intros) (simp add: leaves_def split: prod.split)

lemma pool_refresh [leaves_intros]: "leaves w_pool (refreshMiningJob e)"
  unfolding refreshMiningJob_def by (intro leaves_intros)

lemma leaves_option_state:
  "leaves f m \<Longrightarrow> (\<And>x. leaves f (k x)) \<Longrightarrow> leaves f (\<lambda>s. case v s of None \<Rightarrow> m s | Some x \<Rightarrow> k x s)"
  by (auto simp: leaves_def split: option.split)

lemma pool_local_refresh [leaves_intros]: "leaves w_pool (refreshLocalMiningWork e)"
  unfolding refreshLocalMiningWork_def by (intro leaves_intros leaves_option_state)

lemma pool_checkDifficulty [leaves_intros]: "leaves w_pool (checkDifficulty e)"
  unfolding checkDifficulty_def by (intro leaves_intros leaves_option_state)

lemma pool_tick: "leaves w_pool (tick e k)"
  by (cases k) (auto intro!: leaves_intros)

lemma pool_new_block: "leaves w_pool (on_new_block e)"
  unfolding on_new_block_def by (intro leaves_intros)

text \<open>The two that do: the share of an authorised session, and the split of a reward.\<close>

lemma guarded_log_share: "keeps (guarded_pool cfg decodes) (log_pplns_share e t d)"
  using addresses_record
  by (auto simp: keeps_def guarded_pool_def log_pplns_share_def with_auth_def the_authorization_def step_simps session_ok_def
      split: option.split)

lemma guarded_credit: "keeps (guarded_pool cfg decodes) (credit_block e t)"
proof -
  have "fst (fst (credit_block e t s)) = fst s" and
    "w_pool (snd (fst (credit_block e t s))) = fst (processBlockFound (e_cfg e) (e_now e) (height_of t)
       (bd_coinbasevalue (jt_blockData t)) (w_pool (snd s)))" for s
    by (simp_all add: credit_block_def split: prod.split)
  then show ?thesis
    using block_addresses by (simp add: keeps_def guarded_pool_def)
qed

lemma guarded_world: "(\<And>w. w_pool (f w) = w_pool w) \<Longrightarrow> keeps (guarded_pool cfg decodes) (on_world f)"
  by (intro keeps_change) (simp add: guarded_pool_def)

lemma guarded_world_change: "(\<And>c w. w_pool (g c w) = w_pool w) \<Longrightarrow> keeps (guarded_pool cfg decodes) (change (\<lambda>(c, w). (c, g c w)))"
  by (intro keeps_change) (auto simp: guarded_pool_def split: prod.split)

lemma guarded_auth: "(\<And>a. keeps (guarded_pool cfg decodes) (f a)) \<Longrightarrow> keeps (guarded_pool cfg decodes) (with_auth f)"
  unfolding with_auth_def by (intro keeps_intros)

lemma guarded_block_found: "keeps (guarded_pool cfg decodes) (block_found e sub job t)"
  unfolding block_found_def block_accepted_def Let_def
  by (intro keeps_intros guarded_auth guarded_world guarded_world_change guarded_credit) (simp_all split: prod.split)

lemma guarded_accept: "keeps (guarded_pool cfg decodes) (accept_share e sub job t header d)"
  unfolding accept_share_def
  by (intro keeps_intros guarded_log_share guarded_block_found guarded_both ok.keeps_write_line pool.leaves_write_line
      ok.keeps_ensureClientEntity pool.leaves_ensureClientEntity ok.keeps_credit_statistics pool.leaves_credit_statistics
      ok.keeps_keep_best_share pool.leaves_keep_best_share ok.keeps_report_external_share pool.leaves_report_external_share)

lemma guarded_refuse: "keeps (guarded_pool cfg decodes) (refuse e sub code message)"
  by (rule guarded_both[OF ok.keeps_refuse pool.leaves_refuse])

lemma guarded_submission: "keeps (guarded_pool cfg decodes) (handleMiningSubmission e sub)"
proof -
  have "keeps (guarded_pool cfg decodes) (judge_share e sub job t)" for job t
    unfolding judge_share_def Let_def
    by (intro keeps_intros guarded_accept guarded_refuse guarded_both[OF ok.keeps_log_diagnostics pool.leaves_log_diagnostics])
  then show ?thesis
    unfolding handleMiningSubmission_def
    by (intro keeps_intros guarded_refuse)
       (auto simp: guarded_pool_def same_core_def intro: session_ok_same)
qed

lemma guarded_submit: "keeps (guarded_pool cfg decodes) (on_submit errors e msg)"
  unfolding on_submit_def refuse_message_def
  by (intro keeps_intros guarded_submission guarded_both[OF ok.keeps_write_line pool.leaves_write_line]
      guarded_both[OF ok.keeps_closeSocket pool_closeSocket] guarded_world guarded_both[OF ok.keeps_ok_session])
     (simp_all add: leaves_intros logValidationError_def Let_def split: option.split)

lemma pool_blocked: "leaves w_pool (close_blocked e userAgent)"
  unfolding close_blocked_def
  by (intro leaves_intros leaves_world) (simp add: logBlockedUserAgent_def Let_def split: option.split)

lemma leaves_checked [leaves_intros]:
  "leaves f m \<Longrightarrow> (\<And>x. leaves f (k x)) \<Longrightarrow> leaves f (case r of Invalid \<Rightarrow> m | Valid x \<Rightarrow> k x)"
  by (cases r) simp_all

lemma pool_refuse_message [leaves_intros]: "leaves w_pool (refuse_message e msg what)"
  unfolding refuse_message_def by (rule pool.leaves_write_line)

lemma pool_replies:
  "leaves w_pool (on_subscribe e msg)" "leaves w_pool (on_configure e msg)" "leaves w_pool (on_authorize e msg)"
  "leaves w_pool (on_suggest_difficulty e msg)"
proof -
  show "leaves w_pool (on_subscribe e msg)" "leaves w_pool (on_configure e msg)" "leaves w_pool (on_authorize e msg)"
    unfolding on_subscribe_def on_configure_def on_authorize_def
    by (intro leaves_intros pool_blocked pool.leaves_write_line)+
  show "leaves w_pool (on_suggest_difficulty e msg)"
    unfolding on_suggest_difficulty_def
    by (intro leaves_intros pool.leaves_write_line) (auto intro!: leaves_intros pool.leaves_write_line split: prod.split)
qed

lemma pool_initStratum: "leaves w_pool (initStratum e)"
  unfolding initStratum_def
  by (intro leaves_intros pool_blocked) (simp add: leaves_def leavesD[OF pool.leaves_write_line])

lemma guarded_dispatch:
  assumes "e_cfg e = cfg" and "e_decodes e = decodes"
  shows "keeps (guarded_pool cfg decodes) (dispatch errors e msg)"
proof (cases "method_of msg = Some SUBMIT")
  case True
  then show ?thesis
    using guarded_submit by (simp add: dispatch_def)
next
  case False
  then have "leaves w_pool (dispatch errors e msg)"
    using pool_replies by (auto simp: dispatch_def leaves_intros split: option.split request_method.split)
  then show ?thesis
    using keeps_dispatch[OF assms] by (intro guarded_both)
qed

lemma handleMessage_guarded:
  assumes "guarded_pool cfg decodes s" and "\<not> c_connectionClosed (fst s)" and "e_cfg e = cfg" and "e_decodes e = decodes"
  shows "guarded_pool cfg decodes (fst (handleMessage errors e m s))"
proof -
  have ok: "ok_state cfg decodes (fst (handleMessage errors e m s))"
    using assms by (intro handleMessage_ok) (simp_all add: guarded_pool_def)
  have "addresses_ok (valid_for_network decodes cfg) (w_pool (snd (fst (handleMessage errors e m s))))"
  proof (cases "json_parse m")
    case None
    then show ?thesis
      using assms(1) by (simp add: handleMessage_def guarded_pool_def step_simps)
  next
    case (Some msg)
    obtain s1 r where d: "dispatch errors e msg s = (s1, r)" by fastforce
    then have "addresses_ok (valid_for_network decodes cfg) (w_pool (snd s1))"
      using keepsD[OF guarded_dispatch[OF assms(3,4)] assms(1), of errors msg] by (simp add: guarded_pool_def)
    then show ?thesis
      using Some assms(1) leavesD[OF pool_initStratum, of e s1]
      by (cases r) (auto simp: handleMessage_def step_simps d binds_def returns_def throws_def guarded_pool_def)
  qed
  then show ?thesis
    using ok by (simp add: guarded_pool_def)
qed

lemma handle_lines_guarded:
  assumes "guarded_pool cfg decodes s" and "e_cfg e = cfg" and "e_decodes e = decodes"
  shows "guarded_pool cfg decodes (handle_lines errors e ms s)"
  using assms(1)
proof (induction ms arbitrary: s)
  case (Cons m ms)
  show ?case
  proof (cases "stops_reading (fst s)")
    case False
    obtain s' r where h: "handleMessage errors e m s = (s', r)" by fastforce
    have g: "guarded_pool cfg decodes s'"
      using handleMessage_guarded[OF Cons.prems _ assms(2,3), of errors m] False h by (simp add: stops_reading_def)
    then have "guarded_pool cfg decodes (apfst socket_end s')"
      by (auto simp: guarded_pool_def intro: session_ok_same)
    with g show ?thesis
      using False h Cons.IH by (simp split: sum.split)
  qed (use Cons.prems in simp)
qed simp

lemma event_step_guarded:
  assumes "guarded_pool cfg decodes s" and "e_cfg e = cfg" and "e_decodes e = decodes"
  shows "guarded_pool cfg decodes (event_step errors e ev s)"
proof -
  have ok: "ok_state cfg decodes (event_step errors e ev s)"
    using assms by (intro event_step_ok) (simp_all add: guarded_pool_def)
  show ?thesis
  proof (cases ev)
    case (Data chunk)
    have "guarded_pool cfg decodes (apfst (\<lambda>c. c\<lparr>c_buffer := b\<rparr>) s)" for b
      using assms(1) by (auto simp: guarded_pool_def same_core_def intro: session_ok_same)
    then show ?thesis
      using handle_lines_guarded[OF _ assms(2,3)] by (simp add: Data on_data_def Let_def)
  next
    case NewBlock
    then show ?thesis
      using ok assms(1) leavesD[OF pool_new_block] by (simp add: guarded_pool_def)
  next
    case (Tick k)
    then show ?thesis
      using ok assms(1) leavesD[OF pool_tick] by (simp add: guarded_pool_def)
  next
    case PeerClose
    then show ?thesis
      using ok assms(1) leavesD[OF pool.leaves_destroy] by (simp add: guarded_pool_def)
  qed (use ok assms(1) in \<open>simp_all add: guarded_pool_def\<close>)
qed

section \<open>All connections\<close>

text \<open>
  \<open>serves cs w\<close>: connections \<open>cs\<close> and shared state \<open>w\<close> that a server with empty tables reaches. The settings and
  the address format stay; clocks, the node's answers, the library's results may differ at every event. A batch
  is marked in the ledger as it is when the wallet has answered; its candidates were read from an earlier one, \<open>l0\<close>.
\<close>

inductive serves ::
  "'w node \<Rightarrow> (jsval \<Rightarrow> validation_error list) \<Rightarrow> config \<Rightarrow> (string \<Rightarrow> network \<Rightarrow> bool) \<Rightarrow>
     (nat \<Rightarrow> session option) \<Rightarrow> world \<Rightarrow> bool"
  for post errors cfg decodes where
  boot: "pool_addresses (w_pool w) = {} \<Longrightarrow> serves post errors cfg decodes Map.empty w"
| accept: "serves post errors cfg decodes cs w \<Longrightarrow> cs i = None \<Longrightarrow>
    serves post errors cfg decodes (cs(i \<mapsto> new_session outcomes)) w"
| event: "serves post errors cfg decodes cs w \<Longrightarrow> cs i = Some c \<Longrightarrow> e_cfg e = cfg \<Longrightarrow> e_decodes e = decodes \<Longrightarrow>
    event_step errors e ev (c, w) = (c', w') \<Longrightarrow> serves post errors cfg decodes (cs(i \<mapsto> c')) w'"
| sweep: "serves post errors cfg decodes cs w \<Longrightarrow>
    serves post errors cfg decodes cs (w\<lparr>w_pool := (w_pool w)\<lparr>p_shares := prune_sweep cfg now (p_shares (w_pool w))\<rparr>\<rparr>)"
| payout: "serves post errors cfg decodes cs w \<Longrightarrow>
    runPayoutCycle post big cfg settings mi (\<lambda>_. p_ledger (w_pool w)) now l0 s = ((l, s'), BatchSent tx batch sent_notes) \<Longrightarrow>
    serves post errors cfg decodes cs (w\<lparr>w_pool := (w_pool w)\<lparr>p_ledger := l\<rparr>\<rparr>)"
| confirm: "serves post errors cfg decodes cs w \<Longrightarrow>
    reconcileSentPayouts post cfg now (p_ledger (w_pool w)) s = (l, s') \<Longrightarrow>
    serves post errors cfg decodes cs (w\<lparr>w_pool := (w_pool w)\<lparr>p_ledger := l\<rparr>\<rparr>)"

lemma addresses_ledger:
  assumes "addresses_ok V p" and "map l_minerAddress (l_rows l) = map l_minerAddress (l_rows (p_ledger p))"
  shows "addresses_ok V (p\<lparr>p_ledger := l\<rparr>)"
proof -
  have "l_minerAddress ` set (l_rows l) = l_minerAddress ` set (l_rows (p_ledger p))"
    using arg_cong[OF assms(2), of set] by (simp only: set_map)
  then show ?thesis
    using assms(1) by (simp add: addresses_ok_def pool_addresses_def)
qed

lemma mark_batch_addresses: "map l_minerAddress (l_rows (mark_batch now tx cs l)) = map l_minerAddress (l_rows l)"
  unfolding mark_batch_def
  by (induction cs arbitrary: l) (simp_all add: markSentUpTo_def map_update_where_same)

lemma confirmed_addresses: "map l_minerAddress (l_rows (fold (markConfirmed now) txs l)) = map l_minerAddress (l_rows l)"
  by (induction txs arbitrary: l) (simp_all add: markConfirmed_def map_update_where_same)

definition all_guarded :: "config \<Rightarrow> (string \<Rightarrow> network \<Rightarrow> bool) \<Rightarrow> (nat \<Rightarrow> session option) \<Rightarrow> world \<Rightarrow> bool" where
  "all_guarded cfg decodes cs w \<longleftrightarrow>
     (\<forall>c \<in> ran cs. session_ok cfg decodes c) \<and> addresses_ok (valid_for_network decodes cfg) (w_pool w)"

lemma serves_guarded: "serves post errors cfg decodes cs w \<Longrightarrow> all_guarded cfg decodes cs w"
proof (induction rule: serves.induct)
  case (boot w)
  then show ?case
    by (simp add: all_guarded_def addresses_ok_def)
next
  case (accept cs w i outcomes)
  have "session_ok cfg decodes (new_session outcomes)"
    by (simp add: session_ok_def new_session_def)
  then show ?case
    using accept by (auto simp: all_guarded_def ran_def)
next
  case (event cs w i c e ev c' w')
  then have "guarded_pool cfg decodes (c, w)"
    by (auto simp: all_guarded_def guarded_pool_def ran_def)
  then have "guarded_pool cfg decodes (c', w')"
    using event_step_guarded[OF _ event.hyps(3,4)] event.hyps(5) by metis
  then show ?case
    using event.IH by (auto simp: all_guarded_def guarded_pool_def ran_def)
next
  case (sweep cs w now)
  then show ?case
    using addresses_sweep by (simp add: all_guarded_def)
next
  case (payout cs w big settings mi now l0 s l s' tx batch sent_notes)
  obtain h where "l = mark_batch now tx (payout_candidates cfg settings h l0) (p_ledger (w_pool w))"
    using payout.hyps(2) by (rule runPayoutCycle_sent)
  then show ?case
    using payout.IH addresses_ledger[of _ "w_pool w" l] by (simp add: all_guarded_def mark_batch_addresses)
next
  case (confirm cs w now s l s')
  then obtain txs where "l = fold (markConfirmed now) txs (p_ledger (w_pool w))"
    unfolding reconcileSentPayouts_def by (elim reconcile_txids_fold)
  then show ?case
    using confirm.IH addresses_ledger[of _ "w_pool w" l] by (simp add: all_guarded_def confirmed_addresses)
qed

text \<open>
  C10. Every address the wallet is asked to pay is valid on the configured network: whatever any number of
  miners send, and however their connections, found blocks, sweeps and payouts interleave, the
  addresses of a batch all passed the check of \<open>mining.authorize\<close>. So no miner can
  make the wallet refuse everybody's payout by mining for an address that does not exist.
\<close>

theorem only_valid_addresses_paid:
  assumes "serves post errors cfg decodes cs w"
    and "runPayoutCycle post big cfg settings mi meanwhile now (p_ledger (w_pool w)) s =
           ((l', s'), BatchSent tx batch sent_notes)"
  shows "list_all (\<lambda>(a, amount). valid_for_network decodes cfg a) batch"
proof -
  obtain h where batch: "batch = payout_batch (payout_candidates cfg settings h (p_ledger (w_pool w)))"
    using assms(2) by (rule runPayoutCycle_sent)
  have "c_minerAddress c \<in> pool_addresses (w_pool w)" if "c \<in> set (payout_candidates cfg settings h (p_ledger (w_pool w)))" for c
    using candidate_member[OF that] by (auto simp: getMaturePendingTotals_def group_by_miner_def candidate_of_def pool_addresses_def)
  then show ?thesis
    using serves_guarded[OF assms(1)]
    by (auto simp: batch payout_batch_def list_all_iff all_guarded_def addresses_ok_def)
qed

section \<open>A miner from the first line to the payout\<close>

text \<open>A line that submits a share changes the tables as the share itself does.\<close>

lemma submit_data_pool:
  assumes "CHR 0x0A \<notin> set m" and "json_parse m = Some v" and "method_of v = Some SUBMIT"
    and "parse_submission v = Inr (Valid sub)" and "c_buffer (fst s) = []" and "\<not> stops_reading (fst s)"
    and "c_stratumInitialized (fst s)"
  shows "w_pool (snd (on_data errors e (m @ [CHR 0x0A]) s)) = w_pool (snd (fst (handleMiningSubmission e sub s)))"
proof -
  let ?G = "\<lambda>goes_on s. if goes_on \<and> ready_to_start (fst s) then initStratum e s else returns () s"
  let ?K = "\<lambda>ok. if ok then write_line e (Success (sm_id sub) (Bool True)) else returns True"
  have start: "leaves w_pool (?G goes_on)" for goes_on
    by (rule leaves_if_state[OF pool_initStratum leaves_basic(1)])
  have answer: "leaves w_pool (?K ok)" for ok
    by (intro leaves_if pool.leaves_write_line leaves_basic(1))
  have run: "handleMessage errors e m s = binds (binds (handleMiningSubmission e sub) ?K) ?G s"
    using assms method_not_nullish[OF assms(3)] by (simp add: handleMessage_def dispatch_def on_submit_def step_simps binds_def)
  obtain s1 r where h: "handleMiningSubmission e sub s = (s1, r)" by fastforce
  obtain s' r' where m: "handleMessage errors e m s = (s', r')" by fastforce
  have "w_pool (snd s') = w_pool (snd s1)"
  proof (cases r)
    case (Inr ok)
    then have "binds (?K ok) ?G s1 = (s', r')"
      using run h m by (simp add: binds_def)
    then show ?thesis
      using leavesD[OF leaves_binds[where m = "?K ok" and k = ?G, OF answer start], where s = s1] by simp
  qed (use run h m in \<open>simp add: binds_def\<close>)
  then show ?thesis
    using assms h m by (simp add: on_data_line split: sum.split)
qed

definition submit_line :: string where
  "submit_line = ''{\"id\":4,\"method\":\"mining.submit\",\"params\":[\"be1q.rig\",\"1\",\"\",\"6553f105\",\"00000007\",\"0\"]}''"

definition submit_value :: jsval where
  "submit_value = Obj [(''params'', Arr (map String [''be1q.rig'', ''1'', [], ''6553f105'', ''00000007'', ''0''])),
     (''method'', String ''mining.submit''), (''id'', Number (Num 4))]"

definition rig_submission :: submission where
  "rig_submission = example_submission\<lparr>sm_id := Number (Num 4)\<rparr>"

lemma rig_submits: "json_parse submit_line = Some submit_value" "CHR 0x0A \<notin> set submit_line"
  "method_of submit_value = Some SUBMIT" "parse_submission submit_value = Inr (Valid rig_submission)"
  by code_simp+

definition empty_world :: world where
  "empty_world = example_world\<lparr>w_pool := \<lparr>p_shares = empty_share_log, p_ledger = empty_ledger, p_accounting = None\<rparr>\<rparr>"

abbreviation rig_session :: session where
  "rig_session \<equiv> served_session example_env example_env example_subscription rig_authorization"

definition rig_served :: state where
  "rig_served = on_data (\<lambda>v. []) example_env (submit_line @ [CHR 0x0A]) (rig_session, empty_world)"

lemma rig_handshake:
  "on_data (\<lambda>v. []) example_env (subscribe_line @ [CHR 0x0A]) (new_session [], w) =
     (subscribed_session example_env example_subscription, w)"
  "on_data (\<lambda>v. []) example_env (authorize_line @ [CHR 0x0A]) (subscribed_session example_env example_subscription, w) =
     (rig_session, w)"
proof -
  have open_agent: "\<not> isBlockedUserAgent (e_cfg example_env) ua" for ua
    by (simp add: isBlockedUserAgent_def example_env_def or_else_def)
  have "method_of subscribe_value = Some SUBSCRIBE" "parse_subscription subscribe_value = Inr (Valid example_subscription)"
    "CHR 0x0A \<notin> set subscribe_line"
    by code_simp+
  then show "on_data (\<lambda>v. []) example_env (subscribe_line @ [CHR 0x0A]) (new_session [], w) =
      (subscribed_session example_env example_subscription, w)"
    by (rule handshake_subscribe[OF example_lines(1) _ _ open_agent])
  have "parse_authorization (valid_for_network (e_decodes example_env) (e_cfg example_env)) authorize_value =
      Inr (Valid rig_authorization)"
    unfolding example_env_def by code_simp
  moreover have "method_of authorize_value = Some AUTHORIZE" "CHR 0x0A \<notin> set authorize_line"
    by code_simp+
  ultimately show "on_data (\<lambda>v. []) example_env (authorize_line @ [CHR 0x0A])
      (subscribed_session example_env example_subscription, w) = (rig_session, w)"
    using handshake_authorize[OF example_lines(2) _ _ open_agent] by blast
qed

lemma rig_difficulty: "c_sessionDifficulty rig_session = Num 100000"
  unfolding example_env_def by code_simp


definition rig_log :: share_log where
  "rig_log = record_share 9000001 ''be1q'' (Num 26959535291011309493156476344723991336010898738574164086137773096960)
     10000 empty_share_log"

lemma rig_share_difficulty: "submissionDifficulty (e_lib example_env) h =
    Num 26959535291011309493156476344723991336010898738574164086137773096960"
proof -
  have "submissionDifficulty (e_lib example_env) h = difficulty_of_target (le256todouble (1 # replicate 31 0))"
    by (simp add: submissionDifficulty_def example_share_lib_def example_env_def)
  also have "\<dots> = Num (26959535291011309493156476344723991336010898738574164086137773096960)"
    by code_simp
  finally show ?thesis .
qed

lemma rig_judged: "judged example_env rig_submission rig_session empty_world example_job example_template example_share_header"
  using example_judged[of "[]"]
  by (simp add: judged_def rig_submission_def empty_world_def submission_hash_def share_header_def served_session_def
      start_timers_def Let_def starting_difficulty_fields authorised_fields)

lemma rig_open: "\<not> isSocketClosed rig_session" "k_outcomes (c_socket rig_session) = []"
  "c_authorization rig_session = Some rig_authorization"
  by (simp_all add: served_session_def start_timers_def Let_def starting_difficulty_fields authorised_fields isSocketClosed_def
      open_socket_def)

lemma rig_block: "p_ledger (fst (processBlockFound (e_cfg example_env) 9000001 10000 (Num 5000000000)
    \<lparr>p_shares = rig_log, p_ledger = empty_ledger, p_accounting = None\<rparr>)) =
  insert_credit 9000001 ''be1q'' 5000000000 10000 empty_ledger"
  unfolding example_env_def by code_simp

lemma rig_served_pool: "w_pool (snd rig_served) =
  fst (processBlockFound (e_cfg example_env) 9000001 10000 (Num 5000000000)
    \<lparr>p_shares = rig_log, p_ledger = empty_ledger, p_accounting = None\<rparr>)"
proof -
  let ?c = "rig_session\<lparr>c_submissionHashes := submission_hash rig_submission # c_submissionHashes rig_session\<rparr>"
  let ?d = "submissionDifficulty (e_lib example_env) example_share_header"
  have d: "js_ge ?d (c_sessionDifficulty rig_session)" "js_ge ?d (bd_networkDifficulty (jt_blockData example_template))"
    unfolding rig_share_difficulty rig_difficulty by (simp_all add: example_template_def)
  obtain di where run: "handleMiningSubmission example_env rig_submission (rig_session, empty_world) =
     accept_share example_env rig_submission example_job example_template example_share_header ?d
       (?c, empty_world\<lparr>w_diagnostics := di\<rparr>)"
    using accepted_run[OF rig_judged d(1)] .
  have c: "\<not> isSocketClosed ?c" "k_outcomes (c_socket ?c) = []" "c_authorization ?c = Some rig_authorization"
    using rig_open by (simp_all add: isSocketClosed_def)
  have "w_pool (snd rig_served) = w_pool (snd (fst (handleMiningSubmission example_env rig_submission (rig_session, empty_world))))"
    unfolding rig_served_def
    by (rule submit_data_pool[OF rig_submits(2,1,3,4)])
       (simp_all add: served_session_def start_timers_def Let_def starting_difficulty_fields authorised_fields open_socket_def
          stops_reading_def)
  also have "\<dots> = fst (processBlockFound (e_cfg example_env) (e_now example_env) (height_of example_template)
      (bd_coinbasevalue (jt_blockData example_template))
      ((w_pool (empty_world\<lparr>w_diagnostics := di\<rparr>))\<lparr>p_shares := record_share (e_now example_env) (au_address rig_authorization) ?d
         (height_of example_template) (p_shares (w_pool (empty_world\<lparr>w_diagnostics := di\<rparr>)))\<rparr>))"
    unfolding run
    by (rule accept_share_pool[OF c d(2), where b = example_block])
       (use example_block_eq in \<open>simp_all add: rig_submission_def\<close>, simp_all add: example_env_def)
  finally show ?thesis
    unfolding rig_share_difficulty
    by (simp add: rig_log_def empty_world_def rig_authorization_def example_template_def height_of_def example_env_def)
qed


definition rich_node :: "nat node" where
  "rich_node r k =
     (k + 1, Inr (Obj [(''result'', if request_method r = ''getbalance'' then Number (Num 100) else String ''txid''),
                       (''error'', Null)]))"

lemma rig_serves: "serves rich_node (\<lambda>v. []) (e_cfg example_env) (e_decodes example_env)
    ((((Map.empty(0 \<mapsto> new_session []))(0 \<mapsto> subscribed_session example_env example_subscription))(0 \<mapsto> rig_session))
       (0 \<mapsto> fst rig_served)) (snd rig_served)"
proof -
  let ?S = "serves rich_node (\<lambda>v. []) (e_cfg example_env) (e_decodes example_env)"
  have step: "?S (cs(0 \<mapsto> fst s)) (snd s)"
    if "?S cs w" "cs 0 = Some c" "on_data (\<lambda>v. []) example_env l (c, w) = s" for cs w c l s
    by (rule serves.event[OF that(1,2) refl refl, where ev = "Data l"]) (simp add: that(3))
  have "pool_addresses (w_pool empty_world) = {}"
    by (simp add: pool_addresses_def empty_world_def empty_share_log_def empty_ledger_def)
  then have s0: "?S (Map.empty(0 \<mapsto> new_session [])) empty_world"
    by (intro serves.accept serves.boot) simp_all
  from step[OF s0 _ rig_handshake(1)]
  have s1: "?S ((Map.empty(0 \<mapsto> new_session []))(0 \<mapsto> subscribed_session example_env example_subscription)) empty_world"
    by simp
  from step[OF s1 _ rig_handshake(2)]
  have s2: "?S (((Map.empty(0 \<mapsto> new_session []))(0 \<mapsto> subscribed_session example_env example_subscription))(0 \<mapsto> rig_session))
      empty_world"
    by simp
  from step[OF s2 _ rig_served_def[symmetric]] show ?thesis
    by simp
qed

theorem only_valid_addresses_paid_witness:
  "let l = p_ledger (w_pool (snd rig_served));
       res = runPayoutCycle rich_node (\<lambda>_. []) (e_cfg example_env) [] (Obj [(''blocks'', Number (Num 10200))]) (\<lambda>l. l) 9 l
               (wallet_client_init Map.empty, 0)
   in snd res = BatchSent (Some ''txid'') [(''be1q'', Num 5000000000)] [] \<and>
      list_all (\<lambda>(a, amount). valid_for_network (e_decodes example_env) (e_cfg example_env) a) [(''be1q'', Num 5000000000)]"
proof -
  let ?res = "\<lambda>l. runPayoutCycle rich_node (\<lambda>_. []) (e_cfg example_env) [] (Obj [(''blocks'', Number (Num 10200))]) (\<lambda>l. l) 9 l
               (wallet_client_init Map.empty, 0)"
  let ?l = "p_ledger (w_pool (snd rig_served))"
  have l: "?l = insert_credit 9000001 ''be1q'' 5000000000 10000 empty_ledger"
    by (simp add: rig_served_pool rig_block)
  have "snd (?res (insert_credit 9000001 ''be1q'' 5000000000 10000 empty_ledger)) =
      BatchSent (Some ''txid'') [(''be1q'', Num 5000000000)] []"
    unfolding example_env_def by code_simp
  then have sent: "snd (?res ?l) = BatchSent (Some ''txid'') [(''be1q'', Num 5000000000)] []"
    by (simp only: l)
  then have "?res ?l = ((fst (fst (?res ?l)), snd (fst (?res ?l))), BatchSent (Some ''txid'') [(''be1q'', Num 5000000000)] [])"
    by (metis prod.collapse)
  from only_valid_addresses_paid[OF rig_serves this] show ?thesis
    using sent by (simp add: Let_def)
qed

end
