(* ===== verification/FrontDoor.thy ===== *)
theory FrontDoor
  imports StratumServer ServerPool
begin

text \<open>
  The server socket in front of the connections (\<open>createSocketServer\<close>, \<open>configureConnectionLimit\<close> and the
  pausing of \<open>src/services/stratum-v1.service.ts\<close>) together with the connections it accepts. A server of the
  language's \<open>net\<close> module counts its own connections and drops one that comes when the count has reached
  \<open>maxConnections\<close>; \<open>close\<close> stops it accepting and leaves the connections it has. So the limit is kept by
  every server, but resuming makes a new server, which starts to count at zero.
\<close>

section \<open>Accepting\<close>

text \<open>\<open>dr_servers\<close> counts the servers made so far; the last one listens. A connection is open with its server's number.\<close>

record door =
  dr_service :: stratum_service
  dr_servers :: nat
  dr_open :: "(nat \<times> nat) list"

definition has_server :: "stratum_service \<Rightarrow> bool" where
  "has_server st \<longleftrightarrow> (\<exists>l \<in> set (ss_listeners st). li_server l \<noteq> None)"

definition connections :: "nat \<Rightarrow> door \<Rightarrow> nat" where
  "connections g d = length (filter (\<lambda>(i, h). h = g) (dr_open d))"

datatype door_event = Monitor server_event | Connect nat | Close nat

text \<open>
  What becomes of a new connection: with no server the system refuses it; a server whose count has reached its own
  \<open>maxConnections\<close> drops it, or, when the processes share the port and \<open>dropMaxConnection\<close> is not set, hands it on to
  another process.
\<close>

datatype admission = Admitted | Dropped | HandedOn | NotListening

definition listening :: "stratum_service \<Rightarrow> server option" where
  "listening st = (case filter (\<lambda>x. x \<noteq> None) (map li_server (ss_listeners st)) of [] \<Rightarrow> None | x # xs \<Rightarrow> x)"

definition admission_of :: "bool \<Rightarrow> door \<Rightarrow> admission" where
  "admission_of cluster d =
     (case listening (dr_service d) of
        None \<Rightarrow> NotListening
      | Some sv \<Rightarrow>
          if \<not> js_ge (IntN (int (connections (dr_servers d) d))) (sv_maxConnections sv) then Admitted
          else if cluster \<and> \<not> sv_dropMaxConnection sv then HandedOn else Dropped)"

definition accepts :: "nat \<Rightarrow> door \<Rightarrow> bool" where
  "accepts i d \<longleftrightarrow> i \<notin> fst ` set (dr_open d) \<and> admission_of True d = Admitted"

fun door_step :: "config \<Rightarrow> (jsnum list \<Rightarrow> jsnum) \<Rightarrow> door_event \<Rightarrow> door \<Rightarrow> door" where
  "door_step env percentile (Monitor e) d =
     (let st = server_step env percentile e (dr_service d)
      in d\<lparr>dr_service := st,
           dr_servers := (if \<not> has_server (dr_service d) \<and> has_server st then dr_servers d + 1 else dr_servers d)\<rparr>)"
| "door_step env percentile (Connect i) d =
     (if accepts i d then d\<lparr>dr_open := dr_open d @ [(i, dr_servers d)]\<rparr> else d)"
| "door_step env percentile (Close i) d = d\<lparr>dr_open := filter (\<lambda>(j, h). j \<noteq> i) (dr_open d)\<rparr>"

definition opened_door :: "config \<Rightarrow> (jsnum list \<Rightarrow> jsnum) \<Rightarrow> int \<Rightarrow> client_service \<Rightarrow> door" where
  "opened_door env percentile now cl =
     \<lparr>dr_service = started_service env percentile now cl, dr_servers = 1, dr_open = []\<rparr>"

section \<open>The limit of a server\<close>

text \<open>Whatever the monitor does, the servers are the ones \<open>createSocketServer\<close> makes.\<close>

definition configured_servers :: "config \<Rightarrow> stratum_service \<Rightarrow> bool" where
  "configured_servers env st \<longleftrightarrow>
     (\<forall>l \<in> set (ss_listeners st). \<forall>sv. li_server l = Some sv \<longrightarrow> sv = createSocketServer env (li_port l))"

lemma configured_servers_step:
  "configured_servers env st \<Longrightarrow> configured_servers env (server_step env percentile e st)"
  by (cases e)
     (auto simp: configured_servers_def startSocketServer_def listen_def checkBackpressure_def Let_def pauseAccepting_def
       resumeAccepting_def)

lemma configured_servers_started: "configured_servers env (started_service env percentile now cl)"
proof -
  have "configured_servers env (snd (on_module_init env now (cl, new_service)))"
    by (simp add: configured_servers_def on_module_init_def new_service_def startBackpressureMonitor_def)
  then show ?thesis
    unfolding started_service_def by (rule configured_servers_step)
qed

lemma listening_configured:
  assumes "configured_servers env st" and "listening st = Some sv"
  shows "sv_maxConnections sv = getMaxConnectionsPerListener env" and "sv_dropMaxConnection sv"
proof -
  let ?servers = "filter (\<lambda>x. x \<noteq> None) (map li_server (ss_listeners st))"
  have "hd ?servers \<in> set ?servers" and "hd ?servers = Some sv"
    using assms(2) by (cases ?servers; simp only: listening_def list.case list.sel list.set_intros option.distinct)+
  then have "Some sv \<in> set ?servers"
    by simp
  then have "\<exists>port. sv = createSocketServer env port"
    using assms(1) by (auto simp: configured_servers_def) metis
  then show "sv_maxConnections sv = getMaxConnectionsPerListener env" and "sv_dropMaxConnection sv"
    by (auto simp: createSocketServer_def)
qed

lemma listening_has_server: "listening st \<noteq> None \<longleftrightarrow> has_server st"
proof -
  have "listening st = None \<longleftrightarrow> filter (\<lambda>x. x \<noteq> None) (map li_server (ss_listeners st)) = []"
  proof (cases "filter (\<lambda>x. x \<noteq> None) (map li_server (ss_listeners st))")
    case (Cons x xs)
    then have "x \<in> set (filter (\<lambda>x. x \<noteq> None) (map li_server (ss_listeners st)))"
      by (simp only: list.set_intros)
    then have "x \<noteq> None"
      by simp
    then show ?thesis
      unfolding listening_def Cons by simp
  qed (simp only: listening_def list.case simp_thms)
  then show ?thesis
    by (auto simp: has_server_def filter_empty_conv)
qed

lemma admitted_iff:
  assumes "configured_servers env (dr_service d)" and "getMaxConnectionsPerListener env = IntN M"
  shows "admission_of cluster d = Admitted \<longleftrightarrow> has_server (dr_service d) \<and> int (connections (dr_servers d) d) < M"
    and "admission_of cluster d \<noteq> HandedOn"
  using listening_configured[OF assms(1)] assms(2) listening_has_server[of "dr_service d"]
  by (auto simp: admission_of_def simp del: of_int_of_nat_eq split: option.splits)

definition within_limit :: "config \<Rightarrow> int \<Rightarrow> door \<Rightarrow> bool" where
  "within_limit env M d \<longleftrightarrow> configured_servers env (dr_service d) \<and> (\<forall>g. int (connections g d) \<le> M) \<and> (\<forall>c \<in> set (dr_open d). 0 < snd c \<and> snd c \<le> dr_servers d) \<and> 0 < dr_servers d"

lemma length_filter_filter: "length (filter P (filter Q xs)) \<le> length (filter P xs)"
  by (induction xs) auto

lemma door_step_limit:
  assumes "getMaxConnectionsPerListener env = IntN M" and "within_limit env M d"
  shows "within_limit env M (door_step env percentile e d)"
proof (cases e)
  case (Monitor x)
  then show ?thesis
    using assms(2) configured_servers_step by (auto simp: within_limit_def connections_def Let_def simp del: server_step.simps)
next
  case (Connect i)
  then show ?thesis
    using assms admitted_iff(1)[OF _ assms(1), of d]
    by (auto simp: within_limit_def connections_def accepts_def simp del: of_int_of_nat_eq)
next
  case (Close i)
  have "connections g (door_step env percentile e d) \<le> connections g d" for g
    unfolding Close connections_def by (simp add: length_filter_filter del: filter_filter)
  then have "int (connections g (door_step env percentile e d)) \<le> M" for g
    using assms(2) unfolding within_limit_def by (meson of_nat_mono order_trans)
  then show ?thesis
    using assms(2) by (auto simp: within_limit_def Close)
qed

lemma door_limit:
  assumes "getMaxConnectionsPerListener env = IntN M"
  shows "within_limit env M (fold (door_step env percentile) es (opened_door env percentile now cl))"
proof (rule fold_invariant[where Q = "\<lambda>_. True"])
  have "positive_integer (getMaxConnectionsPerListener env)"
    by (simp add: getMaxConnectionsPerListener_def getPositiveIntegerEnv_def positive_setting_positive)
  then have "0 < M"
    using assms by (simp add: positive_integer_def)
  then show "within_limit env M (opened_door env percentile now cl)"
    by (simp add: within_limit_def opened_door_def connections_def configured_servers_started)
qed (simp, rule door_step_limit[OF assms])

lemma sum_connections:
  fixes cs :: "(nat \<times> nat) list"
  assumes "\<forall>c \<in> set cs. 0 < snd c \<and> snd c \<le> n"
  shows "length cs = (\<Sum>g \<in> {1..n}. length (filter (\<lambda>(i, h). h = g) cs))"
  using assms
proof (induction cs)
  case (Cons c cs)
  have "(\<Sum>g \<in> {1..n}. length (filter (\<lambda>(i, h). h = g) (c # cs))) =
      (\<Sum>g \<in> {1..n}. (if g = snd c then 1 else 0) + length (filter (\<lambda>(i, h). h = g) cs))"
    by (rule sum.cong) (auto split: prod.split)
  also have "\<dots> = (\<Sum>g \<in> {1..n}. if g = snd c then 1 else 0) + length cs"
    using Cons by (simp only: sum.distrib) simp
  also have "(\<Sum>g \<in> {1..n}. if g = snd c then 1 else 0) = (1 :: nat)"
    using Cons.prems by (subst sum.delta) auto
  finally show ?case by simp
qed simp

lemma door_total:
  assumes "within_limit env M d"
  shows "int (length (dr_open d)) \<le> int (dr_servers d) * M"
proof -
  have "int (length (dr_open d)) = (\<Sum>g \<in> {1..dr_servers d}. int (connections g d))"
    using sum_connections[of "dr_open d" "dr_servers d"] assms by (simp add: within_limit_def connections_def)
  also have "\<dots> \<le> (\<Sum>g \<in> {1..dr_servers d}. M)"
    using assms by (intro sum_mono) (simp add: within_limit_def)
  finally show ?thesis by simp
qed

text \<open>
  C34. The limit on connections is kept by every server socket: whatever comes, goes and is measured, no server has
  more than the configured number of open connections, the process has at most that many for every
  server it has made since it started, and a connection beyond the limit is closed, not handed to
  another process that shares the port.
\<close>

theorem connections_bounded:
  assumes "getMaxConnectionsPerListener env = IntN M"
  shows "let d = fold (door_step env percentile) es (opened_door env percentile now cl)
         in int (connections g d) \<le> M \<and> int (length (dr_open d)) \<le> int (dr_servers d) * M \<and>
            admission_of cluster d \<noteq> HandedOn"
  using door_limit[OF assms] door_total[OF door_limit[OF assms]] admitted_iff(2)[OF _ assms]
  by (simp add: within_limit_def Let_def)

section \<open>The limit of the process\<close>

lemma service_has_server:
  assumes "service_ok env ports st"
  shows "has_server st \<longleftrightarrow> gate_of st = Accepting"
proof -
  have "ss_listeners st \<noteq> []"
    using assms by (auto simp: service_ok_def)
  then obtain l where "l \<in> set (ss_listeners st)"
    by (cases "ss_listeners st") auto
  then show ?thesis
    using service_okD[OF assms] by (auto simp: has_server_def split: if_splits)
qed

text \<open>A quiet door: its service is started, with nothing sampled, and its gate is \<open>g\<close>.\<close>

definition quiet :: "config \<Rightarrow> jsnum list \<Rightarrow> gate \<Rightarrow> door \<Rightarrow> bool" where
  "quiet env ports g d \<longleftrightarrow> service_ok env ports (dr_service d) \<and> gate_view (dr_service d) = (g, [])"

lemma quiet_check:
  fixes percentile :: "jsnum list \<Rightarrow> jsnum" and rss :: jsnum
  assumes "quiet env ports g d"
  defines "g' \<equiv> gate_check env (getEventLoopP95Ms percentile []) (rss_mb rss) g"
  shows "\<exists>st. door_step env percentile (Monitor (Check rss)) d =
           d\<lparr>dr_service := st, dr_servers := (if g \<noteq> Accepting \<and> g' = Accepting then dr_servers d + 1 else dr_servers d)\<rparr> \<and>
           quiet env ports g' (d\<lparr>dr_service := st, dr_servers := n\<rparr>)"
proof -
  let ?st = "server_step env percentile (Check rss) (dr_service d)"
  have d: "service_ok env ports (dr_service d)" "gate_of (dr_service d) = g" "ss_delays (dr_service d) = []"
    using assms(1) by (simp_all add: quiet_def gate_view_def)
  have st: "service_ok env ports ?st" "gate_view ?st = (g', [])"
    using server_step_gate[OF d(1), of percentile "Check rss"] d by (simp_all add: gate_view_def g'_def)
  have "has_server (dr_service d) \<longleftrightarrow> g = Accepting" "has_server ?st \<longleftrightarrow> g' = Accepting"
    using service_has_server[OF d(1)] service_has_server[OF st(1)] st(2) d(2) by (simp_all add: gate_view_def)
  then show ?thesis
    using st by (intro exI[of _ ?st]) (simp add: quiet_def Let_def del: server_step.simps)
qed

lemma quiet_connect:
  assumes "quiet env ports Accepting d" and "getMaxConnectionsPerListener env = IntN M"
    and "int (connections (dr_servers d) d) + int k \<le> M" and "\<forall>c \<in> set (dr_open d). fst c < n"
  shows "fold (door_step env percentile) (map Connect [n..<n + k]) d =
           d\<lparr>dr_open := dr_open d @ map (\<lambda>i. (i, dr_servers d)) [n..<n + k]\<rparr>"
  using assms(3)
proof (induction k)
  case (Suc k)
  let ?d = "d\<lparr>dr_open := dr_open d @ map (\<lambda>i. (i, dr_servers d)) [n..<n + k]\<rparr>"
  have "configured_servers env (dr_service ?d)"
    using assms(1) service_okD by (auto simp: configured_servers_def quiet_def split: if_splits)
  moreover have "has_server (dr_service ?d)"
    using assms(1) service_has_server[of env ports "dr_service d"] by (simp add: quiet_def gate_view_def)
  moreover have "n + k \<notin> fst ` set (dr_open ?d)"
    using assms(4) by auto
  moreover have "connections (dr_servers d) ?d = connections (dr_servers d) d + k"
    by (simp add: connections_def comp_def)
  ultimately have "accepts (n + k) ?d"
    using Suc.prems admitted_iff(1)[OF _ assms(2), of ?d True] by (simp add: accepts_def del: of_int_of_nat_eq of_int_add)
  then show ?case
    using Suc.IH Suc.prems by simp
qed simp

lemma quiet_recovers:
  assumes "quiet env ports (Paused k) d" and "getBackpressureHealthyChecks env = IntN (k + int j + 1)"
    and "calm env percentile ([], r)"
  shows "\<exists>st. fold (door_step env percentile) (replicate (Suc j) (Monitor (Check r))) d =
           d\<lparr>dr_service := st, dr_servers := dr_servers d + 1\<rparr> \<and>
           quiet env ports Accepting (d\<lparr>dr_service := st, dr_servers := dr_servers d + 1\<rparr>)"
  using assms(1,2)
proof (induction j arbitrary: k d)
  case 0
  then have "gate_check env (getEventLoopP95Ms percentile []) (rss_mb r) (Paused k) = Accepting"
    using assms(3) by (simp add: gate_check_def calm_def)
  then show ?case
    using quiet_check[OF 0(1), of percentile r "dr_servers d + 1"] by auto
next
  case (Suc j)
  have "gate_check env (getEventLoopP95Ms percentile []) (rss_mb r) (Paused k) = Paused (k + 1)"
    using assms(3) Suc.prems(2) by (simp add: gate_check_def calm_def del: of_int_add)
  then obtain st where st: "door_step env percentile (Monitor (Check r)) d = d\<lparr>dr_service := st\<rparr>"
    "quiet env ports (Paused (k + 1)) (d\<lparr>dr_service := st\<rparr>)"
    using quiet_check[OF Suc.prems(1), of percentile r "dr_servers d"] by auto
  have "getBackpressureHealthyChecks env = IntN (k + 1 + int j + 1)"
    using Suc.prems(2) by (simp add: algebra_simps)
  from Suc.IH[OF st(2) this] show ?case
    using st(1) by (auto simp del: door_step.simps)
qed

text \<open>A full house, an overloaded check, and as many calm checks as are asked for.\<close>

definition full_house :: "nat \<Rightarrow> nat \<Rightarrow> door_event list" where
  "full_house M k = map Connect [k * M..<k * M + M]"

definition breather :: "nat \<Rightarrow> jsnum \<Rightarrow> jsnum \<Rightarrow> door_event list" where
  "breather m high low = Monitor (Check high) # replicate m (Monitor (Check low))"

definition crowd :: "nat \<Rightarrow> nat \<Rightarrow> jsnum \<Rightarrow> jsnum \<Rightarrow> nat \<Rightarrow> door_event list" where
  "crowd M m high low k = concat (map (\<lambda>i. full_house M i @ breather m high low) [0..<k]) @ full_house M k"

text \<open>After \<open>k\<close> such rounds the next server has no connection yet and the others are full.\<close>

definition crowded :: "config \<Rightarrow> jsnum list \<Rightarrow> nat \<Rightarrow> nat \<Rightarrow> door \<Rightarrow> bool" where
  "crowded env ports M k d \<longleftrightarrow>
     quiet env ports Accepting d \<and> dr_servers d = Suc k \<and> length (dr_open d) = k * M \<and>
     (\<forall>c \<in> set (dr_open d). fst c < k * M \<and> snd c \<le> k)"

lemma crowded_fills:
  assumes "crowded env ports M k d" and "getMaxConnectionsPerListener env = IntN (int M)"
  shows "fold (door_step env percentile) (full_house M k) d =
           d\<lparr>dr_open := dr_open d @ map (\<lambda>i. (i, Suc k)) [k * M..<k * M + M]\<rparr>"
proof -
  have "filter (\<lambda>(i, h). h = Suc k) (dr_open d) = []"
    using assms(1) by (fastforce simp: crowded_def filter_empty_conv)
  then have "connections (dr_servers d) d = 0"
    using assms(1) by (simp add: connections_def crowded_def)
  then show ?thesis
    using quiet_connect[OF _ assms(2), of ports d M "k * M"] assms(1) by (simp add: full_house_def crowded_def)
qed

lemma crowded_round:
  assumes "crowded env ports M k d" and "getMaxConnectionsPerListener env = IntN (int M)"
    and "getBackpressureHealthyChecks env = IntN (int m)" and "0 < m"
    and "is_overloaded env (getEventLoopP95Ms percentile []) (rss_mb high)" and "calm env percentile ([], low)"
  shows "crowded env ports M (Suc k) (fold (door_step env percentile) (full_house M k @ breather m high low) d)"
proof -
  let ?d = "d\<lparr>dr_open := dr_open d @ map (\<lambda>i. (i, Suc k)) [k * M..<k * M + M]\<rparr>"
  have q: "quiet env ports Accepting ?d"
    using assms(1) by (simp add: crowded_def quiet_def)
  have "gate_check env (getEventLoopP95Ms percentile []) (rss_mb high) Accepting = Paused 0"
    using assms(5) by (simp add: gate_check_def)
  then obtain st where st: "door_step env percentile (Monitor (Check high)) ?d = ?d\<lparr>dr_service := st\<rparr>"
    "quiet env ports (Paused 0) (?d\<lparr>dr_service := st\<rparr>)"
    using quiet_check[OF q, of percentile high "dr_servers d"] by auto
  obtain j where j: "m = Suc j"
    using assms(4) by (cases m) auto
  have "getBackpressureHealthyChecks env = IntN (0 + int j + 1)"
    using assms(3) by (simp add: j algebra_simps)
  from quiet_recovers[OF st(2) this assms(6)]
  obtain st' where "fold (door_step env percentile) (replicate m (Monitor (Check low))) (?d\<lparr>dr_service := st\<rparr>) =
      ?d\<lparr>dr_service := st', dr_servers := Suc (dr_servers d)\<rparr>"
    "quiet env ports Accepting (?d\<lparr>dr_service := st', dr_servers := Suc (dr_servers d)\<rparr>)"
    by (auto simp: j)
  then show ?thesis
    using assms(1) st(1)
    by (auto simp: crowded_fills[OF assms(1,2)] breather_def crowded_def simp del: door_step.simps) (use less_trans in fastforce)?
qed

lemma crowd_comes:
  assumes "env ''MASTER'' \<noteq> Some ''true''" and "\<not> is_backpressure_disabled env"
    and "getMaxConnectionsPerListener env = IntN (int M)" and "getBackpressureHealthyChecks env = IntN (int m)" and "0 < m"
    and "is_overloaded env (getEventLoopP95Ms percentile []) (rss_mb high)" and "calm env percentile ([], low)"
  shows "crowded env [getStratumPort env] M k (fold (door_step env percentile)
           (concat (map (\<lambda>i. full_house M i @ breather m high low) [0..<k])) (opened_door env percentile now cl))"
proof (induction k)
  case 0
  show ?case
    using started_service_ok[OF assms(1,2), of percentile now cl] by (simp add: crowded_def quiet_def opened_door_def)
next
  case (Suc k)
  then show ?case
    using crowded_round[OF _ assms(3-7)] by simp
qed

text \<open>
  C35. The process has no limit on connections: a pause that is followed by a recovery starts the count again, so
  a worker that is overloaded because of its connections, and sheds none, takes the full number again as soon as
  it feels better. After \<open>k\<close> pauses it has \<open>k + 1\<close> times the configured limit, and its gate stands open.
\<close>

theorem pause_resets_limit:
  assumes "env ''MASTER'' \<noteq> Some ''true''" and "\<not> is_backpressure_disabled env"
    and "getMaxConnectionsPerListener env = IntN (int M)" and "getBackpressureHealthyChecks env = IntN (int m)"
    and "is_overloaded env (getEventLoopP95Ms percentile []) (rss_mb high)" and "calm env percentile ([], low)"
  shows "let d = fold (door_step env percentile) (crowd M m high low k) (opened_door env percentile now cl)
         in length (dr_open d) = (k + 1) * M \<and> gate_of (dr_service d) = Accepting"
proof -
  let ?d = "fold (door_step env percentile) (concat (map (\<lambda>i. full_house M i @ breather m high low) [0..<k]))
              (opened_door env percentile now cl)"
  have "positive_integer (getBackpressureHealthyChecks env)"
    by (simp add: getBackpressureHealthyChecks_def getPositiveIntegerEnv_def positive_setting_positive)
  then have "0 < m"
    using assms(4) by (simp add: positive_integer_def)
  then have c: "crowded env [getStratumPort env] M k ?d"
    by (rule crowd_comes[OF assms(1-4) _ assms(5,6)])
  then show ?thesis
    using crowded_fills[OF c assms(3), of percentile] by (simp add: crowd_def crowded_def quiet_def gate_view_def)
qed

theorem connections_bounded_witness:
  "let d = fold (door_step (\<lambda>k. None) no_delay) [Connect 1, Connect 2, Close 1] (opened_door (\<lambda>k. None) no_delay 0 new_client_service)
   in int (connections 1 d) \<le> 10000 \<and> int (length (dr_open d)) \<le> int (dr_servers d) * 10000 \<and>
      admission_of True d \<noteq> HandedOn"
  by (rule connections_bounded)
     (simp add: getMaxConnectionsPerListener_def getPositiveIntegerEnv_def positive_setting_def parse_int_opt_def)

theorem pause_resets_limit_witness:
  "let d = fold (door_step (\<lambda>k. None) no_delay) (crowd 10000 3 (Num 3000000000) (Num 0) 2)
             (opened_door (\<lambda>k. None) no_delay 0 new_client_service)
   in length (dr_open d) = 30000 \<and> gate_of (dr_service d) = Accepting"
proof -
  have "is_overloaded (\<lambda>k. None) (getEventLoopP95Ms no_delay []) (rss_mb (Num 3000000000))"
    by code_simp
  from pause_resets_limit[OF default_settings(1,2) _ _ this default_calm, of 10000 3 2 0 new_client_service]
  show ?thesis
    using default_settings(3)
    by (simp add: getMaxConnectionsPerListener_def getPositiveIntegerEnv_def positive_setting_def parse_int_opt_def)
qed

section \<open>The connections behind the door\<close>

text \<open>
  What the server does for a connection: an idle limit of five minutes and a client object; when the socket closes,
  the client, which listens itself, is told to clean up once more.
\<close>

definition on_connection :: "write_outcome list \<Rightarrow> session \<times> jsnum" where
  "on_connection outcomes = (new_session outcomes, js_mul (js_mul (Num 1000) (Num 60)) (Num 5))"

text \<open>The session id: four random bytes as hexadecimal digits, never empty.\<close>

definition getRandomHexString :: "(nat \<Rightarrow> bytes) \<Rightarrow> string" where
  "getRandomHexString randomBytes = to_hex (randomBytes 4)"

lemma length_to_hex: "length (to_hex bs) = 2 * length bs"
  by (induction bs) (simp_all add: to_hex_Cons)

lemma session_id_length: "length (randomBytes 4) = 4 \<Longrightarrow> length (getRandomHexString randomBytes) = 8"
  by (simp add: getRandomHexString_def length_to_hex)

definition on_socket_close :: "env \<Rightarrow> state \<Rightarrow> state" where
  "on_socket_close e s = (if c_sessionId (fst s) = None then s else fst (destroy e s))"

definition on_socket_timeout :: "state \<Rightarrow> state" where
  "on_socket_timeout s = apfst (\<lambda>c. socket_destroy (socket_end c)) s"

text \<open>The second clean-up finds nothing to do, whoever comes first.\<close>

lemma destroy_started: "c_destroyStarted (fst (fst (destroy e s)))"
  by (auto simp: destroy_def step_simps seq_def after_destroy_def split: option.split)

lemma destroy_twice: "fst (destroy e' (fst (destroy e s))) = fst (destroy e s)"
  using destroy_started[of e s] by (simp add: destroy_def[of e' "fst (destroy e s)"] step_simps)

lemma close_handlers_agree:
  "on_socket_close e' (event_step errors e PeerClose s) = event_step errors e PeerClose s"
  "event_step errors e SocketTimeout s = on_socket_timeout s"
  by (simp_all add: on_socket_close_def destroy_twice on_socket_timeout_def)

text \<open>
  The door and the pool it leads to: an accepted connection is a new session, its events reach the pool while it
  is open, and when its socket closes the session hears it and the server counts it off. The sweep and the payouts
  go on beside.
\<close>

inductive pool_behind_door ::
  "'w node \<Rightarrow> (jsval \<Rightarrow> validation_error list) \<Rightarrow> config \<Rightarrow> (string \<Rightarrow> network \<Rightarrow> bool) \<Rightarrow> config \<Rightarrow> (jsnum list \<Rightarrow> jsnum) \<Rightarrow>
     door \<Rightarrow> (nat \<Rightarrow> session option) \<Rightarrow> world \<Rightarrow> bool"
  for post errors cfg decodes env percentile where
  opened: "pool_addresses (w_pool w) = {} \<Longrightarrow>
    pool_behind_door post errors cfg decodes env percentile (opened_door env percentile now (w_clients w)) Map.empty w"
| monitored: "pool_behind_door post errors cfg decodes env percentile d cs w \<Longrightarrow>
    pool_behind_door post errors cfg decodes env percentile (door_step env percentile (Monitor e) d) cs w"
| connected: "pool_behind_door post errors cfg decodes env percentile d cs w \<Longrightarrow> accepts i d \<Longrightarrow> cs i = None \<Longrightarrow>
    pool_behind_door post errors cfg decodes env percentile (door_step env percentile (Connect i) d)
      (cs(i \<mapsto> new_session outcomes)) w"
| served: "pool_behind_door post errors cfg decodes env percentile d cs w \<Longrightarrow> i \<in> fst ` set (dr_open d) \<Longrightarrow>
    cs i = Some c \<Longrightarrow> e_cfg e = cfg \<Longrightarrow> e_decodes e = decodes \<Longrightarrow> event_step errors e ev (c, w) = (c', w') \<Longrightarrow>
    pool_behind_door post errors cfg decodes env percentile d (cs(i \<mapsto> c')) w'"
| closed: "pool_behind_door post errors cfg decodes env percentile d cs w \<Longrightarrow> i \<in> fst ` set (dr_open d) \<Longrightarrow>
    cs i = Some c \<Longrightarrow> e_cfg e = cfg \<Longrightarrow> e_decodes e = decodes \<Longrightarrow> event_step errors e PeerClose (c, w) = (c', w') \<Longrightarrow>
    pool_behind_door post errors cfg decodes env percentile (door_step env percentile (Close i) d) (cs(i \<mapsto> c')) w'"
| swept: "pool_behind_door post errors cfg decodes env percentile d cs w \<Longrightarrow>
    pool_behind_door post errors cfg decodes env percentile d cs
      (w\<lparr>w_pool := (w_pool w)\<lparr>p_shares := prune_sweep cfg now (p_shares (w_pool w))\<rparr>\<rparr>)"
| paid_out: "pool_behind_door post errors cfg decodes env percentile d cs w \<Longrightarrow>
    runPayoutCycle post big cfg settings mi (\<lambda>_. p_ledger (w_pool w)) now l0 s = ((l, s'), BatchSent tx batch sent_notes) \<Longrightarrow>
    pool_behind_door post errors cfg decodes env percentile d cs (w\<lparr>w_pool := (w_pool w)\<lparr>p_ledger := l\<rparr>\<rparr>)"
| reconciled: "pool_behind_door post errors cfg decodes env percentile d cs w \<Longrightarrow>
    reconcileSentPayouts post cfg now (p_ledger (w_pool w)) s = (l, s') \<Longrightarrow>
    pool_behind_door post errors cfg decodes env percentile d cs (w\<lparr>w_pool := (w_pool w)\<lparr>p_ledger := l\<rparr>\<rparr>)"

lemma pool_behind_door_serves:
  "pool_behind_door post errors cfg decodes env percentile d cs w \<Longrightarrow> serves post errors cfg decodes cs w"
  by (induction rule: pool_behind_door.induct) (assumption | erule serves.intros | (erule (1) serves.event; assumption))+

text \<open>Every open connection has its session, and every session kept the invariant of one.\<close>

lemma pool_behind_door_sessions:
  "pool_behind_door post errors cfg decodes env percentile d cs w \<Longrightarrow>
     (\<forall>i \<in> fst ` set (dr_open d). \<exists>c. cs i = Some c \<and> session_ok cfg decodes c)"
proof -
  assume p: "pool_behind_door post errors cfg decodes env percentile d cs w"
  have "\<forall>i \<in> fst ` set (dr_open d). cs i \<noteq> None"
    using p by (induction rule: pool_behind_door.induct) (auto simp: opened_door_def Let_def)
  moreover have "all_guarded cfg decodes cs w"
    by (rule serves_guarded[OF pool_behind_door_serves[OF p]])
  ultimately show ?thesis
    by (fastforce simp: all_guarded_def ran_def)
qed

lemma pool_behind_door_limit:
  assumes "pool_behind_door post errors cfg decodes env percentile d cs w" and "getMaxConnectionsPerListener env = IntN M"
  shows "within_limit env M d"
  using assms(1)
proof (induction rule: pool_behind_door.induct)
  case (opened w now)
  show ?case
    using door_limit[OF assms(2), of percentile "[]" now "w_clients w"] by simp
qed (auto intro: door_step_limit[OF assms(2)] simp del: door_step.simps)

end
