(* ===== verification/AccountQueues.thy ===== *)
theory AccountQueues
  imports Simulation PayoutLedger
begin

text \<open>
  What the table of \<open>PayoutLedgerService\<close> is for: every miner has a queue of credits. A credit enters at the end,
  a payout takes from the front, and what it took stays settled in the same order. The rows of all miners
  lie mixed in one table and a payout is an \<open>UPDATE\<close> by address, highest id and status; this theory shows
  that the table implements the queues.
\<close>

section \<open>The queues\<close>

record queues =
  q_next :: int
  q_open :: "string \<Rightarrow> (int \<times> int) list"
  q_settled :: "string \<Rightarrow> (int \<times> int) list"

datatype ledger_event =
    Credited int string jsnum int
  | MarkedSent int string int "string option"
  | MarkedConfirmed int string

text \<open>The amounts that make a row: the positive whole numbers.\<close>

definition credit_amount :: "jsnum \<Rightarrow> int option" where
  "credit_amount v = (case v of Num a \<Rightarrow> if 0 < a \<and> a = of_int \<lfloor>a\<rfloor> then Some \<lfloor>a\<rfloor> else None | _ \<Rightarrow> None)"

definition enqueue :: "string \<Rightarrow> int \<Rightarrow> queues \<Rightarrow> queues" where
  "enqueue a n q = q\<lparr>q_open := (q_open q)(a := q_open q a @ [(q_next q, n)]), q_next := q_next q + 1\<rparr>"

definition settle :: "string \<Rightarrow> int \<Rightarrow> queues \<Rightarrow> queues" where
  "settle a m q =
     q\<lparr>q_open := (q_open q)(a := dropWhile (\<lambda>(i, n). i \<le> m) (q_open q a)),
       q_settled := (q_settled q)(a := q_settled q a @ takeWhile (\<lambda>(i, n). i \<le> m) (q_open q a))\<rparr>"

fun queue_step :: "ledger_event \<Rightarrow> queues \<Rightarrow> queues" where
  "queue_step (Credited now a v h) q = (case credit_amount v of None \<Rightarrow> q | Some n \<Rightarrow> enqueue a n q)"
| "queue_step (MarkedSent now a m tx) q = settle a m q"
| "queue_step (MarkedConfirmed now tx) q = q"

section \<open>The table\<close>

text \<open>A credit that throws leaves the table as it is.\<close>

fun ledger_event_step :: "ledger_event \<Rightarrow> ledger \<Rightarrow> ledger" where
  "ledger_event_step (Credited now a v h) l = (case credit now a v h l of Inl e \<Rightarrow> l | Inr l' \<Rightarrow> l')"
| "ledger_event_step (MarkedSent now a m tx) l = markSentUpTo now a m tx l"
| "ledger_event_step (MarkedConfirmed now tx) l = markConfirmed now tx l"

abbreviation row_credit :: "ledger_row \<Rightarrow> int \<times> int" where
  "row_credit r \<equiv> (l_id r, l_amountSats r)"

definition queues_of :: "ledger \<Rightarrow> queues" where
  "queues_of l =
     \<lparr>q_next = l_next_id l,
      q_open = (\<lambda>a. map row_credit (filter (\<lambda>r. l_minerAddress r = a \<and> is_pending r) (l_rows l))),
      q_settled = (\<lambda>a. map row_credit (filter (\<lambda>r. l_minerAddress r = a \<and> \<not> is_pending r) (l_rows l)))\<rparr>"

text \<open>The ids grow, and an address's settled rows come before its open ones.\<close>

definition in_order :: "ledger \<Rightarrow> bool" where
  "in_order l \<longleftrightarrow>
     sorted_wrt (\<lambda>r s. l_id r < l_id s) (l_rows l) \<and> (\<forall>r \<in> set (l_rows l). l_id r < l_next_id l) \<and>
     (\<forall>r \<in> set (l_rows l). \<forall>s \<in> set (l_rows l).
        l_minerAddress r = l_minerAddress s \<longrightarrow> l_id r < l_id s \<longrightarrow> is_pending r \<longrightarrow> is_pending s)"

section \<open>Lemmas on ordered lists\<close>

lemma filter_disj_append:
  assumes "sorted_wrt R xs" and "\<And>x y. x \<in> set xs \<Longrightarrow> y \<in> set xs \<Longrightarrow> R x y \<Longrightarrow> Q x \<Longrightarrow> \<not> P y"
    and "\<And>x. x \<in> set xs \<Longrightarrow> Q x \<Longrightarrow> \<not> P x"
  shows "filter (\<lambda>x. P x \<or> Q x) xs = filter P xs @ filter Q xs"
  using assms
proof (induction xs)
  case (Cons x xs)
  have IH: "filter (\<lambda>x. P x \<or> Q x) xs = filter P xs @ filter Q xs"
    using Cons.prems by (intro Cons.IH) auto
  show ?case
  proof (cases "Q x")
    case True
    then have "filter P xs = []" and "\<not> P x"
      using Cons.prems by (auto simp: filter_empty_conv)
    then show ?thesis
      using IH True by simp
  qed (use IH in simp)
qed simp

lemma while_is_filter:
  fixes f :: "'a \<Rightarrow> int"
  assumes "sorted_wrt (\<lambda>x y. f x < f y) xs"
  shows "takeWhile (\<lambda>x. f x \<le> m) xs = filter (\<lambda>x. f x \<le> m) xs"
    and "dropWhile (\<lambda>x. f x \<le> m) xs = filter (\<lambda>x. \<not> f x \<le> m) xs"
proof -
  have "filter (\<lambda>y. f y \<le> m) ys = []" "filter (\<lambda>y. \<not> f y \<le> m) ys = ys" if "\<not> f x \<le> m" "\<forall>y \<in> set ys. f x < f y" for x ys
    using that by (auto simp: filter_empty_conv filter_id_conv)
  with assms show "takeWhile (\<lambda>x. f x \<le> m) xs = filter (\<lambda>x. f x \<le> m) xs"
    and "dropWhile (\<lambda>x. f x \<le> m) xs = filter (\<lambda>x. \<not> f x \<le> m) xs"
    by (induction xs) simp_all
qed

section \<open>The table implements the queues\<close>

lemma in_order_insert: "in_order l \<Longrightarrow> in_order (insert_credit now a n h l)"
  by (fastforce simp: in_order_def insert_credit_def sorted_wrt_append is_pending_def)

lemma queues_insert: "queues_of (insert_credit now a n h l) = enqueue a n (queues_of l)"
  by (auto simp: queues_of_def insert_credit_def enqueue_def is_pending_def fun_eq_iff)

lemma credit_as_queue:
  "credit_amount v = None \<Longrightarrow> ledger_event_step (Credited now a v h) l = l"
  "credit_amount v = Some n \<Longrightarrow> ledger_event_step (Credited now a v h) l = insert_credit now a n h l"
  by (cases v; auto simp: credit_amount_def credit_def split: if_splits)+

text \<open>An update of statuses keeps the order when no row becomes open and none is overtaken.\<close>

lemma in_order_update:
  assumes "in_order l" and "\<And>r. row_credit (f r) = row_credit r \<and> l_minerAddress (f r) = l_minerAddress r"
    and "\<And>r. u r \<Longrightarrow> \<not> is_pending (f r)"
    and "\<And>r s. l_minerAddress r = l_minerAddress s \<Longrightarrow> l_id r < l_id s \<Longrightarrow> is_pending r \<Longrightarrow> is_pending s \<Longrightarrow> u s \<Longrightarrow> u r"
  shows "in_order (l\<lparr>l_rows := update_where u f (l_rows l)\<rparr>)"
proof -
  define g where "g r = (if u r then f r else r)" for r
  have g: "l_id (g r) = l_id r" "l_minerAddress (g r) = l_minerAddress r" "is_pending (g r) \<longleftrightarrow> is_pending r \<and> \<not> u r"
    for r
    using assms(2,3)[of r] by (auto simp: g_def)
  have "update_where u f (l_rows l) = map g (l_rows l)"
    by (simp add: update_where_def g_def)
  then show ?thesis
    using assms(1) assms(4) unfolding in_order_def by (simp add: sorted_wrt_map g) blast
qed

lemma in_order_markSent: "in_order l \<Longrightarrow> in_order (markSentUpTo now a m tx l)"
  unfolding markSentUpTo_def by (rule in_order_update) (auto simp: claimed_by_def is_pending_def)

lemma in_order_markConfirmed: "in_order l \<Longrightarrow> in_order (markConfirmed now tx l)"
  unfolding markConfirmed_def
  by (rule in_order_update) (auto simp: is_pending_def)

lemma credits_update:
  assumes "\<And>r. row_credit (f r) = row_credit r"
  shows "map row_credit (filter p (update_where u f rs)) = map row_credit (filter (\<lambda>r. p (if u r then f r else r)) rs)"
  using assms by (induction rs) simp_all

lemma claimed_split:
  assumes "in_order l"
  shows "map row_credit (filter (\<lambda>r. l_minerAddress r = a \<and> is_pending r \<and> \<not> l_id r \<le> m) (l_rows l)) =
           dropWhile (\<lambda>(i, n). i \<le> m) (q_open (queues_of l) a)"
    and "map row_credit (filter (\<lambda>r. l_minerAddress r = a \<and> \<not> is_pending r \<or> claimed_by a m r) (l_rows l)) =
           q_settled (queues_of l) a @ takeWhile (\<lambda>(i, n). i \<le> m) (q_open (queues_of l) a)"
proof -
  let ?open = "filter (\<lambda>r. l_minerAddress r = a \<and> is_pending r) (l_rows l)"
  have rows: "sorted_wrt (\<lambda>r s. l_id r < l_id s) (l_rows l)"
    using assms by (simp add: in_order_def)
  then have o: "sorted_wrt (\<lambda>r s. l_id r < l_id s) ?open"
    by (rule sorted_wrt_filter)
  have split: "(\<lambda>(i, n). i \<le> m) \<circ> row_credit = (\<lambda>r. l_id r \<le> m)"
    by (simp add: fun_eq_iff)
  show "map row_credit (filter (\<lambda>r. l_minerAddress r = a \<and> is_pending r \<and> \<not> l_id r \<le> m) (l_rows l)) =
      dropWhile (\<lambda>(i, n). i \<le> m) (q_open (queues_of l) a)"
    by (simp add: queues_of_def dropWhile_map split while_is_filter[OF o] conj_assoc)
  have "filter (\<lambda>r. l_minerAddress r = a \<and> \<not> is_pending r \<or> claimed_by a m r) (l_rows l) =
      filter (\<lambda>r. l_minerAddress r = a \<and> \<not> is_pending r) (l_rows l) @ filter (claimed_by a m) (l_rows l)"
    using assms by (intro filter_disj_append[OF rows]) (auto simp: claimed_by_def in_order_def)
  also have "filter (claimed_by a m) (l_rows l) = filter (\<lambda>r. l_id r \<le> m) ?open"
    by (auto simp: claimed_by_def intro: filter_cong)
  finally show "map row_credit (filter (\<lambda>r. l_minerAddress r = a \<and> \<not> is_pending r \<or> claimed_by a m r) (l_rows l)) =
      q_settled (queues_of l) a @ takeWhile (\<lambda>(i, n). i \<le> m) (q_open (queues_of l) a)"
    by (simp add: queues_of_def takeWhile_map split while_is_filter[OF o])
qed

lemma queues_markSent:
  assumes "in_order l"
  shows "queues_of (markSentUpTo now a m tx l) = settle a m (queues_of l)"
proof -
  let ?f = "\<lambda>r. r\<lparr>l_status := SENT, l_txid := (case tx of None \<Rightarrow> l_txid r | Some t \<Rightarrow> Some t), l_updatedAt := now\<rparr>"
  have "l_minerAddress (if claimed_by a m r then ?f r else r) = b \<and> is_pending (if claimed_by a m r then ?f r else r) \<longleftrightarrow>
      (if b = a then l_minerAddress r = a \<and> is_pending r \<and> \<not> l_id r \<le> m else l_minerAddress r = b \<and> is_pending r)" for b r
    by (auto simp: claimed_by_def is_pending_def)
  moreover have "l_minerAddress (if claimed_by a m r then ?f r else r) = b \<and> \<not> is_pending (if claimed_by a m r then ?f r else r) \<longleftrightarrow>
      (if b = a then l_minerAddress r = a \<and> \<not> is_pending r \<or> claimed_by a m r else l_minerAddress r = b \<and> \<not> is_pending r)" for b r
    by (auto simp: claimed_by_def is_pending_def)
  ultimately have
    "q_open (queues_of (markSentUpTo now a m tx l)) b = q_open (settle a m (queues_of l)) b"
    "q_settled (queues_of (markSentUpTo now a m tx l)) b = q_settled (settle a m (queues_of l)) b" for b
    using claimed_split[OF assms, of a m]
    by (cases "b = a"; simp add: queues_of_def markSentUpTo_def settle_def credits_update)+
  then show ?thesis
    by (intro queues.equality ext) (simp_all add: queues_of_def settle_def markSentUpTo_def)
qed

lemma queues_markConfirmed: "queues_of (markConfirmed now tx l) = queues_of l"
proof -
  let ?u = "\<lambda>r. l_txid r = Some tx \<and> l_status r = SENT" and ?f = "\<lambda>r. r\<lparr>l_status := CONFIRMED, l_updatedAt := now\<rparr>"
  have "l_minerAddress (if ?u r then ?f r else r) = l_minerAddress r" "is_pending (if ?u r then ?f r else r) \<longleftrightarrow> is_pending r" for r
    by (auto simp: is_pending_def)
  then show ?thesis
    unfolding queues_of_def markConfirmed_def by (simp add: credits_update)
qed

lemma ledger_event_queues:
  assumes "in_order l"
  shows "in_order (ledger_event_step e l) \<and> queues_of (ledger_event_step e l) = queue_step e (queues_of l)"
proof (cases e)
  case (Credited now a v h)
  then show ?thesis
    using assms in_order_insert queues_insert credit_as_queue
    by (cases "credit_amount v") (simp_all del: ledger_event_step.simps)
qed (simp_all add: assms in_order_markSent in_order_markConfirmed queues_markSent queues_markConfirmed)

interpretation account_queues: simulation in_order queues_of ledger_event_step queue_step
  by unfold_locales (simp_all add: ledger_event_queues)

definition no_queues :: queues where
  "no_queues = \<lparr>q_next = 1, q_open = (\<lambda>a. []), q_settled = (\<lambda>a. [])\<rparr>"

lemma empty_ledger_queues: "in_order empty_ledger" "queues_of empty_ledger = no_queues"
  by (simp_all add: in_order_def queues_of_def no_queues_def empty_ledger_def)

text \<open>
  C4. The payout ledger is a set of queues, one per miner: after any credits, payouts and confirmations, in any order and
  for any addresses, the open rows of every miner are its queue of unpaid credits and the others are what was taken from
  the front of it, oldest first; no payout touches another miner's queue or reaches past the row it names.
\<close>

theorem ledger_refines_queues:
  "queues_of (fold ledger_event_step es empty_ledger) = fold queue_step es no_queues"
  using account_queues.run_commutes[OF empty_ledger_queues(1), of es] by (simp add: empty_ledger_queues(2))

end
