(* ===== verification/PayoutRetry.thy ===== *)
theory PayoutRetry
  imports PayoutScheduler
begin

text \<open>
  A batch whose answer is lost. \<open>runPayoutCycle\<close> cannot tell a wallet that did nothing from one that paid and did not
  answer in time: in both cases the rows stay \<open>PENDING\<close>, and the next cycle finds them again.
\<close>

section \<open>A wallet whose first answer is lost\<close>

text \<open>It carries out every \<open>sendmany\<close>, which it keeps, but the answer to the first does not arrive.\<close>

definition timed_out :: js_error where
  "timed_out = mk_error ''timeout of 30000ms exceeded''"

definition lossy_wallet :: "jsnum \<Rightarrow> (bool \<times> jsval list) node" where
  "lossy_wallet coins r w =
     (if request_method r = ''sendmany''
      then ((False, snd w @ [jprop ''params'' r]),
            if fst w then Inl timed_out else Inr (Obj [(''result'', String ''txid''), (''error'', Null)]))
      else (w, Inr (Obj [(''result'', if request_method r = ''getbalance'' then Number coins else Null), (''error'', Null)])))"

lemma rpc_result: "rpc_outcome (Obj [(''result'', v), (''error'', Null)]) = Inr v"
  by (simp add: rpc_outcome_def get_jprop_def)

lemma request_params: "jprop ''params'' (rpc_request i m ps) = Arr ps"
  by (simp add: rpc_request_def)

lemma lossy_calls:
  "m \<noteq> ''sendmany'' \<Longrightarrow> callRpc (lossy_wallet coins) m ps (wc, w) =
     ((wc\<lparr>wc_rpcRequestId := wc_rpcRequestId wc + 1\<rparr>, w), Inr (if m = ''getbalance'' then Number coins else Null))"
  "callRpc (lossy_wallet coins) ''sendmany'' ps (wc, (b, reqs)) =
     ((wc\<lparr>wc_rpcRequestId := wc_rpcRequestId wc + 1\<rparr>, (False, reqs @ [Arr ps])),
      if b then Inl timed_out else Inr (String ''txid''))"
  by (simp_all add: callRpc_def lossy_wallet_def Let_def rpc_result request_params)

lemma timeout_no_fee_failure: "\<not> isFeeEstimationFailure timed_out"
  by code_simp

lemma lossy_send:
  "\<exists>wc'. sendManySats (lossy_wallet coins) big cfg batch (wc, (b, reqs)) =
     ((wc', (False, reqs @ [Arr (sendmany_params (amounts_of big batch))])), if b then Inl timed_out else Inr (String ''txid''))"
  using timeout_no_fee_failure
  by (cases "wc_walletPassphrase wc"; cases b) (simp_all add: sendManySats_def sendManyWithFeeFallback_def lossy_calls Let_def)

lemma lossy_balance:
  "\<exists>wc'. getWalletBalanceSats (lossy_wallet coins) (wc, w) = ((wc', w), Inr (sats_of_coins coins))"
  by (simp add: getWalletBalanceSats_def lossy_calls)

section \<open>Two cycles\<close>

text \<open>One cycle with enough coins asks the wallet for exactly its batch, whether the answer comes or not.\<close>

lemma lossy_cycle:
  assumes "jprop ''blocks'' mi = Number h" and "js_is_finite h" and "\<not> isDryRun cfg"
    and "payout_candidates cfg settings h l \<noteq> []"
    and "\<not> js_lt (sats_of_coins coins) (total_requested (payout_candidates cfg settings h l))"
  defines "cs \<equiv> payout_candidates cfg settings h l"
  shows "\<exists>wc' sent_notes. runPayoutCycle (lossy_wallet coins) big cfg settings mi meanwhile now l (wc, (b, reqs)) =
     (((if b then meanwhile l else mark_batch now (Some ''txid'') cs (meanwhile l)),
       (wc', (False, reqs @ [Arr (sendmany_params (amounts_of big (payout_batch cs)))]))),
      if b then BatchFailed timed_out else BatchSent (Some ''txid'') (payout_batch cs) sent_notes)"
proof -
  obtain wc1 where bal: "getWalletBalanceSats (lossy_wallet coins) (wc, (b, reqs)) = ((wc1, (b, reqs)), Inr (sats_of_coins coins))"
    using lossy_balance by blast
  obtain wc2 where s: "sendManySats (lossy_wallet coins) big cfg (payout_batch cs) (wc1, (b, reqs)) =
      ((wc2, (False, reqs @ [Arr (sendmany_params (amounts_of big (payout_batch cs)))])),
       if b then Inl timed_out else Inr (String ''txid''))"
    using lossy_send by blast
  show ?thesis
    using assms(1-5) bal s by (cases b) (simp_all add: runPayoutCycle_def Let_def cs_def)
qed

text \<open>
  C8. A lost answer pays a batch twice: when the wallet broadcasts the batch of a cycle but its answer does not arrive in
  time, the ledger stays as it was and the next cycle, at the same height, asks the wallet for the same addresses
  and amounts once more; after that every miner of the batch has received twice what the ledger says he was paid.
\<close>

theorem lost_answer_pays_twice:
  assumes "ledger_ok l" and "heights_ordered l" and "total_owed l \<le> 2 ^ 53"
    and "jprop ''blocks'' mi = Number h" and "js_is_finite h" and "\<not> isDryRun cfg"
    and "payout_candidates cfg settings h l \<noteq> []"
    and "\<not> js_lt (sats_of_coins coins) (total_requested (payout_candidates cfg settings h l))"
  shows "let cycle = runPayoutCycle (lossy_wallet coins) big cfg settings mi id;
             batch = payout_batch (payout_candidates cfg settings h l);
             request = Arr (sendmany_params (amounts_of big batch));
             ((l1, s1), first) = cycle now1 l (wc, (True, []));
             ((l2, s2), second) = cycle now2 l1 s1
         in first = BatchFailed timed_out \<and> l1 = l \<and>
            (\<exists>sent_notes. second = BatchSent (Some ''txid'') batch sent_notes) \<and> snd (snd s2) = [request, request] \<and>
            paid l2 a = paid l a + batch_sats batch a"
proof -
  let ?cs = "payout_candidates cfg settings h l"
  let ?request = "Arr (sendmany_params (amounts_of big (payout_batch ?cs)))"
  obtain wc1 where one: "runPayoutCycle (lossy_wallet coins) big cfg settings mi id now1 l (wc, (True, [])) =
      ((l, (wc1, (False, [?request]))), BatchFailed timed_out)"
    using lossy_cycle[OF assms(4-8), of big id now1 wc True "[]"] by auto
  obtain wc2 sent_notes where two: "runPayoutCycle (lossy_wallet coins) big cfg settings mi id now2 l (wc1, (False, [?request])) =
      ((mark_batch now2 (Some ''txid'') ?cs l, (wc2, (False, [?request, ?request]))),
       BatchSent (Some ''txid'') (payout_batch ?cs) sent_notes)"
    using lossy_cycle[OF assms(4-8), of big id now2 wc1 False "[?request]"] by auto
  have "claims ?cs l a = batch_sats (payout_batch ?cs) a"
    by (rule claims_batch[OF assms(1-3) _ order_refl distinct_payout_candidates]) simp
  then have "paid (mark_batch now2 (Some ''txid'') ?cs l) a = paid l a + batch_sats (payout_batch ?cs) a"
    using mark_batch_effect[OF distinct_payout_candidates] by simp
  then show ?thesis
    by (simp add: one two Let_def)
qed

theorem lost_answer_pays_twice_witness:
  "let cycle = runPayoutCycle (lossy_wallet (Num 10)) (\<lambda>_. []) Map.empty [] (Obj [(''blocks'', Number (Num 200))]) id;
       batch = payout_batch (payout_candidates Map.empty [] (Num 200) example_ledger);
       request = Arr (sendmany_params (amounts_of (\<lambda>_. []) batch));
       ((l1, s1), first) = cycle 5 example_ledger (wallet_client_init Map.empty, (True, []));
       ((l2, s2), second) = cycle 9 l1 s1
   in first = BatchFailed timed_out \<and> l1 = example_ledger \<and>
      (\<exists>sent_notes. second = BatchSent (Some ''txid'') batch sent_notes) \<and> snd (snd s2) = [request, request] \<and>
      paid l2 ''a'' = paid example_ledger ''a'' + batch_sats batch ''a''"
proof (rule lost_answer_pays_twice)
  show "ledger_ok example_ledger" "heights_ordered example_ledger" "total_owed example_ledger \<le> 2 ^ 53"
    unfolding example_ledger_def
    by (intro ledger_ok_insert ledger_ok_empty, simp_all add: step_simps)
       (simp_all add: heights_ordered_def insert_credit_def empty_ledger_def total_owed_def)
  show "js_is_finite (Num 200)" "\<not> isDryRun Map.empty" "payout_candidates Map.empty [] (Num 200) example_ledger \<noteq> []"
    "\<not> js_lt (sats_of_coins (Num 10)) (total_requested (payout_candidates Map.empty [] (Num 200) example_ledger))"
    by code_simp+
qed simp

lemma lost_answer_batch:
  "payout_batch (payout_candidates Map.empty [] (Num 200) example_ledger) = [(''a'', Num 250000)]"
  by code_simp

section \<open>Two cycles at once\<close>

text \<open>
  Nothing keeps the interval from starting a cycle while another one waits for the wallet. Here the second reads the
  ledger before the first has marked its batch: both find the same rows, and both batches are sent.
\<close>

lemma overlapping_cycles_pay_twice:
  assumes "jprop ''blocks'' mi = Number h" and "js_is_finite h" and "\<not> isDryRun cfg"
    and "payout_candidates cfg settings h l \<noteq> []"
    and "\<not> js_lt (sats_of_coins coins) (total_requested (payout_candidates cfg settings h l))"
  shows "let batch = payout_batch (payout_candidates cfg settings h l);
             request = Arr (sendmany_params (amounts_of big batch));
             ((l1, s1), first) = runPayoutCycle (lossy_wallet coins) big cfg settings mi id now1 l (wc, (False, []));
             ((l2, s2), second) = runPayoutCycle (lossy_wallet coins) big cfg settings mi (\<lambda>_. l1) now2 l s1
         in (\<exists>n1 n2. first = BatchSent (Some ''txid'') batch n1 \<and> second = BatchSent (Some ''txid'') batch n2) \<and>
            snd (snd s2) = [request, request]"
proof -
  let ?cs = "payout_candidates cfg settings h l"
  let ?request = "Arr (sendmany_params (amounts_of big (payout_batch ?cs)))"
  let ?l1 = "mark_batch now1 (Some ''txid'') ?cs l"
  obtain wc1 n1 where one: "runPayoutCycle (lossy_wallet coins) big cfg settings mi id now1 l (wc, (False, [])) =
      ((?l1, (wc1, (False, [?request]))), BatchSent (Some ''txid'') (payout_batch ?cs) n1)"
    using lossy_cycle[OF assms, of big id now1 wc False "[]"] by auto
  obtain wc2 n2 where two: "runPayoutCycle (lossy_wallet coins) big cfg settings mi (\<lambda>_. ?l1) now2 l (wc1, (False, [?request])) =
      ((mark_batch now2 (Some ''txid'') ?cs ?l1, (wc2, (False, [?request, ?request]))),
       BatchSent (Some ''txid'') (payout_batch ?cs) n2)"
    using lossy_cycle[OF assms, of big "\<lambda>_. ?l1" now2 wc1 False "[?request]"] by auto
  show ?thesis
    by (simp add: one two Let_def)
qed

end
