(* ===== verification/Startup.thy ===== *)
theory Startup
  imports NodeRpc TelegramBot Login Json
begin

text \<open>
  What the services set up when the server starts: the parameters of the two Elektron networks
  (\<open>src/utils/elektron-network.ts\<close>), the endpoints of the two RPC clients (\<open>buildRpcUrl\<close>), where new blocks are
  learnt from (\<open>onModuleInit\<close> of \<open>src/services/bitcoin-rpc.service.ts\<close>), and the commands of the Discord
  bot. The parser of \<open>URL\<close> and Discord's library are not modelled: an endpoint is what the code hands to them.
\<close>

section \<open>Network parameters\<close>

record network_params =
  np_messagePrefix :: string
  np_bech32 :: string
  np_bip32_public :: int
  np_bip32_private :: int
  np_pubKeyHash :: int
  np_scriptHash :: int
  np_wif :: int

definition elektronMainnet :: network_params where
  "elektronMainnet =
     \<lparr>np_messagePrefix = CHR 0x18 # ''Elektron Signed Message:'' @ [CHR 0x0A], np_bech32 = ''be'',
      np_bip32_public = 0x0488b21e, np_bip32_private = 0x0488ade4,
      np_pubKeyHash = 0, np_scriptHash = 5, np_wif = 0x80\<rparr>"

definition elektronRegtest :: network_params where
  "elektronRegtest =
     \<lparr>np_messagePrefix = CHR 0x18 # ''Elektron Signed Message:'' @ [CHR 0x0A], np_bech32 = ''bcrt'',
      np_bip32_public = 0x043587cf, np_bip32_private = 0x04358394,
      np_pubKeyHash = 0x6f, np_scriptHash = 0xc4, np_wif = 0xef\<rparr>"

text \<open>The parameters of the three Bitcoin networks come with the library.\<close>

definition params_of :: "(network \<Rightarrow> network_params) \<Rightarrow> network \<Rightarrow> network_params" where
  "params_of library n =
     (case n of ElektronMainnet \<Rightarrow> elektronMainnet | ElektronRegtest \<Rightarrow> elektronRegtest | _ \<Rightarrow> library n)"

text \<open>The two networks share no byte that tells one's keys or addresses from the other's.\<close>

lemma networks_differ:
  "np_bech32 elektronMainnet \<noteq> np_bech32 elektronRegtest" "np_pubKeyHash elektronMainnet \<noteq> np_pubKeyHash elektronRegtest"
  "np_scriptHash elektronMainnet \<noteq> np_scriptHash elektronRegtest" "np_wif elektronMainnet \<noteq> np_wif elektronRegtest"
  "np_bip32_public elektronMainnet \<noteq> np_bip32_public elektronRegtest"
  by (simp_all add: elektronMainnet_def elektronRegtest_def)

text \<open>The prefix of a signed message starts with its length. Here it is still that of Bitcoin's text, one less.\<close>

lemma prefix_length_byte:
  "of_char (hd (np_messagePrefix elektronMainnet)) = length (tl (np_messagePrefix elektronMainnet)) - 1"
  by (simp add: elektronMainnet_def)

section \<open>Endpoints\<close>

definition uri_unreserved :: "char \<Rightarrow> bool" where
  "uri_unreserved c \<longleftrightarrow>
     (let n = code_unit c
      in 65 \<le> n \<and> n \<le> 90 \<or> 97 \<le> n \<and> n \<le> 122 \<or> 48 \<le> n \<and> n \<le> 57 \<or> c \<in> set ''-_.!~*()'' \<or> n = 39)"

definition upper_digit :: "int \<Rightarrow> char" where
  "upper_digit d = char_of (if d < 10 then 48 + d else 55 + d)"

definition percent_byte :: "int \<Rightarrow> string" where
  "percent_byte n = [CHR ''%'', upper_digit (n div 16), upper_digit (n mod 16)]"

text \<open>Characters from 128 on are two bytes of UTF-8.\<close>

definition encode_char :: "char \<Rightarrow> string" where
  "encode_char c =
     (let n = code_unit c
      in if uri_unreserved c then [c]
         else if n < 128 then percent_byte n
         else percent_byte (192 + n div 64) @ percent_byte (128 + n mod 64))"

definition encodeURIComponent :: "string \<Rightarrow> string" where
  "encodeURIComponent s = concat (map encode_char s)"

record endpoint =
  ep_url :: string
  ep_port :: "jsnum option"
  ep_pathname :: "string option"

definition normalized_url :: "string option \<Rightarrow> string" where
  "normalized_url url =
     (let u = (case url of None \<Rightarrow> ''undefined'' | Some t \<Rightarrow> t)
      in if starts_with ''http://'' (to_lower u) \<or> starts_with ''https://'' (to_lower u) then u else ''http://'' @ u)"

definition set_port :: "jsnum \<Rightarrow> jsnum option" where
  "set_port port = (if js_is_finite port \<and> js_gt port (Num 0) then Some port else None)"

definition node_buildRpcUrl :: "string option \<Rightarrow> jsnum \<Rightarrow> endpoint" where
  "node_buildRpcUrl url port = \<lparr>ep_url = normalized_url url, ep_port = set_port port, ep_pathname = None\<rparr>"

definition wallet_buildRpcUrl :: "string option \<Rightarrow> jsnum \<Rightarrow> string option \<Rightarrow> endpoint" where
  "wallet_buildRpcUrl url port walletName =
     \<lparr>ep_url = normalized_url url, ep_port = set_port port,
      ep_pathname = (case walletName of
                       None \<Rightarrow> None
                     | Some n \<Rightarrow> if 0 < length n then Some (''/wallet/'' @ encodeURIComponent n) else None)\<rparr>"

definition parse_int_setting :: "string option \<Rightarrow> jsnum" where
  "parse_int_setting v = (case v of None \<Rightarrow> NaN | Some t \<Rightarrow> parse_int_auto t)"

record http_settings =
  hs_endpoint :: endpoint
  hs_timeout :: jsnum
  hs_auth :: "string option \<times> string option"

definition node_http :: "(string \<Rightarrow> string fallible) \<Rightarrow> config \<Rightarrow> http_settings fallible" where
  "node_http readFile cfg =
     fbind (node_credentials readFile cfg) (\<lambda>auth.
       Inr \<lparr>hs_endpoint = node_buildRpcUrl (wallet_cfg cfg ''ELEKTRON_RPC_URL'' ''BITCOIN_RPC_URL'')
                            (parse_int_setting (wallet_cfg cfg ''ELEKTRON_RPC_PORT'' ''BITCOIN_RPC_PORT'')),
            hs_timeout = parse_int_setting (wallet_cfg cfg ''ELEKTRON_RPC_TIMEOUT'' ''BITCOIN_RPC_TIMEOUT''),
            hs_auth = auth\<rparr>)"

definition wallet_http :: "(string \<Rightarrow> string fallible) \<Rightarrow> config \<Rightarrow> http_settings fallible" where
  "wallet_http readFile cfg =
     fbind (wallet_credentials readFile cfg) (\<lambda>auth.
       let timeout = parse_int_setting (cfg ''WALLET_RPC_TIMEOUT'')
       in Inr \<lparr>hs_endpoint = wallet_buildRpcUrl (wallet_cfg cfg ''WALLET_RPC_HOST'' ''ELEKTRON_RPC_URL'')
                               (parse_int_setting (wallet_cfg cfg ''WALLET_RPC_PORT'' ''ELEKTRON_RPC_PORT''))
                               (cfg ''WALLET_RPC_WALLET_NAME''),
               hs_timeout = (if timeout = NaN \<or> timeout = Num 0 then Num 30000 else timeout),
               hs_auth = auth\<rparr>)"

text \<open>A wallet's name stays one segment of the path, whatever characters it has.\<close>

lemma upper_digit_unreserved:
  assumes "0 \<le> d" and "d < 16"
  shows "uri_unreserved (upper_digit d)"
proof -
  have "d \<in> set [0..15]"
    using assms by simp
  moreover have "\<forall>d \<in> set [0..15]. uri_unreserved (upper_digit d)"
    by code_simp
  ultimately show ?thesis by blast
qed

lemma percent_byte_chars: "0 \<le> n \<Longrightarrow> n < 256 \<Longrightarrow> c \<in> set (percent_byte n) \<Longrightarrow> c = CHR ''%'' \<or> uri_unreserved c"
  by (auto simp: percent_byte_def upper_digit_unreserved)

lemma code_unit_range: "0 \<le> code_unit c" "code_unit c < 256"
proof -
  have m: "of_char c mod 256 = (of_char c :: int)"
    by (rule of_char_mod_256)
  show "0 \<le> code_unit c" "code_unit c < 256"
    unfolding code_unit_def using pos_mod_sign[of 256 "of_char c :: int"] pos_mod_bound[of 256 "of_char c :: int"]
    unfolding m by simp_all
qed

lemma encode_char_chars:
  assumes "c \<in> set (encode_char x)"
  shows "c = CHR ''%'' \<or> uri_unreserved c"
proof -
  let ?n = "code_unit x"
  have r: "0 \<le> ?n" "?n < 256" "0 \<le> 192 + ?n div 64" "192 + ?n div 64 < 256" "0 \<le> 128 + ?n mod 64" "128 + ?n mod 64 < 256"
    using code_unit_range[of x] by linarith+
  consider "encode_char x = [x]" "uri_unreserved x" | "encode_char x = percent_byte ?n"
    | "encode_char x = percent_byte (192 + ?n div 64) @ percent_byte (128 + ?n mod 64)"
    unfolding encode_char_def Let_def by (cases "uri_unreserved x"; cases "?n < 128") (simp_all only: if_True if_False simp_thms)
  then show ?thesis
    using assms percent_byte_chars[OF r(1,2)] percent_byte_chars[OF r(3,4)] percent_byte_chars[OF r(5,6)]
    by cases auto
qed

lemma encoded_chars: "c \<in> set (encodeURIComponent s) \<Longrightarrow> c = CHR ''%'' \<or> uri_unreserved c"
  using encode_char_chars by (auto simp: encodeURIComponent_def)

lemma wallet_name_one_segment:
  assumes "ep_pathname (wallet_buildRpcUrl url port walletName) = Some p"
  shows "\<exists>segment. p = ''/wallet/'' @ segment \<and> segment \<noteq> [] \<and> list_all (\<lambda>c. c \<notin> set ''/?#'') segment"
proof -
  obtain n where n: "p = ''/wallet/'' @ encodeURIComponent n" "n \<noteq> []"
    using assms by (auto simp: wallet_buildRpcUrl_def split: option.splits if_splits)
  have "encode_char x \<noteq> []" for x
    by (simp add: encode_char_def percent_byte_def Let_def)
  then have "encodeURIComponent n \<noteq> []"
    using n(2) by (cases n) (simp_all add: encodeURIComponent_def)
  moreover have "\<not> uri_unreserved (CHR ''/'')" "\<not> uri_unreserved (CHR ''?'')" "\<not> uri_unreserved (CHR 0x23)"
    by code_simp+
  ultimately show ?thesis
    using n(1) encoded_chars[of _ n] by (auto simp: list_all_iff)
qed

text \<open>
  The names of the settings from before the renaming reach the client of the pool's node only: the wallet
  client, which falls back to the node's settings, does not know them and is left without a host.
\<close>

lemma legacy_settings_leave_wallet_alone:
  assumes "cfg ''ELEKTRON_RPC_URL'' = None" and "cfg ''WALLET_RPC_HOST'' = None"
    and "wallet_http readFile cfg = Inr w"
  shows "ep_url (hs_endpoint w) = ''http://undefined''"
proof -
  have "normalized_url None = ''http://undefined''"
    by code_simp
  then show ?thesis
    using assms by (auto simp: wallet_http_def fbind_Inr wallet_buildRpcUrl_def wallet_cfg_def Let_def)
qed

lemma legacy_settings_reach_node:
  assumes "cfg ''ELEKTRON_RPC_URL'' = None" and "cfg ''BITCOIN_RPC_URL'' = Some u" and "node_http readFile cfg = Inr n"
  shows "ep_url (hs_endpoint n) = normalized_url (Some u)"
  using assms by (auto simp: node_http_def fbind_Inr node_buildRpcUrl_def wallet_cfg_def)

section \<open>New blocks\<close>

text \<open>
  A node with a ZeroMQ address is asked when a message comes, any other one every 500 ms. The first request,
  \<open>getrpcinfo\<close>, only shows on the console whether the node answers.
\<close>

datatype block_source = ZmqSubscriber string | PollEvery int

definition block_source_of :: "config \<Rightarrow> block_source" where
  "block_source_of cfg =
     (case wallet_cfg cfg ''ELEKTRON_ZMQ_HOST'' ''BITCOIN_ZMQ_HOST'' of
        None \<Rightarrow> PollEvery 500
      | Some zmqHost \<Rightarrow> if zmqHost = [] then PollEvery 500 else ZmqSubscriber zmqHost)"

definition node_module_init ::
  "(string \<Rightarrow> string fallible) \<Rightarrow> 'w node \<Rightarrow> config \<Rightarrow> node_client \<times> 'w \<Rightarrow>
     (node_client \<times> 'w) \<times> (http_settings \<times> block_source \<times> jsval option) fallible" where
  "node_module_init readFile post cfg s =
     (case node_http readFile cfg of
        Inl e \<Rightarrow> (s, Inl e)
      | Inr http \<Rightarrow>
          let s1 = fst (node_call post ''getrpcinfo'' [] s)
          in case block_source_of cfg of
               ZmqSubscriber h \<Rightarrow> (case pollMiningInfo post s1 of (s2, r) \<Rightarrow> (s2, Inr (http, ZmqSubscriber h, r)))
             | PollEvery t \<Rightarrow> (s1, Inr (http, PollEvery t, None)))"

text \<open>The polls of a running server, one answer of the node at a time, and what \<open>newBlock$\<close> emits.\<close>

primrec announcements :: "'w node list \<Rightarrow> node_client \<times> 'w \<Rightarrow> (node_client \<times> 'w) \<times> jsval list" where
  "announcements [] s = (s, [])"
| "announcements (post # ps) s =
     (case pollMiningInfo post s of
        (s1, r) \<Rightarrow> (case announcements ps s1 of (s2, vs) \<Rightarrow> (s2, (case r of None \<Rightarrow> vs | Some v \<Rightarrow> v # vs))))"

abbreviation announced_height :: "jsval \<Rightarrow> jsnum" where
  "announced_height v \<equiv> val_num (jprop ''blocks'' v)"

lemma poll_announces:
  assumes "pollMiningInfo post s = (s', r)"
  shows "case r of None \<Rightarrow> nc_blockHeight (fst s') = nc_blockHeight (fst s)
         | Some v \<Rightarrow> nc_blockHeight (fst s') = announced_height v \<and> js_lt (nc_blockHeight (fst s)) (announced_height v)"
  using assms by (auto simp: pollMiningInfo_def getMiningInfo_def node_call_def Let_def split: prod.splits sum.splits if_splits)

text \<open>
  Whatever the node answers and however often it is asked, the announced heights strictly increase: no block is
  announced twice, and a node that falls back announces nothing until it has caught up.
\<close>

lemma announced_heights_increase:
  assumes "announcements posts s = (s', vs)"
  shows "sorted_wrt js_lt (nc_blockHeight (fst s) # map announced_height vs)"
  using assms
proof (induction posts arbitrary: s s' vs)
  case (Cons post ps)
  obtain s1 r where p: "pollMiningInfo post s = (s1, r)" by fastforce
  obtain s2 ws where a: "announcements ps s1 = (s2, ws)" by fastforce
  have IH: "sorted_wrt js_lt (nc_blockHeight (fst s1) # map announced_height ws)"
    by (rule Cons.IH[OF a])
  show ?case
  proof (cases r)
    case None
    then show ?thesis
      using Cons.prems p a IH poll_announces[OF p] by simp
  next
    case (Some v)
    then have h: "nc_blockHeight (fst s1) = announced_height v" "js_lt (nc_blockHeight (fst s)) (announced_height v)"
      using poll_announces[OF p] by simp_all
    have "js_lt (nc_blockHeight (fst s)) x" if "js_lt (announced_height v) x" for x
      using js_lt_le_trans[OF h(2) js_lt_imp_le[OF that]] .
    then show ?thesis
      using Cons.prems p a IH Some h by auto
  qed
qed simp

text \<open>
  \<open>waitForBlock\<close> reads the table every 100 ms until another process has saved the template; \<open>db k\<close> is the
  table at the \<open>k\<close>-th reading, and waiting for ever is the value \<open>None\<close>.
\<close>

partial_function (option) waitForBlock :: "(nat \<Rightarrow> rpc_block list) \<Rightarrow> int \<Rightarrow> nat \<Rightarrow> jsval fallible option" where
  "waitForBlock db h k =
     (case Option.bind (getBlock h (db k)) rb_data of
        None \<Rightarrow> waitForBlock db h (k + 1)
      | Some data \<Rightarrow> Some (case json_parse data of
                              None \<Rightarrow> Inl (mk_error ''Unexpected token in JSON'')
                            | Some v \<Rightarrow> Inr v))"

declare waitForBlock.simps [code]

lemma wait_ends_with_save:
  assumes "\<And>i. k \<le> i \<Longrightarrow> i < n \<Longrightarrow> Option.bind (getBlock h (db i)) rb_data = None" and "k \<le> n"
    and "Option.bind (getBlock h (db n)) rb_data = Some data" and "json_parse data = Some v"
  shows "waitForBlock db h k = Some (Inr v)"
  using assms
proof (induction "n - k" arbitrary: k)
  case 0
  then show ?case
    by (subst waitForBlock.simps) simp
next
  case (Suc m)
  then have "waitForBlock db h (k + 1) = Some (Inr v)"
    by (intro Suc.hyps(1)) simp_all
  then show ?case
    using Suc.prems(1)[of k] Suc.hyps(2) by (subst waitForBlock.simps) simp
qed

section \<open>Commands of the Discord bot\<close>

record interaction =
  it_isChatInputCommand :: bool
  it_commandName :: string
  it_replied :: bool
  it_deferred :: bool

datatype discord_reply = Reply string | FollowUp string

text \<open>\<open>send\<close> is Discord's library: it delivers or throws, and tells the interaction.\<close>

type_synonym discord_send_fn = "discord_reply \<Rightarrow> interaction \<Rightarrow> interaction \<times> unit fallible"

definition subscribe_execute :: "discord_send_fn \<Rightarrow> interaction \<Rightarrow> interaction \<times> unit fallible" where
  "subscribe_execute send i = send (Reply ''Work In Progress'') i"

definition commands :: "(string \<times> (discord_send_fn \<Rightarrow> interaction \<Rightarrow> interaction \<times> unit fallible)) list" where
  "commands = [(''subscribe'', subscribe_execute)]"

definition on_interaction :: "discord_send_fn \<Rightarrow> interaction \<Rightarrow> interaction \<times> unit fallible" where
  "on_interaction send i =
     (if \<not> it_isChatInputCommand i then (i, Inr ())
      else case map_of commands (it_commandName i) of
             None \<Rightarrow> (i, Inr ())
           | Some execute \<Rightarrow>
               (case execute send i of
                  (i1, Inr u) \<Rightarrow> (i1, Inr ())
                | (i1, Inl e) \<Rightarrow>
                    let apology = ''There was an error while executing this command!''
                    in if it_replied i1 \<or> it_deferred i1 then send (FollowUp apology) i1
                       else send (Reply apology) i1))"

text \<open>Registering the commands: errors of the request are only logged.\<close>

definition registerCommands :: "config \<Rightarrow> (string list \<Rightarrow> 'w \<Rightarrow> 'w \<times> jsval fallible) \<Rightarrow> 'w \<Rightarrow> 'w" where
  "registerCommands env put w = (if is_primary_instance env then fst (put (map fst commands) w) else w)"

definition discord_module_init ::
  "config \<Rightarrow> config \<Rightarrow> (string list \<Rightarrow> 'w \<Rightarrow> 'w \<times> jsval fallible) \<Rightarrow> 'w \<Rightarrow> 'w \<times> (discord_send_fn \<Rightarrow> interaction \<Rightarrow> interaction \<times> unit fallible) option" where
  "discord_module_init env cfg put w =
     (if \<not> discord_enabled env cfg then (w, None) else (registerCommands env put w, Some on_interaction))"

text \<open>An interaction is answered at most twice, the second time only when the first answer failed.\<close>

lemma interaction_answered:
  "it_isChatInputCommand i \<Longrightarrow> it_commandName i = ''subscribe'' \<Longrightarrow> send (Reply ''Work In Progress'') i = (i1, Inr ()) \<Longrightarrow>
     on_interaction send i = (i1, Inr ())"
  by (simp add: on_interaction_def commands_def subscribe_execute_def)

lemma interaction_failure_reported:
  assumes "it_isChatInputCommand i" and "it_commandName i = ''subscribe''"
    and "send (Reply ''Work In Progress'') i = (i1, Inl e)" and "\<not> it_replied i1" and "\<not> it_deferred i1"
  shows "on_interaction send i = send (Reply ''There was an error while executing this command!'') i1"
  using assms by (simp add: on_interaction_def commands_def subscribe_execute_def)

section \<open>The start of the process\<close>

text \<open>
  \<open>bootstrap\<close> of \<open>src/main.ts\<close>: without a port for the API nothing is started, with \<open>API_SECURE\<close> the key and the
  certificate are read. Building the application runs the \<open>onModuleInit\<close> of every service in an order the
  framework chooses; \<open>hooks\<close> is what they return, in that order, and the first that throws ends the start.
\<close>

datatype start = NotConfigured | StartFailed js_error | Listening string bool

fun first_failure :: "unit fallible list \<Rightarrow> unit fallible" where
  "first_failure [] = Inr ()"
| "first_failure (Inl e # rs) = Inl e"
| "first_failure (Inr u # rs) = first_failure rs"

definition read_tls :: "(string \<Rightarrow> string fallible) \<Rightarrow> string \<Rightarrow> (string \<times> string) fallible" where
  "read_tls readFile currentDirectory =
     fbind (readFile (currentDirectory @ ''/secrets/key.pem'')) (\<lambda>key.
     fbind (readFile (currentDirectory @ ''/secrets/cert.pem'')) (\<lambda>cert. Inr (key, cert)))"

definition bootstrap :: "(string \<Rightarrow> string fallible) \<Rightarrow> string \<Rightarrow> config \<Rightarrow> unit fallible list \<Rightarrow> start" where
  "bootstrap readFile currentDirectory env hooks =
     (case env ''API_PORT'' of
        None \<Rightarrow> NotConfigured
      | Some port \<Rightarrow>
          let secure = (map_option to_lower (env ''API_SECURE'') = Some ''true'')
          in case (if secure then fbind (read_tls readFile currentDirectory) (\<lambda>tls. Inr ()) else Inr ()) of
               Inl e \<Rightarrow> StartFailed e
             | Inr u \<Rightarrow> (case first_failure hooks of Inl e \<Rightarrow> StartFailed e | Inr u \<Rightarrow> Listening port secure))"

lemma first_failure_ok: "first_failure rs = Inr () \<longleftrightarrow> (\<forall>r \<in> set rs. r = Inr ())"
  by (induction rs rule: first_failure.induct) auto

text \<open>
  A server that listens has what it cannot work without: a secret of at least sixteen characters for its tokens, and
  the cookie files its settings name, in whatever order the services were set up.
\<close>

lemma listening_is_configured:
  assumes "bootstrap readFile dir env hooks = Listening port secure"
    and "{auth_module_init cfg, fbind (node_http readFile cfg) (\<lambda>h. Inr ()), fbind (wallet_http readFile cfg) (\<lambda>h. Inr ())}
           \<subseteq> set hooks"
  shows "\<exists>secret n w. cfg ''JWT_SECRET'' = Some secret \<and> 16 \<le> length secret \<and>
           node_http readFile cfg = Inr n \<and> wallet_http readFile cfg = Inr w \<and> env ''API_PORT'' = Some port"
proof -
  have "first_failure hooks = Inr ()" and port: "env ''API_PORT'' = Some port"
    using assms(1) by (auto simp: bootstrap_def Let_def split: option.splits sum.splits)
  then have "auth_module_init cfg = Inr ()" "fbind (node_http readFile cfg) (\<lambda>h. Inr ()) = Inr ()"
    "fbind (wallet_http readFile cfg) (\<lambda>h. Inr ()) = Inr ()"
    using assms(2) by (auto simp: first_failure_ok)
  then show ?thesis
    using port by (auto simp: auth_module_init_def fbind_Inr getJwtSecret_def split: option.splits if_splits)
qed

end
