(* ===== verification/ShareCounting.thy ===== *)
theory ShareCounting
  imports MinerStatistics
begin

text \<open>
  Counting shares when the handlers of one connection overlap. Every chunk of data starts a handler of its own
  (the data handler of \<open>StratumV1Client\<close>), and \<open>addShares\<close> of \<open>src/models/StratumV1ClientStatistics.ts\<close> awaits its
  writes, so another share, or the hourly sweep of the table, can come in between. Here \<open>addShares\<close> is cut at its
  awaits: \<open>addShares_begin\<close> runs to the first one, \<open>addShares_resume\<close> from one to the next. A write reaches
  the table when it is issued: the queries of one database connection are executed in the order
  they are issued, and these writes read nothing back. \<open>MinerStatistics.addShares\<close> is the run with nothing in between.
\<close>

section \<open>The pieces between the awaits\<close>

text \<open>
  What an await leaves to do: \<open>SlotClosed u d\<close> waits for the last write of the old slot and goes on to open slot
  \<open>u\<close> with the share \<open>d\<close>; \<open>RowWritten\<close> waits for a write and then notes its time.
\<close>

datatype suspended = SlotClosed int jsnum | RowWritten

record counting =
  ct_stats :: miner_stats
  ct_table :: statistics_table
  ct_waiting :: "suspended list"

definition addShares_begin :: "int \<Rightarrow> session_key \<Rightarrow> jsnum \<Rightarrow> counting \<Rightarrow> counting" where
  "addShares_begin now key submissionDifficulty c =
     (let s = (ct_stats c)\<lparr>t_submissionCache := push_submission now submissionDifficulty (t_submissionCache (ct_stats c))\<rparr>;
          t = ct_table c;
          timeSlot = slot_of now;
          sh = js_add (t_shares s) submissionDifficulty;
          n = t_acceptedCount s + 1
      in case t_currentTimeSlot s of
           None \<Rightarrow>
             c\<lparr>ct_stats := s\<lparr>t_previousTimeSlotTime := now, t_currentTimeSlotTime := now, t_currentTimeSlot := Some timeSlot,
                             t_shares := sh, t_acceptedCount := n\<rparr>,
               ct_table := insert_statistics now key timeSlot sh n t,
               ct_waiting := ct_waiting c @ [RowWritten]\<rparr>
         | Some slot \<Rightarrow>
             if slot \<noteq> timeSlot then
               c\<lparr>ct_stats := s, ct_table := update_statistics now key slot (t_shares s) (t_acceptedCount s) t,
                 ct_waiting := ct_waiting c @ [SlotClosed timeSlot submissionDifficulty]\<rparr>
             else if t_lastSave s < now - 60000 then
               c\<lparr>ct_stats := s\<lparr>t_shares := sh, t_acceptedCount := n\<rparr>, ct_table := update_statistics now key slot sh n t,
                 ct_waiting := ct_waiting c @ [RowWritten]\<rparr>
             else
               c\<lparr>ct_stats := s\<lparr>t_shares := sh, t_acceptedCount := n,
                   t_hashRate := (if js_gt sh (Num 0)
                      then js_div (js_mul (js_add (t_previousShares s) sh) (Num 4294967296))
                             (js_div (js_sub (IntN now) (IntN (t_previousTimeSlotTime s))) (Num 1000))
                      else t_hashRate s)\<rparr>\<rparr>)"

fun addShares_resume :: "int \<Rightarrow> session_key \<Rightarrow> suspended \<Rightarrow> counting \<Rightarrow> counting" where
  "addShares_resume now key (SlotClosed timeSlot submissionDifficulty) c =
     (let s = ct_stats c
      in c\<lparr>ct_stats := s\<lparr>t_previousShares := t_shares s, t_previousTimeSlotTime := t_currentTimeSlotTime s,
                         t_currentTimeSlotTime := now, t_currentTimeSlot := Some timeSlot,
                         t_shares := submissionDifficulty, t_acceptedCount := 1\<rparr>,
           ct_table := insert_statistics now key timeSlot submissionDifficulty 1 (ct_table c),
           ct_waiting := ct_waiting c @ [RowWritten]\<rparr>)"
| "addShares_resume now key RowWritten c = c\<lparr>ct_stats := (ct_stats c)\<lparr>t_lastSave := now\<rparr>\<rparr>"

text \<open>A share comes, the \<open>i\<close>-th waiting handler goes on, the hourly sweep deletes what is older than a day.\<close>

datatype counting_event = Share int jsnum | Resume int nat | Sweep int

definition drop_nth :: "nat \<Rightarrow> 'a list \<Rightarrow> 'a list" where
  "drop_nth i xs = take i xs @ drop (Suc i) xs"

fun counting_step :: "session_key \<Rightarrow> counting_event \<Rightarrow> counting \<Rightarrow> counting" where
  "counting_step key (Share now d) c = addShares_begin now key d c"
| "counting_step key (Resume now i) c =
     (if i < length (ct_waiting c)
      then addShares_resume now key (ct_waiting c ! i) (c\<lparr>ct_waiting := drop_nth i (ct_waiting c)\<rparr>) else c)"
| "counting_step key (Sweep now) c = c\<lparr>ct_table := deleteOldStatistics now (ct_table c)\<rparr>"

definition started_counting :: "int \<Rightarrow> statistics_table \<Rightarrow> counting" where
  "started_counting start t = \<lparr>ct_stats = new_stats start, ct_table = t, ct_waiting = []\<rparr>"

text \<open>With nothing between its awaits \<open>addShares\<close> is what \<open>MinerStatistics\<close> says.\<close>

lemma addShares_uninterrupted:
  assumes "addShares now key d (s, t) = (s', t')"
  shows "fold (counting_step key) [Share now d, Resume now 0, Resume now 0] \<lparr>ct_stats = s, ct_table = t, ct_waiting = []\<rparr> =
           \<lparr>ct_stats = s', ct_table = t', ct_waiting = []\<rparr>"
  using assms
  by (auto simp: addShares_def addShares_begin_def drop_nth_def Let_def split: option.splits if_splits)

section \<open>What is counted for a slot\<close>

text \<open>
  The open slot is counted in memory, a closed one in its row, and a share that waits for the old slot's last write is
  about to open the slot it came in.
\<close>

definition opens :: "int \<Rightarrow> suspended \<Rightarrow> bool" where
  "opens u p \<longleftrightarrow> (\<exists>d. p = SlotClosed u d)"

abbreviation stored :: "session_key \<Rightarrow> int \<Rightarrow> counting \<Rightarrow> int" where
  "stored key u c \<equiv> stored_count key (\<lambda>v. v = u) (ct_table c)"

definition counted_for :: "session_key \<Rightarrow> int \<Rightarrow> counting \<Rightarrow> int" where
  "counted_for key u c =
     (if t_currentTimeSlot (ct_stats c) = Some u then t_acceptedCount (ct_stats c) else stored key u c) +
     int (length (filter (opens u) (ct_waiting c)))"

fun share_slots :: "counting_event list \<Rightarrow> int list" where
  "share_slots [] = []"
| "share_slots (Share now d # es) = slot_of now # share_slots es"
| "share_slots (_ # es) = share_slots es"

definition swept :: "counting_event list \<Rightarrow> int \<Rightarrow> bool" where
  "swept es u \<longleftrightarrow> (\<exists>now. Sweep now \<in> set es \<and> u < now - 86400000)"

text \<open>
  An orderly run: the clock, which stays below \<open>2 ^ 52\<close>, does not go back, and no share comes while another one waits for
  the last write of the old slot. Shares, saves, inserts and sweeps may overlap in any other way.
\<close>

definition changing_slot :: "counting \<Rightarrow> bool" where
  "changing_slot c \<longleftrightarrow> list_ex (\<lambda>p. p \<noteq> RowWritten) (ct_waiting c)"

fun event_time :: "counting_event \<Rightarrow> int" where
  "event_time (Share now d) = now"
| "event_time (Resume now i) = now"
| "event_time (Sweep now) = now"

fun orderly :: "session_key \<Rightarrow> int \<Rightarrow> counting_event list \<Rightarrow> counting \<Rightarrow> bool" where
  "orderly key clk [] c = True"
| "orderly key clk (e # es) c =
     (clk \<le> event_time e \<and> event_time e \<le> 2 ^ 52 \<and> (case e of Share now d \<Rightarrow> \<not> changing_slot c | _ \<Rightarrow> True) \<and>
      orderly key (event_time e) es (counting_step key e c))"

section \<open>The invariant\<close>

text \<open>
  \<open>slots_ok key es clk c\<close>, after the events \<open>es\<close>: at most one handler waits to open a slot, later than the open
  one, which then is written out; rows are not newer than the open slot; and every slot that no sweep has reached is
  counted exactly.
\<close>

definition openers :: "counting \<Rightarrow> suspended list" where
  "openers c = filter (\<lambda>p. p \<noteq> RowWritten) (ct_waiting c)"

definition change_ok :: "session_key \<Rightarrow> counting_event list \<Rightarrow> int \<Rightarrow> int \<Rightarrow> counting \<Rightarrow> bool" where
  "change_ok key es clk slot c \<longleftrightarrow> slot \<le> slot_of clk \<and>
     (openers c = [] \<and> (\<forall>v \<in> set (share_slots es). v \<le> slot) \<or>
      (\<exists>u d. openers c = [SlotClosed u d] \<and> slot < u \<and> u \<le> slot_of clk \<and>
         (\<forall>v \<in> set (share_slots es). v \<le> u) \<and> count_list (share_slots es) u = 1 \<and>
         (\<not> swept es slot \<longrightarrow> stored key slot c = t_acceptedCount (ct_stats c))))"

definition slots_ok :: "session_key \<Rightarrow> counting_event list \<Rightarrow> int \<Rightarrow> counting \<Rightarrow> bool" where
  "slots_ok key es clk c \<longleftrightarrow>
     (case t_currentTimeSlot (ct_stats c) of
        None \<Rightarrow> share_slots es = [] \<and> t_acceptedCount (ct_stats c) = 0 \<and> openers c = [] \<and> (\<forall>r \<in> set (ct_table c). r_key r \<noteq> key)
      | Some slot \<Rightarrow>
          (\<forall>r \<in> set (ct_table c). r_key r = key \<longrightarrow> r_time r \<le> slot) \<and>
          int (count_list (share_slots es) slot) = t_acceptedCount (ct_stats c) \<and>
          (\<forall>u. u \<noteq> slot \<and> \<not> swept es u \<longrightarrow>
             stored key u c + int (length (filter (opens u) (openers c))) = int (count_list (share_slots es) u)) \<and>
          (\<not> swept es slot \<longrightarrow> slot_rows key slot (ct_table c) = 1 \<and> stored key slot c \<le> t_acceptedCount (ct_stats c)) \<and>
          change_ok key es clk slot c)"

lemma share_slots_append [simp]: "share_slots (es @ es') = share_slots es @ share_slots es'"
  by (induction es rule: share_slots.induct) simp_all

lemma swept_append: "swept (es @ es') u \<longleftrightarrow> swept es u \<or> swept es' u"
  by (auto simp: swept_def)

lemma swept_single [simp]: "\<not> swept [Share now d] u" "\<not> swept [Resume now i] u" "swept [Sweep now] u \<longleftrightarrow> u < now - 86400000"
  by (auto simp: swept_def)

lemma openers_filter: "filter (opens u) (ct_waiting c) = filter (opens u) (openers c)"
  unfolding openers_def by (auto simp: opens_def intro!: filter_cong)

lemma changing_slot_openers: "changing_slot c \<longleftrightarrow> openers c \<noteq> []"
  by (auto simp: changing_slot_def openers_def filter_empty_conv list_ex_iff)

lemma absent_later: "\<forall>r \<in> set t. r_key r = key \<longrightarrow> r_time r \<le> slot \<Longrightarrow> slot < u \<Longrightarrow> slot_rows key u t = 0 \<and> stored_count key (\<lambda>v. v = u) t = 0"
  by (intro conjI absent_slot absent_count) auto

lemma deleteOldStatistics_keeps:
  assumes "\<not> u < now - 86400000"
  shows "stored_count key (\<lambda>v. v = u) (deleteOldStatistics now t) = stored_count key (\<lambda>v. v = u) t"
    and "slot_rows key u (deleteOldStatistics now t) = slot_rows key u t"
  using assms
  by (auto simp: stored_count_def slot_rows_def deleteOldStatistics_def filter_filter
      intro!: arg_cong[where f = sum_list] arg_cong[where f = "map _"] arg_cong[where f = length] filter_cong)

lemma rows_not_newer_update:
  "\<forall>r \<in> set t. r_key r = key \<longrightarrow> r_time r \<le> u \<Longrightarrow>
     \<forall>r \<in> set (update_statistics now key' v sh n t). r_key r = key \<longrightarrow> r_time r \<le> u"
  by (metis set_update_statistics)

lemma slots_ok_share:
  assumes "slots_ok key es clk c" and "0 \<le> clk" and "clk \<le> now" and "now \<le> 2 ^ 52" and "\<not> changing_slot c"
  shows "slots_ok key (es @ [Share now d]) now (addShares_begin now key d c)"
proof -
  have none: "openers c = []"
    using assms(5) by (simp add: changing_slot_openers)
  have later: "slot_of clk \<le> slot_of now"
    using slot_of_mono[OF assms(2-4)] .
  have openers_append: "openers (x\<lparr>ct_waiting := ct_waiting c @ [p]\<rparr>) = (if p = RowWritten then [] else [p])" for x p
    using none by (simp add: openers_def)
  show ?thesis
  proof (cases "t_currentTimeSlot (ct_stats c)")
    case None
    then have "\<forall>r \<in> set (ct_table c). r_key r \<noteq> key" and "share_slots es = []" "t_acceptedCount (ct_stats c) = 0"
      using assms(1) by (auto simp: slots_ok_def change_ok_def)
    moreover from this(1) have "slot_rows key u (ct_table c) = 0" "stored key u c = 0" for u
      by (auto intro: absent_slot absent_count)
    ultimately show ?thesis
      using None none
      by (auto simp: slots_ok_def change_ok_def addShares_begin_def Let_def step_simps ball_insert_statistics openers_append swept_append)
  next
    case (Some slot)
    have inv: "slot \<le> slot_of clk" "\<forall>v \<in> set (share_slots es). v \<le> slot" "\<forall>r \<in> set (ct_table c). r_key r = key \<longrightarrow> r_time r \<le> slot"
      "int (count_list (share_slots es) slot) = t_acceptedCount (ct_stats c)"
      "\<And>u. u \<noteq> slot \<Longrightarrow> \<not> swept es u \<Longrightarrow> stored key u c = int (count_list (share_slots es) u)"
      "\<not> swept es slot \<Longrightarrow> slot_rows key slot (ct_table c) = 1 \<and> stored key slot c \<le> t_acceptedCount (ct_stats c)"
      using assms(1) Some none by (auto simp: slots_ok_def change_ok_def)
    show ?thesis
    proof (cases "slot = slot_of now")
      case True
      then show ?thesis
        using inv Some none update_unique[of key slot "ct_table c"]
        by (auto simp: slots_ok_def change_ok_def addShares_begin_def Let_def step_simps openers_append swept_append rows_not_newer_update
            simp del: One_nat_def) (simp_all add: openers_def)
    next
      case False
      then have "slot < slot_of now"
        using inv(1) later by simp
      moreover from this have "count_list (share_slots es) (slot_of now) = 0"
        using inv(2) by (auto simp: count_list_0_iff)
      ultimately show ?thesis
        using inv Some none False update_unique[of key slot "ct_table c"]
        by (auto simp: slots_ok_def change_ok_def addShares_begin_def Let_def step_simps openers_append swept_append rows_not_newer_update opens_def
            simp del: One_nat_def)
    qed
  qed
qed

lemma slots_ok_same:
  "t_currentTimeSlot (ct_stats c') = t_currentTimeSlot (ct_stats c) \<Longrightarrow>
   t_acceptedCount (ct_stats c') = t_acceptedCount (ct_stats c) \<Longrightarrow> ct_table c' = ct_table c \<Longrightarrow> openers c' = openers c \<Longrightarrow>
     slots_ok key es clk c' = slots_ok key es clk c"
  by (cases "t_currentTimeSlot (ct_stats c)") (simp_all add: slots_ok_def change_ok_def)

lemma change_ok_mono: "change_ok key es clk slot c \<Longrightarrow> slot_of clk \<le> slot_of now \<Longrightarrow> change_ok key es now slot c"
  unfolding change_ok_def by fastforce

lemma slots_ok_mono:
  assumes "slots_ok key es clk c" and "slot_of clk \<le> slot_of now"
  shows "slots_ok key (es @ [Resume now i]) now c"
proof -
  have same: "share_slots (es @ [Resume now i]) = share_slots es" "swept (es @ [Resume now i]) = swept es"
    by (simp_all add: fun_eq_iff swept_append)
  have "change_ok key (es @ [Resume now i]) now slot c" if "change_ok key es clk slot c" for slot
    using change_ok_mono[OF that assms(2)] unfolding change_ok_def same .
  then show ?thesis
    using assms(1) unfolding slots_ok_def same by (simp split: option.splits)
qed

lemma filter_drop_nth:
  "i < length xs \<Longrightarrow> filter P (drop_nth i xs) = filter P (take i xs) @ filter P (drop (Suc i) xs)"
  "i < length xs \<Longrightarrow> filter P xs = filter P (take i xs) @ filter P [xs ! i] @ filter P (drop (Suc i) xs)"
  by (simp add: drop_nth_def) (metis append_Cons append_Nil filter_append id_take_nth_drop)

lemma slots_ok_resume:
  assumes "slots_ok key es clk c" and "0 \<le> clk" and "clk \<le> now" and "now \<le> 2 ^ 52" and "i < length (ct_waiting c)"
  shows "slots_ok key (es @ [Resume now i]) now
           (addShares_resume now key (ct_waiting c ! i) (c\<lparr>ct_waiting := drop_nth i (ct_waiting c)\<rparr>))"
proof -
  note later = slot_of_mono[OF assms(2-4)]
  note ok = slots_ok_mono[OF assms(1) later, of i]
  let ?W = "ct_waiting c"
  note split = filter_drop_nth[OF assms(5), of "\<lambda>p. p \<noteq> RowWritten"]
  show ?thesis
  proof (cases "?W ! i")
    case RowWritten
    then have "openers (c\<lparr>ct_waiting := drop_nth i ?W\<rparr>) = openers c"
      using split by (simp add: openers_def)
    then have "slots_ok key (es @ [Resume now i]) now (c\<lparr>ct_waiting := drop_nth i ?W, ct_stats := (ct_stats c)\<lparr>t_lastSave := now\<rparr>\<rparr>)"
      using ok by (subst slots_ok_same[of _ c]) (simp_all add: openers_def)
    then show ?thesis
      by (simp add: RowWritten)
  next
    case (SlotClosed u d)
    then obtain slot where slot: "t_currentTimeSlot (ct_stats c) = Some slot"
      using ok split by (cases "t_currentTimeSlot (ct_stats c)") (auto simp: slots_ok_def openers_def)
    then have one: "openers c = [SlotClosed u d]" and rest: "filter (\<lambda>p. p \<noteq> RowWritten) (drop_nth i ?W) = []"
      using ok split SlotClosed by (auto simp: slots_ok_def change_ok_def openers_def append_eq_Cons_conv Cons_eq_append_conv)
    have inv: "slot < u" "u \<le> slot_of now" "count_list (share_slots es) u = 1" "\<forall>v \<in> set (share_slots es). v \<le> u" "\<forall>r \<in> set (ct_table c). r_key r = key \<longrightarrow> r_time r \<le> slot"
      "\<And>v. v \<noteq> slot \<Longrightarrow> \<not> swept es v \<Longrightarrow> stored key v c + (if v = u then 1 else 0) = int (count_list (share_slots es) v)"
      "int (count_list (share_slots es) slot) = t_acceptedCount (ct_stats c)"
      "\<not> swept es slot \<Longrightarrow> stored key slot c = t_acceptedCount (ct_stats c)"
      using ok slot one by (auto simp: slots_ok_def change_ok_def opens_def swept_append split: if_splits)
    have fresh: "slot_rows key u (ct_table c) = 0" "stored key u c = 0"
      using absent_later[OF inv(5,1)] by auto
    have closed: "stored key v c = int (count_list (share_slots es) v)" if "v \<noteq> u" "\<not> swept es v" for v
      using inv(6)[of v] inv(7,8) that by (cases "v = slot") auto
    show ?thesis
      using SlotClosed inv(1-5) closed fresh rest
      by (auto simp: slots_ok_def change_ok_def Let_def step_simps ball_insert_statistics openers_def opens_def swept_append)
  qed
qed

lemma slots_ok_sweep:
  assumes "slots_ok key es clk c" and "0 \<le> clk" and "clk \<le> now" and "now \<le> 2 ^ 52"
  shows "slots_ok key (es @ [Sweep now]) now (c\<lparr>ct_table := deleteOldStatistics now (ct_table c)\<rparr>)"
proof -
  let ?c = "c\<lparr>ct_table := deleteOldStatistics now (ct_table c)\<rparr>"
  have sub: "r \<in> set (deleteOldStatistics now t) \<Longrightarrow> r \<in> set t" for r t
    by (auto simp: deleteOldStatistics_def)
  have keeps: "stored key u ?c = stored key u c" "slot_rows key u (ct_table ?c) = slot_rows key u (ct_table c)" "\<not> swept es u"
    if "\<not> swept (es @ [Sweep now]) u" for u
    using that by (simp_all add: swept_append deleteOldStatistics_keeps)
  have "change_ok key (es @ [Sweep now]) now slot ?c" if "change_ok key es clk slot c" for slot
    using change_ok_mono[OF that slot_of_mono[OF assms(2-4)]] keeps[of slot]
    unfolding change_ok_def by (auto simp: openers_def)
  then show ?thesis
    using assms(1) sub keeps unfolding slots_ok_def by (simp add: openers_def split: option.splits)
qed

section \<open>Every share is counted for its slot\<close>

lemma slots_ok_step:
  assumes "slots_ok key es clk c" and "0 \<le> clk" and "clk \<le> event_time e" and "event_time e \<le> 2 ^ 52"
    and "case e of Share now d \<Rightarrow> \<not> changing_slot c | _ \<Rightarrow> True"
  shows "slots_ok key (es @ [e]) (event_time e) (counting_step key e c)"
proof (cases e)
  case (Share now d)
  then show ?thesis
    using assms slots_ok_share by simp
next
  case (Resume now i)
  then show ?thesis
    using assms slots_ok_resume[of key es clk c now i] slots_ok_mono[OF assms(1) slot_of_mono[OF assms(2-4)], of i] by simp
next
  case (Sweep now)
  then show ?thesis
    using assms slots_ok_sweep by simp
qed

lemma slots_ok_run:
  "slots_ok key es0 clk c \<Longrightarrow> 0 \<le> clk \<Longrightarrow> orderly key clk es c \<Longrightarrow>
     \<exists>clk'. slots_ok key (es0 @ es) clk' (fold (counting_step key) es c)"
proof (induction es arbitrary: es0 clk c)
  case (Cons e es)
  have "slots_ok key (es0 @ [e]) (event_time e) (counting_step key e c)"
    using Cons.prems by (intro slots_ok_step) auto
  from Cons.IH[OF this] show ?case
    using Cons.prems by auto
qed auto

text \<open>
  C16. No accepted share is lost or counted twice as long as no share comes while the connection waits for the last write
  of a finished slot: for a new session, however its handlers overlap otherwise and whenever the hourly sweep runs,
  what is counted for a ten-minute slot the sweep has not reached is the number of shares that came in the
  slot. For the open slot that is the counter in memory, its one row is never ahead of the counter, and a finished
  slot's rows hold the whole number.
\<close>

theorem shares_counted_once:
  assumes "\<forall>r \<in> set t. r_key r \<noteq> key" and "orderly key 0 es (started_counting start t)" and "\<not> swept es u"
  shows "let c = fold (counting_step key) es (started_counting start t)
         in counted_for key u c = int (count_list (share_slots es) u) \<and>
            (t_currentTimeSlot (ct_stats c) = Some u \<longrightarrow>
               slot_rows key u (ct_table c) = 1 \<and> stored key u c \<le> t_acceptedCount (ct_stats c))"
proof -
  let ?c = "fold (counting_step key) es (started_counting start t)"
  have "slots_ok key [] 0 (started_counting start t)"
    using assms(1) by (simp add: slots_ok_def started_counting_def new_stats_def openers_def)
  from slots_ok_run[OF this _ assms(2)] obtain clk where ok: "slots_ok key es clk ?c"
    by auto
  show ?thesis
  proof (cases "t_currentTimeSlot (ct_stats ?c)")
    case None
    then have "stored key u ?c = 0" and "openers ?c = []" and "share_slots es = []"
      using ok by (auto simp: slots_ok_def intro: absent_count)
    then show ?thesis
      using None by (simp add: counted_for_def openers_filter Let_def)
  next
    case (Some slot)
    have "filter (opens slot) (openers ?c) = []"
      using ok Some by (auto simp: slots_ok_def change_ok_def opens_def)
    then show ?thesis
      using ok Some assms(3) by (auto simp: counted_for_def openers_filter slots_ok_def Let_def)
  qed
qed

text \<open>
  Two shares of the same slot overlap with the first one's insert and with each other's save, the sweep runs while
  the change to the next slot is under way, and a share comes after it.
\<close>

definition example_key :: session_key where
  "example_key = \<lparr>k_address = ''a'', k_clientName = ''w'', k_sessionId = ''1''\<rparr>"

definition example_counting :: "counting_event list" where
  "example_counting =
     [Share 600001 (Num 4), Share 600002 (Num 4), Resume 600003 1, Resume 600003 0, Share 700000 (Num 4), Share 700001 (Num 4),
      Resume 700002 1, Resume 700003 0, Share 1200001 (Num 8), Sweep 1200002, Resume 1200003 0, Share 1200004 (Num 8), Resume 1200005 1, Resume 1200006 0]"

theorem shares_counted_once_witness:
  "let c = fold (counting_step example_key) example_counting (started_counting 0 [])
   in t_currentTimeSlot (ct_stats c) = Some 1200000 \<and> counted_for example_key 600000 c = 4 \<and> stored example_key 600000 c = 4"
proof -
  let ?c = "fold (counting_step example_key) example_counting (started_counting 0 [])"
  have o: "orderly example_key 0 example_counting (started_counting 0 [])"
    by code_simp
  have "\<not> swept example_counting 600000"
    by (simp add: swept_def example_counting_def)
  from shares_counted_once[OF _ o this]
  have "counted_for example_key 600000 ?c = int (count_list (share_slots example_counting) 600000)"
    by (simp add: Let_def)
  moreover have "count_list (share_slots example_counting) 600000 = 4" and open_slot: "t_currentTimeSlot (ct_stats ?c) = Some 1200000"
    and wait: "ct_waiting ?c = []"
    by code_simp+
  ultimately show ?thesis
    by (simp add: Let_def counted_for_def)
qed

section \<open>Two shares at the change of a slot\<close>

text \<open>
  Without that condition shares are lost and counted twice: two shares, in chunks of their own, find the slot finished before
  the first one's write returns. Both open the new slot: the counter says one, and there are two rows for it.
  The next save then writes the whole count to both, and every sum over the table counts the slot twice.
\<close>

theorem slot_change_race:
  assumes "t_currentTimeSlot (ct_stats c) = Some slot" and "ct_waiting c = []" and "slot_of now1 = u" and "slot_of now2 = u"
    and "slot \<noteq> u" and "slot_rows key u (ct_table c) = 0"
  shows "let c' = fold (counting_step key)
                    [Share now1 d1, Share now2 d2, Resume now3 0, Resume now4 0, Resume now5 0, Resume now6 0] c
         in t_currentTimeSlot (ct_stats c') = Some u \<and> t_acceptedCount (ct_stats c') = 1 \<and> ct_waiting c' = [] \<and>
            slot_rows key u (ct_table c') = 2 \<and>
            (\<forall>now d. slot_of now = u \<longrightarrow> now6 < now - 60000 \<longrightarrow>
               (let c'' = fold (counting_step key) [Share now d, Resume now 0] c'
                in t_acceptedCount (ct_stats c'') = 2 \<and> stored key u c'' = 4))"
proof -
  define c' where "c' = fold (counting_step key)
    [Share now1 d1, Share now2 d2, Resume now3 0, Resume now4 0, Resume now5 0, Resume now6 0] c"
  have run: "t_currentTimeSlot (ct_stats c') = Some u" "t_acceptedCount (ct_stats c') = 1" "ct_waiting c' = []"
    "slot_rows key u (ct_table c') = 2" "t_lastSave (ct_stats c') = now6"
    using assms by (simp_all add: c'_def addShares_begin_def drop_nth_def Let_def step_simps)
  have "t_acceptedCount (ct_stats c'') = 2 \<and> stored key u c'' = 4"
    if "c'' = fold (counting_step key) [Share now d, Resume now 0] c'" "slot_of now = u" "now6 < now - 60000" for now d c''
    using run that stored_count_update_unique[of key u now]
    by (simp add: addShares_begin_def drop_nth_def Let_def slot_rows_def)
  then show ?thesis
    unfolding c'_def[symmetric] Let_def by (simp only: run simp_thms) blast
qed

end
