(* ===== verification/Spec2Isabelle.thy ===== *)
theory Spec2Isabelle
  imports RewardCalculator MinerAccountSettings WalletRpc PayoutScheduler Difficulty ClientStatistics
    MinerStatistics NetworkTarget ClientRegistry AddressSettings PoolRegistry ExternalShares NodeRpc
    StratumMessages StratumClient VersionRolling StratumServer Login TelegramBot LogRotation Dashboard
    PoolHistory ServerPool FrontDoor AccountQueues PayoutRetry Startup ShareCounting
begin

text \<open>
  A verification development of the Elektron Net PPLNS mining pool, a NestJS server in TypeScript.

  \<^bold>\<open>The program.\<close> Miners connect over TCP and speak Stratum v1 (one \<open>StratumV1Client\<close> per connection). The
  server fetches block templates from its node, turns them into jobs whose coinbase pays the pool's wallet,
  sends them, and judges the shares that come back by the difficulty of their header. An accepted share
  is a row of the PPLNS share log. A share that meets the network's difficulty is submitted as a block; when the
  node accepts it, the reward is split over the shares of the window into rows of the payout ledger, and fee
  and rounding dust go to the pool's account. A scheduler pays mature rows in batches through the wallet
  node and later confirms them. Around this: vardiff and statistics per connection, the tables of
  clients, best shares and found blocks, reports to explorers and to other pools, the HTTP views, logging in to
  the account settings, a Telegram and a Discord bot, and log files.

  \<^bold>\<open>How it is modelled.\<close> A component is one theory: its tables and objects are records, each method is a
  definition with the method's name where the name is free, and a class's state is passed explicitly. What a method
  throws is the left side of a sum (\<open>fallible\<close>); code that changes state and can throw is an
  action (\<open>Effects\<close>), which keeps the state reached when it throws. The clock, random values and answers
  from outside are arguments. An \<open>async\<close> method is one step where nothing else it depends on can run in
  between, and is cut at its awaits where the order matters: the payout cycle (\<open>meanwhile\<close> is what happens to the
  ledger while the wallet sends; \<open>PoolHistory\<close> cuts it at every await), the statistics of shares (\<open>ShareCounting\<close>), the
  on-chain login, and the poll of Telegram. A submission is handled in one step, with one reading of the clock.

  \<^bold>\<open>The language\<close> (no counterpart under \<open>src\<close>). \<open>JsNumber\<close>: binary64 numbers as exact rationals with rounding to
  nearest even, \<open>NaN\<close>, infinities, 32-bit operators, \<open>parseInt\<close> and \<open>parseFloat\<close>; \<open>JsString\<close>, \<open>JsDate\<close>, \<open>Buffers\<close>,
  \<open>JsValue\<close> and \<open>Json\<close> (\<open>JSON.parse\<close>; its fuel is the length of the text, which every
  recursive call shortens). \<open>Prelude\<close> has the rewrite collections and the lemmas on tables, \<open>FloatSums\<close> the
  rounding bounds of sums, \<open>Simulation\<close> the contract between a component and the abstract machine it implements.

  \<^bold>\<open>Rewards and payouts.\<close>
  \<^item> \<open>Config\<close>: every getter of a setting, all over the tree, with its default and its bounds.
  \<^item> \<open>PayoutLedger\<close> (\<open>src/ORM/payout-ledger\<close>), \<open>PoolAccounting\<close> (\<open>src/ORM/pool-accounting\<close>) and \<open>ShareLog\<close>
    (\<open>src/ORM/pplns-shares\<close>): the tables and their queries. Lemmas: value is conserved, rows only move
    forward, a window reads what was recorded in spite of the pruning.
  \<^item> \<open>RewardCalculator\<close> (\<open>src/pplns/reward-calculator.service.ts\<close>): the split in double arithmetic; it conserves the
    reward to the satoshi and is proportional up to a satoshi per share and the part of one satoshi.
  \<^item> \<open>MinerAccountSettings\<close> (\<open>src/ORM/miner-account-settings\<close> and its controller): validation and upsert.
  \<^item> \<open>WalletRpc\<close> (\<open>src/services/wallet-rpc.service.ts\<close>) and \<open>PayoutScheduler\<close> (\<open>src/pplns/payout-scheduler.service.ts\<close>):
    what is sent, which rows are claimed for it, which of them the answers received in a reconciliation confirm, and
    what answers without an envelope do.
  \<^item> \<open>AccountQueues\<close>: the ledger table refines one queue of credits per miner, from which payouts take the oldest.
  \<^item> \<open>PayoutRetry\<close>: two cycles around a wallet whose answer is lost.
  \<^item> \<open>PoolHistory\<close>: all of these together. A step relation interleaves shares, sweeps, blocks and confirmations with
    the pieces of any number of payout cycles, which may overlap, and counts the rewards and the answered batches. The
    tables always balance with the rewards; nobody is marked as paid more than the batches say, and exactly that
    while no two cycles overlap.

  \<^bold>\<open>Work and shares.\<close>
  \<^item> \<open>Difficulty\<close> (\<open>src/utils/difficulty.utils.ts\<close>) and \<open>NetworkTarget\<close>: the double comparison against the exact one.
  \<^item> \<open>MiningJob\<close> (\<open>src/models/MiningJob.ts\<close>) and \<open>StratumJobs\<close> (\<open>src/services/stratum-v1-jobs.service.ts\<close>): coinbase, Merkle
    branch, header, submitted block, templates and ids.
  \<^item> \<open>StratumMessages\<close> (\<open>src/models/stratum-messages\<close>), \<open>StratumSession\<close>, \<open>ShareSubmission\<close> and \<open>StratumClient\<close>
    (\<open>src/models/StratumV1Client.ts\<close>): parsing and replies, the state of a connection, submissions, the
    handlers. \<open>SessionInvariants\<close> shows once what no handler touches; \<open>ShareProperties\<close> follows a submission to
    the money; \<open>VersionRolling\<close> is about the bits of the version.
  \<^item> \<open>MinerStatistics\<close> (\<open>src/models/StratumV1ClientStatistics.ts\<close>): vardiff, counters, and where it does not end. The
    recursion is a partial function, so not returning is a value. \<open>ShareCounting\<close> runs its handlers side by side:
    every share is counted once unless one comes while the slot changes, which it shows to lose shares.
  \<^item> \<open>StratumServer\<close> (\<open>src/services/stratum-v1.service.ts\<close>): listeners and the backpressure monitor, which refines
    an abstract gate.
  \<^item> \<open>FrontDoor\<close>: the server sockets in front of the connections, with the language's way of counting them against
    the limit a server object carries: every server keeps it, but a pause starts the count again.
  \<^item> \<open>ServerPool\<close>: many connections on one set of tables, with the sweep and the scheduler beside them, followed
    from \<open>mining.authorize\<close> to the batch the wallet is asked to pay.

  \<^bold>\<open>Tables, views and services.\<close>
  \<^item> \<open>ClientStatistics\<close>, \<open>ClientRegistry\<close>, \<open>AddressSettings\<close>, \<open>ExternalShares\<close> (\<open>src/ORM\<close>), \<open>PoolRegistry\<close>
    and \<open>NodeRpc\<close> (\<open>src/services\<close>).
  \<^item> \<open>Dashboard\<close>: the HTTP views (\<open>src/controllers\<close>, \<open>src/app.controller.ts\<close>) and the clean-up timers; the payout
    export is read back by the names of its columns.
  \<^item> \<open>Login\<close> (\<open>src/auth\<close>): challenges, tokens and the guard, over histories of requests: which request earned a token.
  \<^item> \<open>TelegramBot\<close> (\<open>src/services/telegram.service.ts\<close>, \<open>discord.service.ts\<close>, \<open>notification.service.ts\<close>).
  \<^item> \<open>Startup\<close>: when the process starts (\<open>src/main.ts\<close>) and what the RPC clients, the source of new blocks and the
    Discord bot set up; network parameters.
  \<^item> \<open>LogRotation\<close> (\<open>src/services/log-rotation.service.ts\<close>).

  \<^bold>\<open>Interfaces\<close> are locales: logs with a window, stores of jobs, registries, machines that simulate, invariants of
  actions; each is interpreted on the component that provides it, and the properties use those facts.

  \<^bold>\<open>Parameters.\<close> \<open>bitcoinjs-lib\<close> (\<open>bitcoin_lib\<close>), the hash, \<open>bitcoinjs-message\<close> and the JWT library (\<open>login_lib\<close>), the
  nodes (\<open>post\<close>, any function of the request and an outside world), SQLite's order of summation
  (\<open>sql_sum\<close>), \<open>toFixed\<close> beyond 1e21 (\<open>big\<close>), the cache of the views. What a property needs of them is a
  hypothesis, and its witness instantiates them.

  \<^bold>\<open>Not modelled.\<close> Module wiring, which has no logic of its own; console
  texts; URL parsing, the HTTP clients, the ZeroMQ socket and Discord's connection, which are calls into
  libraries; \<open>btc-pay.service.ts\<close> and \<open>braiins.service.ts\<close>, which only post fixed requests and are not called;
  \<open>address.controller.ts\<close> and the tests. Database calls succeed, except for violations of a key. Timers are
  steps that may come at any time, not at their period. Characters beyond 255 are left out.
\<close>

end
